theory Spec2Isabelle
  imports Main
begin

section \<open>Instants, calendar dates and time zones\<close>

text \<open>
  A JavaScript \<open>Date\<close> is its \<open>getTime()\<close> value: milliseconds since the epoch, an
  integer. One minute is 60000 ms, one hour 3600000 ms, one day 86400000 ms.
\<close>

type_synonym instant = int

text \<open>
  The proleptic Gregorian date \<open>(year, month, day)\<close> of a day number (days since
  1970-01-01) and back. Both directions are the usual era-based computation.
\<close>

definition civil_from_days :: "int \<Rightarrow> int \<times> int \<times> int" where
  "civil_from_days n =
     (let z = n + 719468;
          era = z div 146097;
          doe = z mod 146097;
          yoe = (doe - doe div 1460 + doe div 36524 - doe div 146096) div 365;
          doy = doe - (365 * yoe + yoe div 4 - yoe div 100);
          mp = (5 * doy + 2) div 153;
          d = doy - (153 * mp + 2) div 5 + 1;
          m = (if mp < 10 then mp + 3 else mp - 9);
          y = yoe + era * 400
      in (if m \<le> 2 then y + 1 else y, m, d))"

definition days_from_civil :: "int \<Rightarrow> int \<Rightarrow> int \<Rightarrow> int" where
  "days_from_civil y m d =
     (let y' = (if m \<le> 2 then y - 1 else y);
          era = y' div 400;
          yoe = y' mod 400;
          doy = (153 * (if m > 2 then m - 3 else m + 9) + 2) div 5 + d - 1;
          doe = yoe * 365 + yoe div 4 - yoe div 100 + doy
      in era * 146097 + doe - 719468)"

definition year_of :: "int \<times> int \<times> int \<Rightarrow> int" where
  "year_of c = fst c"

definition month_of :: "int \<times> int \<times> int \<Rightarrow> int" where
  "month_of c = fst (snd c)"

definition day_of :: "int \<times> int \<times> int \<Rightarrow> int" where
  "day_of c = snd (snd c)"

text \<open>ISO weekday of a day number, Monday = 1 .. Sunday = 7 (day 0 was a Thursday).\<close>

definition weekday_of_days :: "int \<Rightarrow> int" where
  "weekday_of_days n = (n + 3) mod 7 + 1"

text \<open>
  A time zone is what luxon's \<open>zone.offset(ts)\<close> computes: the UTC offset, in minutes,
  in force at an instant.
\<close>

type_synonym zone = "instant \<Rightarrow> int"

definition utc :: zone where
  "utc t = 0"

text \<open>The local wall-clock reading of an instant, as milliseconds "as if UTC".\<close>

definition local_ms :: "zone \<Rightarrow> instant \<Rightarrow> int" where
  "local_ms z t = t + z t * 60000"

definition local_day :: "zone \<Rightarrow> instant \<Rightarrow> int" where
  "local_day z t = local_ms z t div 86400000"

definition dt_hour :: "zone \<Rightarrow> instant \<Rightarrow> int" where
  "dt_hour z t = (local_ms z t mod 86400000) div 3600000"

definition dt_minute :: "zone \<Rightarrow> instant \<Rightarrow> int" where
  "dt_minute z t = (local_ms z t mod 3600000) div 60000"

definition dt_second :: "zone \<Rightarrow> instant \<Rightarrow> int" where
  "dt_second z t = (local_ms z t mod 60000) div 1000"

definition dt_millisecond :: "zone \<Rightarrow> instant \<Rightarrow> int" where
  "dt_millisecond z t = local_ms z t mod 1000"

section \<open>The luxon operations the service calls\<close>

text \<open>
  luxon is a dependency of the repository, not part of it. A luxon \<open>DateTime\<close> in a
  zone is modelled by its instant: its calendar fields are read at the zone's offset at
  that instant. Every operation that builds a \<open>DateTime\<close> from calendar fields goes
  through luxon's \<open>fixOffset(localTS, o, tz)\<close>, which is transcribed here: it guesses
  the instant with the offset \<open>o\<close> it is given, corrects the guess once, and when the
  two offsets it sees disagree ("hole time": the wall-clock time was skipped by a DST
  transition) it keeps the one-hour-later reading.
\<close>

definition fixOffset :: "int \<Rightarrow> int \<Rightarrow> zone \<Rightarrow> instant \<times> int" where
  "fixOffset localTS o1 tz =
     (let utcGuess = localTS - o1 * 60000;
          o2 = tz utcGuess
      in if o1 = o2 then (utcGuess, o1)
         else (let utcGuess' = utcGuess - (o2 - o1) * 60000;
                   o3 = tz utcGuess'
               in if o2 = o3 then (utcGuess', o2)
                  else (localTS - min o2 o3 * 60000, max o2 o3)))"

text \<open>\<open>dt.set({hour, minute, second})\<close>: the other fields stay, the offset is re-resolved.\<close>

definition set_hms :: "zone \<Rightarrow> instant \<Rightarrow> int \<Rightarrow> int \<Rightarrow> int \<Rightarrow> instant" where
  "set_hms z t h m s =
     fst (fixOffset (local_day z t * 86400000 + h * 3600000 + m * 60000 + s * 1000
                      + dt_millisecond z t) (z t) z)"

text \<open>\<open>dt.startOf('day')\<close> sets hour, minute, second and millisecond to zero.\<close>

definition startOf_day :: "zone \<Rightarrow> instant \<Rightarrow> instant" where
  "startOf_day z t = fst (fixOffset (local_day z t * 86400000) (z t) z)"

text \<open>\<open>dt.plus({days: n})\<close> moves the calendar day and keeps the wall-clock time.\<close>

definition plus_days :: "zone \<Rightarrow> instant \<Rightarrow> int \<Rightarrow> instant" where
  "plus_days z t n = fst (fixOffset (local_ms z t + n * 86400000) (z t) z)"

text \<open>
  \<open>dt.plus({milliseconds: n})\<close> re-resolves the unchanged calendar fields and then adds
  the milliseconds to the instant.
\<close>

definition plus_millis :: "zone \<Rightarrow> instant \<Rightarrow> int \<Rightarrow> instant" where
  "plus_millis z t n = fst (fixOffset (local_ms z t) (z t) z) + n"

text \<open>\<open>dt.endOf('day')\<close> is \<open>dt.plus({days: 1}).startOf('day').minus(1)\<close>.\<close>

definition endOf_day :: "zone \<Rightarrow> instant \<Rightarrow> instant" where
  "endOf_day z t = plus_millis z (startOf_day z (plus_days z t 1)) (- 1)"

text \<open>
  \<open>DateTime.fromObject({year, month, day, hour: 0, minute: 0, second: 0}, {zone})\<close> for
  the date with day number \<open>n\<close>; luxon's first guess is the zone's offset at the current
  time \<open>tsNow\<close>.
\<close>

definition fromObject_midnight :: "zone \<Rightarrow> instant \<Rightarrow> int \<Rightarrow> instant" where
  "fromObject_midnight z tsNow n = fst (fixOffset (n * 86400000) (z tsNow) z)"

text \<open>\<open>dt.toISODate()\<close>: the local calendar date (the text \<open>yyyy-MM-dd\<close> as a triple).\<close>

definition toISODate :: "zone \<Rightarrow> instant \<Rightarrow> int \<times> int \<times> int" where
  "toISODate z t = civil_from_days (local_day z t)"

section \<open>Strings\<close>

definition digit_char :: "nat \<Rightarrow> char" where
  "digit_char d = ''0123456789'' ! (d mod 10)"

fun digits :: "nat \<Rightarrow> nat \<Rightarrow> string" where
  "digits 0 n = []"
| "digits (Suc k) n = digits k (n div 10) @ [digit_char n]"

text \<open>luxon's zero padding to a width, for the non-negative fields of a date.\<close>

definition padStart :: "int \<Rightarrow> nat \<Rightarrow> string" where
  "padStart v w = digits w (nat v)"

text \<open>\<open>dt.toFormat("'DTSTART:'yyyyMMdd'T'HHmmss'Z'")\<close> of an instant read in UTC.\<close>

definition dtStartString :: "instant \<Rightarrow> string" where
  "dtStartString t =
     (let c = civil_from_days (local_day utc t)
      in ''DTSTART:'' @ padStart (year_of c) 4 @ padStart (month_of c) 2 @ padStart (day_of c) 2
         @ ''T'' @ padStart (dt_hour utc t) 2 @ padStart (dt_minute utc t) 2
         @ padStart (dt_second utc t) 2 @ ''Z'')"

definition startsWith :: "string \<Rightarrow> string \<Rightarrow> bool" where
  "startsWith s p = (take (length p) s = p)"

text \<open>\<open>s.split(c)\<close> for a one-character separator.\<close>

fun split_on :: "char \<Rightarrow> string \<Rightarrow> string list" where
  "split_on c [] = [[]]"
| "split_on c (x # xs) =
     (if x = c then [] # split_on c xs
      else (case split_on c xs of [] \<Rightarrow> [[x]] | w # ws \<Rightarrow> (x # w) # ws))"

text \<open>\<open>s.replace(p, '')\<close> for a string pattern: the first occurrence is removed.\<close>

fun remove_first :: "string \<Rightarrow> string \<Rightarrow> string" where
  "remove_first p [] = []"
| "remove_first p (c # cs) =
     (if startsWith (c # cs) p then drop (length p) (c # cs) else c # remove_first p cs)"

text \<open>
  \<open>line.replace(/BYDAY=[A-Z,]+/, `BYDAY=${code}`)\<close>: the leftmost place where
  \<open>BYDAY=\<close> is followed by at least one capital letter or comma; the longest such run
  is replaced.
\<close>

definition is_day_char :: "char \<Rightarrow> bool" where
  "is_day_char c = (c \<in> set ''ABCDEFGHIJKLMNOPQRSTUVWXYZ,'')"

fun replace_byday :: "string \<Rightarrow> string \<Rightarrow> string" where
  "replace_byday code [] = []"
| "replace_byday code (c # cs) =
     (if startsWith (c # cs) ''BYDAY='' \<and> (case drop 6 (c # cs) of [] \<Rightarrow> False | d # _ \<Rightarrow> is_day_char d)
      then ''BYDAY='' @ code @ dropWhile is_day_char (drop 6 (c # cs))
      else c # replace_byday code cs)"

section \<open>Parsed calendar entries and the library interface\<close>

text \<open>
  \<open>ical.parseICS\<close> (node-ical) turns feed text into entries; the service reads the
  fields below. \<open>datetype\<close> is \<open>'date'\<close> for an all-day entry. A missing text field is
  \<open>None\<close> (JavaScript \<open>undefined\<close>). \<open>exdate\<close> lists \<open>Object.values(item.exdate)\<close> and
  \<open>recurrences\<close> the values of \<open>item.recurrences\<close> in key order; both are empty when the
  property is absent.
\<close>

datatype error = LibraryError string | FetchError string | DecodeError string

datatype js_date = Date instant | InvalidDate

datatype datetype = DateOnly | DateAndTime

text \<open>
  The options of an \<open>RRule\<close>. \<open>freq\<close> is rrule's \<open>Frequency\<close> number (\<open>YEARLY = 0\<close>,
  \<open>MONTHLY = 1\<close>, \<open>WEEKLY = 2\<close>, \<open>DAILY = 3\<close>, \<open>HOURLY = 4\<close>, \<open>MINUTELY = 5\<close>,
  \<open>SECONDLY = 6\<close>); \<open>None\<close> is \<open>undefined\<close> or \<open>null\<close>. \<open>NaN\<close> is \<open>None\<close> in
  \<open>count\<close> and \<open>interval\<close>, which are only tested for truthiness and handed on.
\<close>

record rule_options =
  freq :: "nat option"
  dtstart :: instant
  tzid :: "string option"
  byweekday :: "int list option"
  bymonthday :: "int list option"
  bymonth :: "int list option"
  count :: "int option"
  interval :: "int option"
  until :: "js_date option"

abbreviation (input) YEARLY :: nat where "YEARLY \<equiv> 0"
abbreviation (input) MONTHLY :: nat where "MONTHLY \<equiv> 1"
abbreviation (input) WEEKLY :: nat where "WEEKLY \<equiv> 2"
abbreviation (input) DAILY :: nat where "DAILY \<equiv> 3"
abbreviation (input) HOURLY :: nat where "HOURLY \<equiv> 4"
abbreviation (input) MINUTELY :: nat where "MINUTELY \<equiv> 5"
abbreviation (input) SECONDLY :: nat where "SECONDLY \<equiv> 6"

text \<open>An \<open>RRule\<close> object: its parsed \<open>options\<close> and the text \<open>toString()\<close> prints.\<close>

record rrule =
  options :: rule_options
  toString :: string

text \<open>An override: the companion entry of a \<open>RECURRENCE-ID\<close>.\<close>

record recurrence =
  recurrenceid :: instant
  rec_start :: instant
  rec_end :: instant
  rec_summary :: "string option"
  rec_description :: "string option"
  rec_location :: "string option"

record vevent =
  item_type :: string
  item_summary :: "string option"
  item_description :: "string option"
  item_location :: "string option"
  item_start :: instant
  item_end :: instant
  item_datetype :: datetype
  item_rrule :: "rrule option"
  item_exdate :: "instant list"
  item_recurrences :: "recurrence list"

text \<open>
  The objects pushed to \<open>allEvents\<close>. A key the object literal does not have is
  \<open>None\<close>: \<open>allDay\<close> is missing on override events, \<open>description\<close> and \<open>location\<close>
  on the events generated from a rule.
\<close>

record occurrence =
  title :: "string option"
  description :: "string option"
  location :: "string option"
  start :: instant
  end' :: instant
  allDay :: "bool option"
  calendarUrl :: string

text \<open>
  What the service takes from outside the repository: node-ical's decoder, the rrule
  package (\<open>rrulestr\<close>, \<open>new RRule\<close>, and \<open>after(dt, true)\<close> and \<open>between(a, b)\<close> of a
  set holding one rule), luxon's \<open>DateTime.fromISO(s).toJSDate()\<close>, the clock, the zone
  of the process (for \<open>Date.getMonth\<close>), the files of the cache directory (modification
  time and content, per URL) and the HTTP client. The theorems hold for every such
  environment.
\<close>

record env =
  parseICS :: "string \<Rightarrow> error + vevent list"
  rrulestr :: "string \<Rightarrow> error + rrule"
  new_RRule :: "rule_options \<Rightarrow> error + rrule"
  rr_after :: "rrule \<Rightarrow> instant \<Rightarrow> instant option"
  rr_between :: "rrule \<Rightarrow> instant \<Rightarrow> instant \<Rightarrow> instant list"
  fromISO :: "string \<Rightarrow> js_date"
  now :: instant
  systemZone :: zone
  cache :: "string \<Rightarrow> (instant \<times> string) option"
  axios_get :: "string \<Rightarrow> error + string"

text \<open>JavaScript's \<open>a || b\<close> on optional strings: the empty string is falsy too.\<close>

definition js_or :: "string option \<Rightarrow> string option \<Rightarrow> string option" where
  "js_or a b = (case a of None \<Rightarrow> b | Some s \<Rightarrow> if s = [] then b else Some s)"

text \<open>Truthiness of an optional number: \<open>undefined\<close>, \<open>NaN\<close> and \<open>0\<close> are falsy.\<close>

definition truthy_num :: "int option \<Rightarrow> int option" where
  "truthy_num v = (case v of None \<Rightarrow> None | Some n \<Rightarrow> if n = 0 then None else Some n)"

section \<open>calendarService.js\<close>

subsection \<open>getCachedData\<close>

text \<open>
  A cache file younger than \<open>CACHE_TTL_MS\<close> (20 minutes) is returned; a missing,
  unreadable or older one leads to \<open>axios.get(url)\<close>, whose failure is not caught.
  The files are named by the MD5 hash of the URL; the model looks them up by the URL.
  The write-back of the fetched text cannot fail the call (its error is caught) and is
  left out: \<open>axios_get\<close> is a function, so a later call for the same URL returns the same
  text with or without the file.
\<close>

definition getCachedData :: "env \<Rightarrow> string \<Rightarrow> error + string" where
  "getCachedData E url =
     (case cache E url of
        Some (mtimeMs, content) \<Rightarrow>
          if now E - mtimeMs < 1000 * 60 * 20 then Inr content else axios_get E url
      | None \<Rightarrow> axios_get E url)"

subsection \<open>adjustEndForAllDayEvents\<close>

definition adjustEndForAllDayEvents :: "vevent \<Rightarrow> instant" where
  "adjustEndForAllDayEvents item =
     (if item_datetype item = DateOnly then item_end item - 1 else item_end item)"

subsection \<open>parseIcsData: recurring timed events\<close>

text \<open>\<open>['MO', ..., 'SU'][correctUtcDay - 1]\<close> with the UTC weekday of the start.\<close>

definition rruleDayCode :: "instant \<Rightarrow> string" where
  "rruleDayCode t =
     [''MO'', ''TU'', ''WE'', ''TH'', ''FR'', ''SA'', ''SU'']
       ! nat (weekday_of_days (local_day utc t) - 1)"

text \<open>
  Steps 1 to 6: the rule is rebuilt from a UTC \<open>DTSTART\<close> line and the \<open>RRULE:\<close> line
  with its \<open>BYDAY\<close> list replaced by the UTC weekday of the start; without an \<open>RRULE:\<close>
  line the parsed rule itself is used, with \<open>dtstart\<close> and \<open>tzid\<close> overwritten.
\<close>

definition newRuleText :: "vevent \<Rightarrow> string \<Rightarrow> string" where
  "newRuleText item rruleLine =
     dtStartString (item_start item) @ [CHR 0x0A]
       @ replace_byday (rruleDayCode (item_start item)) rruleLine"

definition utc_rule :: "env \<Rightarrow> vevent \<Rightarrow> rrule \<Rightarrow> error + rrule" where
  "utc_rule E item r =
     (case find (\<lambda>line. startsWith line ''RRULE:'') (split_on (CHR 0x0A) (toString r)) of
        Some rruleLine \<Rightarrow> rrulestr E (newRuleText item rruleLine)
      | None \<Rightarrow> Inr (r\<lparr>options := (options r)\<lparr>dtstart := item_start item, tzid := None\<rparr>\<rparr>))"

text \<open>The local dates of the \<open>EXDATE\<close> instants (both recurring paths compute the same).\<close>

definition exdateDatesSet :: "zone \<Rightarrow> vevent \<Rightarrow> (int \<times> int \<times> int) list" where
  "exdateDatesSet timezone item = map (toISODate timezone) (item_exdate item)"

definition modifiedRecurrenceIds :: "vevent \<Rightarrow> instant list" where
  "modifiedRecurrenceIds item = map recurrenceid (item_recurrences item)"

text \<open>The event pushed for an override whose own start is inside the range.\<close>

definition recurrence_event :: "string \<Rightarrow> vevent \<Rightarrow> recurrence \<Rightarrow> occurrence" where
  "recurrence_event url item r =
     \<lparr>title = js_or (rec_summary r) (item_summary item),
      description = js_or (rec_description r) (item_description item),
      location = js_or (rec_location r) (item_location item),
      start = rec_start r, end' = rec_end r, allDay = None, calendarUrl = url\<rparr>"

definition recurrence_events :: "instant \<Rightarrow> instant \<Rightarrow> string \<Rightarrow> vevent \<Rightarrow> occurrence list" where
  "recurrence_events startRange endRange url item =
     map (recurrence_event url item)
       (filter (\<lambda>r. rec_start r \<ge> startRange \<and> rec_start r \<le> endRange) (item_recurrences item))"

text \<open>
  The wall-time correction: the date of the generated instant, read in the query zone,
  with the hour, minute and second of the event's start. \<open>setZone(timezone,
  {keepLocalTime: true})\<close> to the zone the value already has returns it unchanged.
\<close>

definition correctedStart :: "zone \<Rightarrow> vevent \<Rightarrow> instant \<Rightarrow> instant" where
  "correctedStart timezone item date =
     set_hms timezone date (dt_hour timezone (item_start item))
       (dt_minute timezone (item_start item)) (dt_second timezone (item_start item))"

definition timed_event :: "zone \<Rightarrow> string \<Rightarrow> vevent \<Rightarrow> instant \<Rightarrow> occurrence" where
  "timed_event timezone url item date =
     \<lparr>title = item_summary item, description = None, location = None,
      start = correctedStart timezone item date,
      end' = plus_millis timezone (correctedStart timezone item date)
               (adjustEndForAllDayEvents item - item_start item),
      allDay = Some False, calendarUrl = url\<rparr>"

definition timed_keep :: "zone \<Rightarrow> vevent \<Rightarrow> instant \<Rightarrow> bool" where
  "timed_keep timezone item date =
     (date \<notin> set (modifiedRecurrenceIds item)
      \<and> toISODate timezone (correctedStart timezone item date) \<notin> set (exdateDatesSet timezone item))"

definition recurring_timed ::
  "env \<Rightarrow> zone \<Rightarrow> instant \<Rightarrow> instant \<Rightarrow> string \<Rightarrow> vevent \<Rightarrow> rrule \<Rightarrow> error + occurrence list" where
  "recurring_timed E timezone startRange endRange url item r =
     (case utc_rule E item r of
        Inl e \<Rightarrow> Inl e
      | Inr rruleSet \<Rightarrow>
          (let pushed = recurrence_events startRange endRange url item
           in case rr_after E rruleSet startRange of
                None \<Rightarrow> Inr pushed
              | Some nextOccurrence \<Rightarrow>
                  if nextOccurrence > endRange then Inr pushed
                  else Inr (pushed @ map (timed_event timezone url item)
                              (filter (timed_keep timezone item)
                                 (rr_between E rruleSet startRange endRange)))))"

subsection \<open>parseIcsData: recurring all-day events\<close>

text \<open>
  \<open>RRule[value]\<close> for the name of a frequency. Any other key is modelled as
  \<open>undefined\<close>.
\<close>

definition freq_of_name :: "string \<Rightarrow> nat option" where
  "freq_of_name v =
     map_of [(''YEARLY'', YEARLY), (''MONTHLY'', MONTHLY), (''WEEKLY'', WEEKLY), (''DAILY'', DAILY),
             (''HOURLY'', HOURLY), (''MINUTELY'', MINUTELY), (''SECONDLY'', SECONDLY)] v"

text \<open>
  \<open>parseInt(value, 10)\<close>: leading blanks, an optional sign, then the longest run of
  decimal digits; \<open>NaN\<close> (\<open>None\<close>) when there is none.
\<close>

definition digit_value :: "char \<Rightarrow> int option" where
  "digit_value c =
     map_of [(CHR ''0'', 0), (CHR ''1'', 1), (CHR ''2'', 2), (CHR ''3'', 3), (CHR ''4'', 4),
             (CHR ''5'', 5), (CHR ''6'', 6), (CHR ''7'', 7), (CHR ''8'', 8), (CHR ''9'', 9)] c"

definition decimal_value :: "string \<Rightarrow> int" where
  "decimal_value ds = foldl (\<lambda>acc c. acc * 10 + (case digit_value c of None \<Rightarrow> 0 | Some d \<Rightarrow> d)) 0 ds"

definition parse_digits :: "string \<Rightarrow> int option" where
  "parse_digits s =
     (let ds = takeWhile (\<lambda>c. digit_value c \<noteq> None) s
      in if ds = [] then None else Some (decimal_value ds))"

definition parseInt :: "string \<Rightarrow> int option" where
  "parseInt s =
     (case dropWhile (\<lambda>c. c \<in> set [CHR '' '', CHR 0x09, CHR 0x0A, CHR 0x0D]) s of
        [] \<Rightarrow> None
      | c # cs \<Rightarrow>
          if c = CHR ''-'' then map_option uminus (parse_digits cs)
          else if c = CHR ''+'' then parse_digits cs
          else parse_digits (c # cs))"

text \<open>
  The recovery from the rule text, run when \<open>!parsedRule.freq\<close> (which is also true of
  \<open>YEARLY\<close>, the number 0): each \<open>;\<close>-separated part is split at \<open>=\<close> into a key and a
  value, and \<open>FREQ\<close>, \<open>COUNT\<close>, \<open>UNTIL\<close> and \<open>INTERVAL\<close> overwrite the options.
\<close>

definition recover_part :: "env \<Rightarrow> rule_options \<Rightarrow> string \<Rightarrow> rule_options" where
  "recover_part E parsedRule part =
     (let kv = split_on (CHR ''='') part;
          key = hd kv;
          val = (case tl kv of [] \<Rightarrow> None | v # _ \<Rightarrow> Some v)
      in if key = ''FREQ'' then parsedRule\<lparr>freq := Option.bind val freq_of_name\<rparr>
         else if key = ''COUNT'' then parsedRule\<lparr>count := Option.bind val parseInt\<rparr>
         else if key = ''UNTIL''
           then parsedRule\<lparr>until := Some (case val of None \<Rightarrow> InvalidDate | Some v \<Rightarrow> fromISO E v)\<rparr>
         else if key = ''INTERVAL'' then parsedRule\<lparr>interval := Option.bind val parseInt\<rparr>
         else parsedRule)"

definition parsedRule_of :: "env \<Rightarrow> rrule \<Rightarrow> rule_options" where
  "parsedRule_of E r =
     (if freq (options r) = None \<or> freq (options r) = Some 0
      then foldl (recover_part E) (options r)
             (split_on (CHR '';'') (remove_first ''RRULE:'' (toString r)))
      else options r)"

text \<open>\<open>date.getMonth() + 1\<close>: the month in the zone of the process.\<close>

definition getMonth :: "env \<Rightarrow> instant \<Rightarrow> int" where
  "getMonth E t = month_of (civil_from_days (local_day (systemZone E) t)) - 1"

text \<open>
  The clean options object and the fix for a yearly rule without a month. A missing
  frequency is only reported with \<open>console.warn\<close>; the options go to \<open>new RRule\<close>
  either way.
\<close>

definition ruleOptions :: "env \<Rightarrow> vevent \<Rightarrow> rule_options \<Rightarrow> rule_options" where
  "ruleOptions E item parsedRule =
     (let opts = \<lparr>freq = freq parsedRule, dtstart = item_start item, tzid = None,
                  byweekday = byweekday parsedRule, bymonthday = bymonthday parsedRule,
                  bymonth = bymonth parsedRule, count = truthy_num (count parsedRule),
                  interval = truthy_num (interval parsedRule), until = until parsedRule\<rparr>
      in if freq opts = Some YEARLY \<and> bymonth opts = None
         then opts\<lparr>bymonth := Some [getMonth E (item_start item) + 1]\<rparr>
         else opts)"

text \<open>
  A generated instant is read in UTC and its date becomes a local midnight; the
  duration is \<open>item.end - item.start\<close>.
\<close>

definition localOccurrence :: "env \<Rightarrow> zone \<Rightarrow> instant \<Rightarrow> instant" where
  "localOccurrence E timezone date = fromObject_midnight timezone (now E) (local_day utc date)"

definition allday_event :: "env \<Rightarrow> zone \<Rightarrow> string \<Rightarrow> vevent \<Rightarrow> instant \<Rightarrow> occurrence" where
  "allday_event E timezone url item date =
     \<lparr>title = item_summary item, description = None, location = None,
      start = localOccurrence E timezone date,
      end' = localOccurrence E timezone date + (item_end item - item_start item),
      allDay = Some True, calendarUrl = url\<rparr>"

definition allday_keep :: "env \<Rightarrow> zone \<Rightarrow> instant \<Rightarrow> instant \<Rightarrow> vevent \<Rightarrow> instant \<Rightarrow> bool" where
  "allday_keep E timezone startRange endRange item date =
     (\<not> (localOccurrence E timezone date < startRange \<or> localOccurrence E timezone date > endRange)
      \<and> toISODate timezone (localOccurrence E timezone date) \<notin> set (exdateDatesSet timezone item))"

definition recurring_allday ::
  "env \<Rightarrow> zone \<Rightarrow> instant \<Rightarrow> instant \<Rightarrow> string \<Rightarrow> vevent \<Rightarrow> rrule \<Rightarrow> error + occurrence list" where
  "recurring_allday E timezone startRange endRange url item r =
     (case new_RRule E (ruleOptions E item (parsedRule_of E r)) of
        Inl e \<Rightarrow> Inl e
      | Inr rule \<Rightarrow>
          (case rr_after E rule startRange of
             None \<Rightarrow> Inr []
           | Some nextOccurrence \<Rightarrow>
               if nextOccurrence > endRange then Inr []
               else Inr (map (allday_event E timezone url item)
                           (filter (allday_keep E timezone startRange endRange item)
                              (rr_between E rule (startRange - 24 * 60 * 60 * 1000)
                                 (endRange + 24 * 60 * 60 * 1000))))))"

subsection \<open>parseIcsData: non-recurring events\<close>

definition day_event :: "zone \<Rightarrow> string \<Rightarrow> vevent \<Rightarrow> instant \<Rightarrow> occurrence" where
  "day_event timezone url item currentDay =
     \<lparr>title = item_summary item, description = None, location = None,
      start = currentDay, end' = endOf_day timezone currentDay,
      allDay = Some True, calendarUrl = url\<rparr>"

text \<open>
  The \<open>while\<close> loop over the days of an all-day event; \<open>allEvents\<close> is the list built so
  far. The loop ends when luxon's \<open>plus({days: 1})\<close> has moved past \<open>lastDay\<close>; \<open>None\<close>
  stands for a run that never gets there.
\<close>

partial_function (option) split_days ::
  "zone \<Rightarrow> instant \<Rightarrow> instant \<Rightarrow> string \<Rightarrow> vevent \<Rightarrow> instant \<Rightarrow> instant \<Rightarrow> occurrence list
     \<Rightarrow> occurrence list option" where
  "split_days timezone startRange endRange url item lastDay currentDay allEvents =
     (if currentDay \<le> lastDay
      then split_days timezone startRange endRange url item lastDay (plus_days timezone currentDay 1)
             (if currentDay \<ge> startRange \<and> currentDay \<le> endRange
              then allEvents @ [day_event timezone url item currentDay] else allEvents)
      else Some allEvents)"

definition timed_single :: "string \<Rightarrow> vevent \<Rightarrow> occurrence" where
  "timed_single url item =
     \<lparr>title = item_summary item, description = item_description item,
      location = item_location item, start = item_start item,
      end' = adjustEndForAllDayEvents item, allDay = Some False, calendarUrl = url\<rparr>"

definition non_recurring ::
  "zone \<Rightarrow> instant \<Rightarrow> instant \<Rightarrow> string \<Rightarrow> vevent \<Rightarrow> occurrence list option" where
  "non_recurring timezone startRange endRange url item =
     (if item_datetype item = DateOnly \<and> item_start item < adjustEndForAllDayEvents item
      then split_days timezone startRange endRange url item
             (startOf_day timezone (adjustEndForAllDayEvents item))
             (startOf_day timezone (item_start item)) []
      else if item_start item < endRange \<and> adjustEndForAllDayEvents item > startRange
      then Some [timed_single url item]
      else Some [])"

subsection \<open>parseIcsData\<close>

text \<open>
  What one entry adds to \<open>allEvents\<close>: \<open>Some (Inr evs)\<close> when the body of the loop
  completes, \<open>Some (Inl e)\<close> when a library call throws, \<open>None\<close> when it does not return.
\<close>

definition materialize ::
  "env \<Rightarrow> zone \<Rightarrow> instant \<Rightarrow> instant \<Rightarrow> string \<Rightarrow> vevent \<Rightarrow> (error + occurrence list) option" where
  "materialize E timezone startRange endRange url item =
     (if item_type item = ''VEVENT'' then
        (case item_rrule item of
           Some r \<Rightarrow>
             if item_datetype item \<noteq> DateOnly
             then Some (recurring_timed E timezone startRange endRange url item r)
             else Some (recurring_allday E timezone startRange endRange url item r)
         | None \<Rightarrow> map_option Inr (non_recurring timezone startRange endRange url item))
      else Some (Inr []))"

fun for_items ::
  "(vevent \<Rightarrow> (error + occurrence list) option) \<Rightarrow> vevent list \<Rightarrow> occurrence list
     \<Rightarrow> (error + occurrence list) option" where
  "for_items body [] allEvents = Some (Inr allEvents)"
| "for_items body (item # items) allEvents =
     (case body item of
        None \<Rightarrow> None
      | Some (Inl e) \<Rightarrow> Some (Inl e)
      | Some (Inr evs) \<Rightarrow> for_items body items (allEvents @ evs))"

definition parseIcsData ::
  "env \<Rightarrow> string \<Rightarrow> zone \<Rightarrow> instant \<Rightarrow> instant \<Rightarrow> string \<Rightarrow> (error + occurrence list) option" where
  "parseIcsData E icsData timezone startRange endRange url =
     (case parseICS E icsData of
        Inl e \<Rightarrow> Some (Inl e)
      | Inr parsedData \<Rightarrow> for_items (materialize E timezone startRange endRange url) parsedData [])"

subsection \<open>getCalendarEventsFromUrls\<close>

fun for_urls ::
  "env \<Rightarrow> zone \<Rightarrow> instant \<Rightarrow> instant \<Rightarrow> string list \<Rightarrow> occurrence list
     \<Rightarrow> (error + occurrence list) option" where
  "for_urls E timezone startRange endRange [] allEvents = Some (Inr allEvents)"
| "for_urls E timezone startRange endRange (url # urls) allEvents =
     (case getCachedData E url of
        Inl e \<Rightarrow> Some (Inl e)
      | Inr icsData \<Rightarrow>
          (case parseIcsData E icsData timezone startRange endRange url of
             None \<Rightarrow> None
           | Some (Inl e) \<Rightarrow> Some (Inl e)
           | Some (Inr eventsFromUrl) \<Rightarrow>
               for_urls E timezone startRange endRange urls (allEvents @ eventsFromUrl)))"

definition getCalendarEventsFromUrls ::
  "env \<Rightarrow> string list \<Rightarrow> zone \<Rightarrow> instant \<Rightarrow> instant \<Rightarrow> (error + occurrence list) option" where
  "getCalendarEventsFromUrls E urls timezone startDate endDate =
     for_urls E timezone startDate endDate urls []"

section \<open>server.js: POST /api/calendars/events\<close>

text \<open>
  The handler answers 400 without an array of URLs or without a time zone, computes the
  window from the clock (\<open>daysPast || 90\<close>, \<open>daysFuture || 180\<close>), and answers with
  the events, or with 500 when the service throws.
\<close>

datatype response = Json200 "occurrence list" | Json400 string | Json500

definition days_or :: "int option \<Rightarrow> int \<Rightarrow> int" where
  "days_or v d = (case truthy_num v of None \<Rightarrow> d | Some n \<Rightarrow> n)"

definition api_calendars_events ::
  "env \<Rightarrow> string list option \<Rightarrow> zone option \<Rightarrow> int option \<Rightarrow> int option \<Rightarrow> response option" where
  "api_calendars_events E calendarUrls timezone daysPast daysFuture =
     (case calendarUrls of
        None \<Rightarrow> Some (Json400 ''Invalid request body, expected array of URLs.'')
      | Some urls \<Rightarrow>
          (case timezone of
             None \<Rightarrow> Some (Json400 ''Invalid request body, expected timezone.'')
           | Some z \<Rightarrow>
               (let startDate = startOf_day z (plus_days z (now E) (- days_or daysPast 90));
                    endDate = endOf_day z (plus_days z (now E) (days_or daysFuture 180))
                in case getCalendarEventsFromUrls E urls z startDate endDate of
                     None \<Rightarrow> None
                   | Some (Inl e) \<Rightarrow> Some Json500
                   | Some (Inr events) \<Rightarrow> Some (Json200 events))))"

section \<open>A reference environment\<close>

text \<open>
  The scenarios are evaluated in a concrete environment: two IANA zones over the
  years they are used in, and a reference model of the rrule package for rules made of
  \<open>FREQ\<close>, \<open>INTERVAL\<close> (not negative), \<open>COUNT\<close>, \<open>UNTIL\<close>, \<open>BYDAY\<close> (plain
  weekday codes), \<open>BYMONTHDAY\<close> and \<open>BYMONTH\<close>. rrule computes in UTC: every
  occurrence has the UTC time of day of \<open>dtstart\<close>.
\<close>

definition utc_instant :: "int \<Rightarrow> int \<Rightarrow> int \<Rightarrow> int \<Rightarrow> int \<Rightarrow> int \<Rightarrow> instant" where
  "utc_instant y m d h mi sec =
     days_from_civil y m d * 86400000 + h * 3600000 + mi * 60000 + sec * 1000"

text \<open>
  America/New_York from 2024 to 2026: daylight time (UTC-4) from the second Sunday of
  March, 07:00 UTC, to the first Sunday of November, 06:00 UTC; standard time (UTC-5)
  otherwise.
\<close>

definition america_new_york :: zone where
  "america_new_york t =
     (if (1710054000000 \<le> t \<and> t < 1730613600000)
         \<or> (1741503600000 \<le> t \<and> t < 1762063200000)
         \<or> (1772953200000 \<le> t \<and> t < 1793512800000)
      then - 240 else - 300)"

text \<open>
  America/Santiago around September 2024: the clocks go from 24:00 on Saturday
  7 September (UTC-4) to 01:00 on Sunday 8 September (UTC-3), so that Sunday has no
  local midnight; summer time lasts until 6 April 2025, 03:00 UTC.
\<close>

definition america_santiago :: zone where
  "america_santiago t =
     (if 1725768000000 \<le> t \<and> t < 1743908400000 then - 180 else - 240)"

subsection \<open>Reading rule text\<close>

text \<open>A UTC stamp \<open>yyyyMMdd'T'HHmmss'Z'\<close>, or a date \<open>yyyyMMdd\<close>.\<close>

definition parse_utc_stamp :: "string \<Rightarrow> instant option" where
  "parse_utc_stamp s =
     (if length s \<ge> 8 \<and> list_all (\<lambda>c. digit_value c \<noteq> None) (take 8 s) then
        (let day = days_from_civil (decimal_value (take 4 s)) (decimal_value (take 2 (drop 4 s)))
                     (decimal_value (take 2 (drop 6 s)))
         in if length s \<ge> 15 \<and> s ! 8 = CHR ''T''
               \<and> list_all (\<lambda>c. digit_value c \<noteq> None) (take 6 (drop 9 s))
            then Some (day * 86400000 + decimal_value (take 2 (drop 9 s)) * 3600000
                       + decimal_value (take 2 (drop 11 s)) * 60000
                       + decimal_value (take 2 (drop 13 s)) * 1000)
            else if length s = 8 then Some (day * 86400000) else None)
      else None)"

definition fromISO_model :: "string \<Rightarrow> js_date" where
  "fromISO_model s = (case parse_utc_stamp s of None \<Rightarrow> InvalidDate | Some t \<Rightarrow> Date t)"

text \<open>rrule numbers the weekdays from Monday = 0.\<close>

definition weekday_index :: "string \<Rightarrow> int option" where
  "weekday_index code =
     map_of [(''MO'', 0), (''TU'', 1), (''WE'', 2), (''TH'', 3), (''FR'', 4), (''SA'', 5), (''SU'', 6)] code"

fun all_some :: "'a option list \<Rightarrow> 'a list option" where
  "all_some [] = Some []"
| "all_some (None # xs) = None"
| "all_some (Some x # xs) = map_option ((#) x) (all_some xs)"

definition parse_rule_part :: "rule_options \<Rightarrow> string \<Rightarrow> error + rule_options" where
  "parse_rule_part opts part =
     (let kv = split_on (CHR ''='') part;
          key = hd kv;
          val = (case tl kv of [] \<Rightarrow> [] | v # _ \<Rightarrow> v)
      in if key = ''FREQ'' then Inr (opts\<lparr>freq := freq_of_name val\<rparr>)
         else if key = ''INTERVAL'' then Inr (opts\<lparr>interval := parseInt val\<rparr>)
         else if key = ''COUNT'' then Inr (opts\<lparr>count := parseInt val\<rparr>)
         else if key = ''UNTIL'' then Inr (opts\<lparr>until := Some (fromISO_model val)\<rparr>)
         else if key = ''WKST'' then Inr opts
         else if key = ''BYDAY'' then
           (case all_some (map weekday_index (split_on (CHR '','') val)) of
              None \<Rightarrow> Inl (LibraryError ''Invalid weekday string'')
            | Some ws \<Rightarrow> Inr (opts\<lparr>byweekday := Some ws\<rparr>))
         else if key = ''BYMONTHDAY'' then
           (case all_some (map parseInt (split_on (CHR '','') val)) of
              None \<Rightarrow> Inl (LibraryError ''Invalid BYMONTHDAY'')
            | Some ds \<Rightarrow> Inr (opts\<lparr>bymonthday := Some ds\<rparr>))
         else if key = ''BYMONTH'' then
           (case all_some (map parseInt (split_on (CHR '','') val)) of
              None \<Rightarrow> Inl (LibraryError ''Invalid BYMONTH'')
            | Some ms \<Rightarrow> Inr (opts\<lparr>bymonth := Some ms\<rparr>))
         else Inl (LibraryError ''Unknown RRULE property''))"

fun parse_rule_parts :: "rule_options \<Rightarrow> string list \<Rightarrow> error + rule_options" where
  "parse_rule_parts opts [] = Inr opts"
| "parse_rule_parts opts (part # parts) =
     (case parse_rule_part opts part of
        Inl e \<Rightarrow> Inl e
      | Inr opts' \<Rightarrow> parse_rule_parts opts' parts)"

text \<open>
  \<open>new RRule(options)\<close> throws \<open>Invalid frequency\<close> when the \<open>freq\<close> it is given is
  not one of the seven frequencies (an options object with \<open>freq: undefined\<close>, or a
  \<open>FREQ=\<close> part with an unknown name), and \<open>Invalid options\<close> for an invalid date.
  Rule text without a \<open>FREQ\<close> part keeps rrule's default, \<open>YEARLY\<close>.
\<close>

definition new_RRule_model :: "rule_options \<Rightarrow> error + rrule" where
  "new_RRule_model opts =
     (case freq opts of
        None \<Rightarrow> Inl (LibraryError ''Invalid frequency'')
      | Some f \<Rightarrow>
          if f > SECONDLY then Inl (LibraryError ''Invalid frequency'')
          else if until opts = Some InvalidDate then Inl (LibraryError ''Invalid options: until'')
          else Inr \<lparr>options = opts, toString = []\<rparr>)"

definition empty_options :: "instant \<Rightarrow> rule_options" where
  "empty_options t =
     \<lparr>freq = None, dtstart = t, tzid = None, byweekday = None, bymonthday = None, bymonth = None,
      count = None, interval = None, until = None\<rparr>"

definition rrulestr_model :: "string \<Rightarrow> error + rrule" where
  "rrulestr_model s =
     (let lines = split_on (CHR 0x0A) s
      in case find (\<lambda>line. startsWith line ''DTSTART:'') lines of
           None \<Rightarrow> Inl (LibraryError ''Unsupported DTSTART'')
         | Some dtline \<Rightarrow>
             (case parse_utc_stamp (drop 8 dtline) of
                None \<Rightarrow> Inl (LibraryError ''Invalid DTSTART'')
              | Some t \<Rightarrow>
                  (case find (\<lambda>line. startsWith line ''RRULE:'') lines of
                     None \<Rightarrow> Inl (LibraryError ''Missing RRULE'')
                   | Some line \<Rightarrow>
                       (case parse_rule_parts ((empty_options t)\<lparr>freq := Some YEARLY\<rparr>)
                               (split_on (CHR '';'') (drop 6 line)) of
                          Inl e \<Rightarrow> Inl e
                        | Inr opts \<Rightarrow>
                            (case new_RRule_model opts of
                               Inl e \<Rightarrow> Inl e
                             | Inr r \<Rightarrow> Inr (r\<lparr>toString := s\<rparr>))))))"

subsection \<open>How the decoder reads a rule\<close>

text \<open>
  node-ical builds the rule of an entry itself, when it closes the entry: it removes
  \<open>RRULE:\<close> from the line, cuts the text at the last \<open>FREQ=\<close>
  (\<open>rule.slice(rule.lastIndexOf('FREQ='))\<close>; without a \<open>FREQ=\<close> the index is -1 and
  the slice is the last character of the text), appends the start of the entry as
  \<open>DTSTART\<close> and hands the text to rrule, whose error it does not catch. A rule that
  names no frequency, or an unknown one, therefore never becomes an entry: the decoder
  throws. The text the rule prints is modelled by a UTC \<open>DTSTART\<close> line and the
  \<open>RRULE:\<close> line it was built from.
\<close>

definition lastIndexOf :: "string \<Rightarrow> string \<Rightarrow> nat option" where
  "lastIndexOf p s =
     (case filter (\<lambda>i. startsWith (drop i s) p) (rev [0..<Suc (length s)]) of
        [] \<Rightarrow> None
      | i # _ \<Rightarrow> Some i)"

definition slice_from_last :: "string \<Rightarrow> string \<Rightarrow> string" where
  "slice_from_last p s =
     (case lastIndexOf p s of None \<Rightarrow> drop (length s - 1) s | Some i \<Rightarrow> drop i s)"

definition nodeical_rrule :: "string \<Rightarrow> instant \<Rightarrow> error + rrule" where
  "nodeical_rrule line t =
     (let rule = slice_from_last ''FREQ='' (remove_first ''RRULE:'' line)
      in case parse_rule_parts ((empty_options t)\<lparr>freq := Some YEARLY\<rparr>) (split_on (CHR '';'') rule) of
           Inl e \<Rightarrow> Inl e
         | Inr opts \<Rightarrow>
             (case new_RRule_model opts of
                Inl e \<Rightarrow> Inl e
              | Inr r \<Rightarrow> Inr (r\<lparr>toString := dtStartString t @ [CHR 0x0A] @ ''RRULE:'' @ rule\<rparr>)))"

subsection \<open>Enumerating a rule\<close>

definition unit_ms :: "nat \<Rightarrow> int" where
  "unit_ms f =
     (if f \<le> DAILY then 86400000 else if f = HOURLY then 3600000
      else if f = MINUTELY then 60000 else 1000)"

definition rule_freq :: "rule_options \<Rightarrow> nat" where
  "rule_freq opts = (case freq opts of None \<Rightarrow> YEARLY | Some f \<Rightarrow> f)"

text \<open>The interval is 1 when none is given; with the interval 0 rrule generates nothing.\<close>

definition rule_interval :: "rule_options \<Rightarrow> int" where
  "rule_interval opts = (case interval opts of None \<Rightarrow> 1 | Some i \<Rightarrow> i)"

text \<open>rrule keeps \<open>dtstart\<close> as it is given, milliseconds included.\<close>

definition rule_start :: "rule_options \<Rightarrow> instant" where
  "rule_start opts = dtstart opts"

definition step_instant :: "rule_options \<Rightarrow> int \<Rightarrow> instant" where
  "step_instant opts k = rule_start opts + k * unit_ms (rule_freq opts)"

definition in_filter :: "int list option \<Rightarrow> int \<Rightarrow> bool" where
  "in_filter f v = (case f of None \<Rightarrow> True | Some xs \<Rightarrow> xs = [] \<or> v \<in> set xs)"

text \<open>
  \<open>BYMONTHDAY\<close>: rrule splits the list into the positive days and the negative ones,
  which count from the end of the month (\<open>-1\<close> is its last day), and drops 0.
\<close>

definition days_in_month :: "int \<Rightarrow> int \<Rightarrow> int" where
  "days_in_month y m =
     days_from_civil (if m = 12 then y + 1 else y) (if m = 12 then 1 else m + 1) 1
       - days_from_civil y m 1"

definition monthday_filter :: "int list option \<Rightarrow> int \<times> int \<times> int \<Rightarrow> bool" where
  "monthday_filter f c =
     (case f of
        None \<Rightarrow> True
      | Some xs \<Rightarrow>
          (let pos = filter (\<lambda>v. v > 0) xs; neg = filter (\<lambda>v. v < 0) xs
           in (pos = [] \<and> neg = []) \<or> day_of c \<in> set pos
              \<or> day_of c - days_in_month (year_of c) (month_of c) - 1 \<in> set neg))"

text \<open>
  Whether the instant \<open>k\<close> steps after \<open>dtstart\<close> belongs to the rule. The defaults are
  rrule's: without \<open>bymonthday\<close> and \<open>byweekday\<close>, a yearly rule takes the month (if
  none is given) and the day of \<open>dtstart\<close>, a monthly rule its day and a weekly rule its
  weekday. Weeks start on Monday.
\<close>

definition occurs_at :: "rule_options \<Rightarrow> int \<Rightarrow> bool" where
  "occurs_at opts k =
     (let f = rule_freq opts;
          i = rule_interval opts;
          n0 = rule_start opts div 86400000;
          n = step_instant opts k div 86400000;
          c0 = civil_from_days n0;
          c = civil_from_days n;
          wd0 = (n0 + 3) mod 7;
          wd = (n + 3) mod 7;
          bare = (bymonthday opts = None \<and> byweekday opts = None);
          months = (if bare \<and> f = YEARLY \<and> bymonth opts = None then Some [month_of c0] else bymonth opts);
          mdays = (if bare \<and> (f = YEARLY \<or> f = MONTHLY) then Some [day_of c0] else bymonthday opts);
          wdays = (if bare \<and> f = WEEKLY then Some [wd0] else byweekday opts);
          period =
            (if f = YEARLY then (year_of c - year_of c0) mod i = 0
             else if f = MONTHLY
               then ((year_of c * 12 + month_of c) - (year_of c0 * 12 + month_of c0)) mod i = 0
             else if f = WEEKLY then (((n - wd) - (n0 - wd0)) div 7) mod i = 0
             else k mod i = 0)
      in i \<noteq> 0 \<and> period \<and> in_filter months (month_of c) \<and> monthday_filter mdays c
         \<and> in_filter wdays wd)"

definition past_until :: "rule_options \<Rightarrow> instant \<Rightarrow> bool" where
  "past_until opts t = (case until opts of Some (Date u) \<Rightarrow> t > u | _ \<Rightarrow> False)"

definition count_reached :: "rule_options \<Rightarrow> int \<Rightarrow> bool" where
  "count_reached opts n = (case count opts of None \<Rightarrow> False | Some c \<Rightarrow> n \<ge> c)"

text \<open>The occurrences up to a bound, in order; \<open>n\<close> counts those already produced.\<close>

fun rr_scan :: "rule_options \<Rightarrow> nat \<Rightarrow> int \<Rightarrow> int \<Rightarrow> instant \<Rightarrow> instant list" where
  "rr_scan opts 0 k n bound = []"
| "rr_scan opts (Suc fuel) k n bound =
     (if step_instant opts k > bound \<or> past_until opts (step_instant opts k) \<or> count_reached opts n
      then []
      else if occurs_at opts k then step_instant opts k # rr_scan opts fuel (k + 1) (n + 1) bound
      else rr_scan opts fuel (k + 1) n bound)"

text \<open>\<open>between(a, b)\<close>: the occurrences strictly between the two instants.\<close>

definition between_model :: "rrule \<Rightarrow> instant \<Rightarrow> instant \<Rightarrow> instant list" where
  "between_model r a b =
     filter (\<lambda>t. a < t \<and> t < b)
       (rr_scan (options r)
          (nat ((b - rule_start (options r)) div unit_ms (rule_freq (options r)) + 1)) 0 0 b)"

text \<open>
  \<open>after(dt, true)\<close>: the first occurrence at or after \<open>dt\<close>. The search gives up
  (\<open>null\<close>) after the rule has ended or 4000 steps past \<open>dt\<close>.
\<close>

fun rr_first :: "rule_options \<Rightarrow> nat \<Rightarrow> int \<Rightarrow> int \<Rightarrow> instant \<Rightarrow> instant option" where
  "rr_first opts 0 k n target = None"
| "rr_first opts (Suc fuel) k n target =
     (if past_until opts (step_instant opts k) \<or> count_reached opts n then None
      else if occurs_at opts k
      then (if step_instant opts k \<ge> target then Some (step_instant opts k)
            else rr_first opts fuel (k + 1) (n + 1) target)
      else rr_first opts fuel (k + 1) n target)"

definition after_model :: "rrule \<Rightarrow> instant \<Rightarrow> instant option" where
  "after_model r t =
     rr_first (options r)
       (nat ((t - rule_start (options r)) div unit_ms (rule_freq (options r))) + 4000) 0 0 t"

definition reference_env ::
  "(string \<Rightarrow> error + vevent list) \<Rightarrow> (string \<Rightarrow> error + string) \<Rightarrow> instant \<Rightarrow> zone \<Rightarrow> env" where
  "reference_env decode get clock zone_of_process =
     \<lparr>parseICS = decode, rrulestr = rrulestr_model, new_RRule = new_RRule_model,
      rr_after = after_model, rr_between = between_model, fromISO = fromISO_model,
      now = clock, systemZone = zone_of_process, cache = (\<lambda>url. None), axios_get = get\<rparr>"

section \<open>Scenario inputs\<close>

text \<open>
  Entries as node-ical delivers them, with instants written as epoch milliseconds.
  The environment is the reference one: the clock reads 2024-10-01 12:00 UTC and the
  process runs in America/New_York.
\<close>

definition lib_env :: env where
  "lib_env = reference_env (\<lambda>s. Inr []) (\<lambda>url. Inl (FetchError url)) 1727784000000 america_new_york"

definition entry :: "string \<Rightarrow> instant \<Rightarrow> instant \<Rightarrow> datetype \<Rightarrow> rrule option \<Rightarrow> vevent" where
  "entry summary t_start t_end dt rr =
     \<lparr>item_type = ''VEVENT'', item_summary = Some summary, item_description = None,
      item_location = None, item_start = t_start, item_end = t_end, item_datetype = dt,
      item_rrule = rr, item_exdate = [], item_recurrences = []\<rparr>"

text \<open>
  \<open>DTSTART;TZID=America/New_York:20241029T203000\<close>, one hour long,
  \<open>RRULE:FREQ=WEEKLY;BYDAY=TU\<close>: the start is 2024-10-30 00:30 UTC.
\<close>

definition dst_event :: vevent where
  "dst_event =
     entry ''Recurring DST Event'' 1730248200000 1730251800000 DateAndTime
       (Some \<lparr>options = (empty_options 1730248200000)\<lparr>freq := Some WEEKLY, byweekday := Some [1]\<rparr>,
              toString = ''DTSTART;TZID=America/New_York:20241029T203000'' @ [CHR 0x0A]
                         @ ''RRULE:FREQ=WEEKLY;BYDAY=TU''\<rparr>)"

text \<open>
  \<open>DTSTART;TZID=America/New_York:20250308T023000\<close>, one hour long,
  \<open>RRULE:FREQ=DAILY;COUNT=3\<close>: the start is 2025-03-08 07:30 UTC, and 02:30 does not
  exist in New York on 9 March 2025.
\<close>

definition spring_event :: vevent where
  "spring_event =
     entry ''Spring DST Event'' 1741419000000 1741422600000 DateAndTime
       (Some \<lparr>options = (empty_options 1741419000000)\<lparr>freq := Some DAILY, count := Some 3\<rparr>,
              toString = ''DTSTART;TZID=America/New_York:20250308T023000'' @ [CHR 0x0A]
                         @ ''RRULE:FREQ=DAILY;COUNT=3''\<rparr>)"

text \<open>
  \<open>DTSTART;TZID=America/New_York:20241110T100000\<close>, one hour long,
  \<open>RRULE:FREQ=DAILY;COUNT=3\<close> (start 2024-11-10 15:00 UTC), with the instance of
  11 November moved to 12:30 the same day and renamed.
\<close>

definition daily_rule :: rrule where
  "daily_rule =
     \<lparr>options = (empty_options 1731250800000)\<lparr>freq := Some DAILY, count := Some 3\<rparr>,
      toString = ''DTSTART;TZID=America/New_York:20241110T100000'' @ [CHR 0x0A]
                 @ ''RRULE:FREQ=DAILY;COUNT=3''\<rparr>"

definition modified_event :: vevent where
  "modified_event =
     (entry ''Original Event'' 1731250800000 1731254400000 DateAndTime (Some daily_rule))
       \<lparr>item_description := Some ''Bring the agenda'', item_location := Some ''Room 1'',
        item_recurrences :=
          [\<lparr>recurrenceid = 1731337200000, rec_start = 1731346200000, rec_end = 1731348000000,
            rec_summary = Some ''Modified Event'', rec_description = None,
            rec_location = Some ''Room 2''\<rparr>]\<rparr>"

text \<open>The same series with the instance of 11 November moved to 12 November, 12:30.\<close>

definition moved_event :: vevent where
  "moved_event =
     (entry ''Original Event'' 1731250800000 1731254400000 DateAndTime (Some daily_rule))
       \<lparr>item_recurrences :=
          [\<lparr>recurrenceid = 1731337200000, rec_start = 1731432600000, rec_end = 1731434400000,
            rec_summary = Some ''Moved Event'', rec_description = None, rec_location = None\<rparr>]\<rparr>"

text \<open>
  The moved series again, with \<open>EXDATE;TZID=America/New_York:20241112T100000\<close>: the
  instance of 12 November is cancelled and the instance of 11 November takes its day.
\<close>

definition cancelled_and_moved_event :: vevent where
  "cancelled_and_moved_event = moved_event\<lparr>item_exdate := [1731423600000]\<rparr>"

text \<open>
  \<open>DTSTART;TZID=America/New_York:20241028T100000\<close>, one hour long,
  \<open>RRULE:FREQ=DAILY;COUNT=10\<close> (start 2024-10-28 14:00 UTC, in daylight time), with
  the instance of 4 November, \<open>RECURRENCE-ID;TZID=America/New_York:20241104T100000\<close>
  (15:00 UTC, in standard time), moved to 12:30 the same day.
\<close>

definition standup_event :: vevent where
  "standup_event =
     (entry ''Standup'' 1730124000000 1730127600000 DateAndTime
        (Some \<lparr>options = (empty_options 1730124000000)\<lparr>freq := Some DAILY, count := Some 10\<rparr>,
               toString = ''DTSTART;TZID=America/New_York:20241028T100000'' @ [CHR 0x0A]
                          @ ''RRULE:FREQ=DAILY;COUNT=10''\<rparr>))
       \<lparr>item_recurrences :=
          [\<lparr>recurrenceid = 1730732400000, rec_start = 1730741400000, rec_end = 1730743200000,
            rec_summary = Some ''Late Standup'', rec_description = None, rec_location = None\<rparr>]\<rparr>"

text \<open>
  \<open>DTSTART;TZID=America/New_York:20241101T090000\<close>, one hour long,
  \<open>RRULE:FREQ=DAILY;COUNT=3\<close>, \<open>EXDATE;TZID=America/New_York:20241102T090000\<close>.
\<close>

definition exdate_event :: vevent where
  "exdate_event =
     (entry ''Event with Exception'' 1730466000000 1730469600000 DateAndTime
        (Some \<lparr>options = (empty_options 1730466000000)\<lparr>freq := Some DAILY, count := Some 3\<rparr>,
               toString = ''DTSTART;TZID=America/New_York:20241101T090000'' @ [CHR 0x0A]
                          @ ''RRULE:FREQ=DAILY;COUNT=3''\<rparr>))
       \<lparr>item_exdate := [1730552400000]\<rparr>"

text \<open>
  \<open>DTSTART;VALUE=DATE:20241208\<close>, \<open>DTEND;VALUE=DATE:20241209\<close>,
  \<open>RRULE:FREQ=YEARLY;BYMONTHDAY=8\<close>: an all-day entry, whose instants are the local
  midnights of the process (05:00 UTC).
\<close>

definition annual_event :: vevent where
  "annual_event =
     entry ''Faulty Annual Event'' 1733634000000 1733720400000 DateOnly
       (Some \<lparr>options = (empty_options 1733634000000)\<lparr>freq := Some YEARLY, bymonthday := Some [8]\<rparr>,
              toString = ''DTSTART;VALUE=DATE:20241208'' @ [CHR 0x0A]
                         @ ''RRULE:FREQ=YEARLY;BYMONTHDAY=8''\<rparr>)"

text \<open>
  The same rule on a timed entry: \<open>DTSTART;TZID=America/New_York:20241208T100000\<close>,
  one hour long (start 2024-12-08 15:00 UTC).
\<close>

definition annual_timed_event :: vevent where
  "annual_timed_event =
     entry ''Annual Call'' 1733670000000 1733673600000 DateAndTime
       (Some \<lparr>options = (empty_options 1733670000000)\<lparr>freq := Some YEARLY, bymonthday := Some [8]\<rparr>,
              toString = ''DTSTART;TZID=America/New_York:20241208T100000'' @ [CHR 0x0A]
                         @ ''RRULE:FREQ=YEARLY;BYMONTHDAY=8''\<rparr>)"

text \<open>
  An all-day entry whose rule object carries no frequency and whose text has none to
  recover: \<open>RRULE:COUNT=3\<close>. node-ical does not deliver such an entry (it throws
  on the rule); the entry stands for what the all-day branch would do with one.
\<close>

definition nofreq_event :: vevent where
  "nofreq_event =
     entry ''No Frequency'' 1733634000000 1733720400000 DateOnly
       (Some \<lparr>options = empty_options 1733634000000, toString = ''RRULE:COUNT=3''\<rparr>)"

text \<open>
  \<open>DTSTART;VALUE=DATE:20241104\<close>, \<open>DTEND;VALUE=DATE:20241107\<close> read in New York
  (05:00 UTC), and \<open>DTSTART;VALUE=DATE:20240907\<close>, \<open>DTEND;VALUE=DATE:20240910\<close> read in
  Santiago (04:00 UTC on 7 September, 03:00 UTC on 10 September).
\<close>

definition vacation :: vevent where
  "vacation = entry ''Vacation'' 1730696400000 1730955600000 DateOnly None"

definition fiestas :: vevent where
  "fiestas = entry ''Fiestas'' 1725681600000 1725937200000 DateOnly None"

text \<open>
  Two timed entries of one hour, on 26 and on 20 October 2024 at 10:00 in New York, and
  an entry with \<open>DTSTART\<close> equal to \<open>DTEND\<close>.
\<close>

definition single_event :: vevent where
  "single_event =
     (entry ''Single Event'' 1729951200000 1729954800000 DateAndTime None)
       \<lparr>item_description := Some ''Bring the agenda'', item_location := Some ''Room 1''\<rparr>"

definition earlier_event :: vevent where
  "earlier_event = entry ''Earlier Event'' 1729432800000 1729436400000 DateAndTime None"


text \<open>
  Two feeds: the first lists the later entry before the earlier one, the second holds
  one entry; any other URL cannot be fetched.
\<close>

definition demo_decode :: "string \<Rightarrow> error + vevent list" where
  "demo_decode icsData =
     (if icsData = ''feed A'' then Inr [single_event, earlier_event]
      else if icsData = ''feed B'' then Inr [single_event]
      else Inr [])"

definition demo_get :: "string \<Rightarrow> error + string" where
  "demo_get url =
     (if url = ''http://feeds/a.ics'' then Inr ''feed A''
      else if url = ''http://feeds/b.ics'' then Inr ''feed B''
      else Inl (FetchError url))"

definition feed_env :: env where
  "feed_env = reference_env demo_decode demo_get 1727784000000 america_new_york"

text \<open>The rules the service rebuilds for these entries, and the events it returns.\<close>

definition daily_utc_rule :: rrule where
  "daily_utc_rule =
     \<lparr>options = (empty_options 1731250800000)\<lparr>freq := Some DAILY, count := Some 3\<rparr>,
      toString = ''DTSTART:20241110T150000Z'' @ [CHR 0x0A] @ ''RRULE:FREQ=DAILY;COUNT=3''\<rparr>"

definition timed_occurrence :: "string \<Rightarrow> instant \<Rightarrow> instant \<Rightarrow> occurrence" where
  "timed_occurrence summary t_start t_end =
     \<lparr>title = Some summary, description = None, location = None, start = t_start,
      end' = t_end, allDay = Some False, calendarUrl = ''u''\<rparr>"

definition modified_event_events :: "occurrence list" where
  "modified_event_events =
     [\<lparr>title = Some ''Modified Event'', description = Some ''Bring the agenda'',
       location = Some ''Room 2'', start = 1731346200000, end' = 1731348000000,
       allDay = None, calendarUrl = ''u''\<rparr>,
      timed_occurrence ''Original Event'' 1731250800000 1731254400000,
      timed_occurrence ''Original Event'' 1731423600000 1731427200000]"

definition single_event_event :: "string \<Rightarrow> occurrence" where
  "single_event_event url =
     \<lparr>title = Some ''Single Event'', description = Some ''Bring the agenda'',
      location = Some ''Room 1'', start = 1729951200000, end' = 1729954800000,
      allDay = Some False, calendarUrl = url\<rparr>"

definition earlier_event_event :: "string \<Rightarrow> occurrence" where
  "earlier_event_event url =
     \<lparr>title = Some ''Earlier Event'', description = None, location = None,
      start = 1729432800000, end' = 1729436400000, allDay = Some False, calendarUrl = url\<rparr>"

definition dst_utc_rule :: rrule where
  "dst_utc_rule =
     \<lparr>options = (empty_options 1730248200000)\<lparr>freq := Some WEEKLY, byweekday := Some [2]\<rparr>,
      toString = ''DTSTART:20241030T003000Z'' @ [CHR 0x0A] @ ''RRULE:FREQ=WEEKLY;BYDAY=WE''\<rparr>"

definition dst_event_events :: "occurrence list" where
  "dst_event_events =
     [timed_occurrence ''Recurring DST Event'' 1730248200000 1730251800000,
      timed_occurrence ''Recurring DST Event'' 1730856600000 1730860200000]"

definition spring_utc_rule :: rrule where
  "spring_utc_rule =
     \<lparr>options = (empty_options 1741419000000)\<lparr>freq := Some DAILY, count := Some 3\<rparr>,
      toString = ''DTSTART:20250308T073000Z'' @ [CHR 0x0A] @ ''RRULE:FREQ=DAILY;COUNT=3''\<rparr>"

definition spring_event_events :: "occurrence list" where
  "spring_event_events =
     [timed_occurrence ''Spring DST Event'' 1741419000000 1741422600000,
      timed_occurrence ''Spring DST Event'' 1741505400000 1741509000000,
      timed_occurrence ''Spring DST Event'' 1741588200000 1741591800000]"

definition exdate_utc_rule :: rrule where
  "exdate_utc_rule =
     \<lparr>options = (empty_options 1730466000000)\<lparr>freq := Some DAILY, count := Some 3\<rparr>,
      toString = ''DTSTART:20241101T130000Z'' @ [CHR 0x0A] @ ''RRULE:FREQ=DAILY;COUNT=3''\<rparr>"

definition exdate_event_events :: "occurrence list" where
  "exdate_event_events =
     [timed_occurrence ''Event with Exception'' 1730466000000 1730469600000,
      timed_occurrence ''Event with Exception'' 1730642400000 1730646000000]"

definition moved_event_events :: "occurrence list" where
  "moved_event_events =
     [\<lparr>title = Some ''Moved Event'', description = None, location = None,
       start = 1731432600000, end' = 1731434400000, allDay = None, calendarUrl = ''u''\<rparr>,
      timed_occurrence ''Original Event'' 1731250800000 1731254400000,
      timed_occurrence ''Original Event'' 1731423600000 1731427200000]"

definition cancelled_and_moved_event_events :: "occurrence list" where
  "cancelled_and_moved_event_events =
     [\<lparr>title = Some ''Moved Event'', description = None, location = None,
       start = 1731432600000, end' = 1731434400000, allDay = None, calendarUrl = ''u''\<rparr>,
      timed_occurrence ''Original Event'' 1731250800000 1731254400000]"

definition annual_options :: rule_options where
  "annual_options =
     (empty_options 1733634000000)
       \<lparr>freq := Some YEARLY, bymonthday := Some [8], bymonth := Some [12]\<rparr>"

definition allday_occurrence :: "string \<Rightarrow> instant \<Rightarrow> instant \<Rightarrow> occurrence" where
  "allday_occurrence summary t_start t_end =
     \<lparr>title = Some summary, description = None, location = None, start = t_start,
      end' = t_end, allDay = Some True, calendarUrl = ''u''\<rparr>"

definition annual_event_events :: "occurrence list" where
  "annual_event_events = [allday_occurrence ''Faulty Annual Event'' 1733634000000 1733720400000]"

definition annual_timed_utc_rule :: rrule where
  "annual_timed_utc_rule =
     \<lparr>options = (empty_options 1733670000000)\<lparr>freq := Some YEARLY, bymonthday := Some [8]\<rparr>,
      toString = ''DTSTART:20241208T150000Z'' @ [CHR 0x0A] @ ''RRULE:FREQ=YEARLY;BYMONTHDAY=8''\<rparr>"

definition annual_timed_event_events :: "occurrence list" where
  "annual_timed_event_events =
     [timed_occurrence ''Annual Call'' 1733670000000 1733673600000,
      timed_occurrence ''Annual Call'' 1736348400000 1736352000000]"

text \<open>
  A timed entry whose rule text names no known frequency, and an environment whose rule
  constructor accepts any options, as a library tolerating a missing frequency would.
\<close>

definition badfreq_event :: vevent where
  "badfreq_event =
     entry ''Bad Frequency'' 1733670000000 1733673600000 DateAndTime
       (Some \<lparr>options = empty_options 1733670000000,
              toString = ''RRULE:FREQ=FORTNIGHTLY;COUNT=3''\<rparr>)"

definition lenient_env :: env where
  "lenient_env = lib_env\<lparr>new_RRule := (\<lambda>opts. Inr \<lparr>options = opts, toString = []\<rparr>)\<rparr>"

text \<open>
  A feed of two entries, the timed entry of 26 October and an all-day entry on
  2024-12-08 (\<open>DTSTART;VALUE=DATE:20241208\<close>, \<open>DTEND;VALUE=DATE:20241209\<close>) with a
  rule. The feed text is reduced to the \<open>RRULE\<close> line of the second entry, which the
  decoder reads as node-ical does.
\<close>

definition rule_feed_decode :: "string \<Rightarrow> error + vevent list" where
  "rule_feed_decode icsData =
     (case nodeical_rrule icsData 1733634000000 of
        Inl e \<Rightarrow> Inl e
      | Inr r \<Rightarrow>
          Inr [single_event, entry ''Anniversary'' 1733634000000 1733720400000 DateOnly (Some r)])"

definition rule_feed_env :: env where
  "rule_feed_env =
     reference_env rule_feed_decode (\<lambda>url. Inr url) 1727784000000 america_new_york"

definition nofreq_options :: rule_options where
  "nofreq_options = (empty_options 1733634000000)\<lparr>count := Some 3\<rparr>"

definition nofreq_event_events :: "occurrence list" where
  "nofreq_event_events = [allday_occurrence ''No Frequency'' 1733634000000 1733720400000]"

definition standup_event_events :: "occurrence list" where
  "standup_event_events =
     [\<lparr>title = Some ''Late Standup'', description = None, location = None,
       start = 1730741400000, end' = 1730743200000, allDay = None, calendarUrl = ''u''\<rparr>,
      timed_occurrence ''Standup'' 1730732400000 1730736000000]"

definition vacation_events :: "occurrence list" where
  "vacation_events =
     [allday_occurrence ''Vacation'' 1730696400000 1730782799999,
      allday_occurrence ''Vacation'' 1730782800000 1730869199999,
      allday_occurrence ''Vacation'' 1730869200000 1730955599999]"

definition fiestas_events :: "occurrence list" where
  "fiestas_events =
     [allday_occurrence ''Fiestas'' 1725681600000 1725767999999,
      allday_occurrence ''Fiestas'' 1725768000000 1725850799999]"


section \<open>What the aggregation returns for one feed\<close>

text \<open>
  \<open>feed_events E z sr er url part\<close>: the feed is fetched and decoded, every entry is
  materialized, and \<open>part\<close> lists the events of the entries in the order of the entries.
\<close>

definition feed_events :: "env \<Rightarrow> zone \<Rightarrow> instant \<Rightarrow> instant \<Rightarrow> string \<Rightarrow> occurrence list \<Rightarrow> bool" where
  "feed_events E z sr er url part \<longleftrightarrow>
     (\<exists>icsData parsedData parts.
        getCachedData E url = Inr icsData \<and> parseICS E icsData = Inr parsedData
        \<and> list_all2 (\<lambda>item p. materialize E z sr er url item = Some (Inr p)) parsedData parts
        \<and> part = concat parts)"

section \<open>Wall-clock times that a zone skips\<close>

text \<open>
  \<open>hole_time z o1 localTS\<close> is the third case of \<open>fixOffset\<close>: starting from the offset
  \<open>o1\<close>, luxon finds no instant of the zone that shows the wall-clock time \<open>localTS\<close>,
  as happens inside the hour skipped when daylight time begins. \<open>wall_time\<close> is the
  wall-clock time the service asks for: the local date of a generated instant with the
  hour, minute and second of the entry's start.
\<close>

definition hole_time :: "zone \<Rightarrow> int \<Rightarrow> int \<Rightarrow> bool" where
  "hole_time z o1 localTS \<longleftrightarrow>
     (let o2 = z (localTS - o1 * 60000); o3 = z (localTS - o2 * 60000) in o1 \<noteq> o2 \<and> o2 \<noteq> o3)"

text \<open>
  The two offsets luxon finds around a hole time: the offset at its first guess and the
  offset at its corrected guess. luxon resolves the hole with the smaller one.
\<close>

definition hole_offsets :: "zone \<Rightarrow> int \<Rightarrow> int \<Rightarrow> int \<times> int" where
  "hole_offsets z o1 localTS =
     (let o2 = z (localTS - o1 * 60000); o3 = z (localTS - o2 * 60000) in (o2, o3))"

definition wall_time :: "zone \<Rightarrow> vevent \<Rightarrow> instant \<Rightarrow> int" where
  "wall_time z item date =
     local_day z date * 86400000 + dt_hour z (item_start item) * 3600000
       + dt_minute z (item_start item) * 60000 + dt_second z (item_start item) * 1000
       + dt_millisecond z date"

section \<open>Local midnights\<close>

text \<open>
  \<open>midnight z n\<close> is the instant luxon gives for 00:00 on the day with number \<open>n\<close>.
  The midnight is clean when it exists in the zone and luxon resolves it to one and
  the same instant from every offset the zone takes: no DST transition skips or repeats
  it. A zone is steady when its offsets differ by less than a day.
\<close>

definition midnight :: "zone \<Rightarrow> int \<Rightarrow> instant" where
  "midnight z n = fst (fixOffset (n * 86400000) (z 0) z)"

definition clean_midnight :: "zone \<Rightarrow> int \<Rightarrow> bool" where
  "clean_midnight z n \<longleftrightarrow>
     (\<exists>t. local_ms z t = n * 86400000 \<and> (\<forall>u. fst (fixOffset (n * 86400000) (z u) z) = t))"

definition steady :: "zone \<Rightarrow> bool" where
  "steady z \<longleftrightarrow> (\<forall>t u. z t - z u < 1440)"


declare split_days.simps [code]

section \<open>Facts about the library calls and the loop bodies\<close>

lemma fixOffset_same: "fixOffset (local_ms z t) (z t) z = (t, z t)"
  by (simp add: fixOffset_def local_ms_def Let_def)

lemma plus_millis_eq: "plus_millis z t n = t + n"
  by (simp add: plus_millis_def fixOffset_same)

lemma materialize_timed_cases:
  assumes "item_type item = ''VEVENT''" "item_rrule item = Some r" "item_datetype item \<noteq> DateOnly"
    and "materialize E z sr er url item = Some (Inr occs)"
  obtains R dates where "utc_rule E item r = Inr R"
    and "occs = recurrence_events sr er url item @ map (timed_event z url item) dates"
    and "set dates \<subseteq> set (rr_between E R sr er)"
    and "\<forall>d\<in>set dates. timed_keep z item d"
proof -
  from assms have rt: "recurring_timed E z sr er url item r = Inr occs"
    by (simp add: materialize_def)
  then obtain R where R: "utc_rule E item r = Inr R"
    by (auto simp: recurring_timed_def split: sum.splits)
  show thesis
  proof (cases "rr_after E R sr")
    case None
    with rt R have "occs = recurrence_events sr er url item @ map (timed_event z url item) []"
      by (simp add: recurring_timed_def)
    with R show thesis by (intro that[of R "[]"]) auto
  next
    case (Some n)
    show thesis
    proof (cases "n > er")
      case True
      with rt R Some have "occs = recurrence_events sr er url item @ map (timed_event z url item) []"
        by (simp add: recurring_timed_def)
      with R show thesis by (intro that[of R "[]"]) auto
    next
      case False
      with rt R Some have "occs = recurrence_events sr er url item
          @ map (timed_event z url item) (filter (timed_keep z item) (rr_between E R sr er))"
        by (simp add: recurring_timed_def)
      with R show thesis by (intro that[of R "filter (timed_keep z item) (rr_between E R sr er)"]) auto
    qed
  qed
qed

lemma materialize_allday_cases:
  assumes "item_type item = ''VEVENT''" "item_rrule item = Some r" "item_datetype item = DateOnly"
    and "materialize E z sr er url item = Some (Inr occs)"
  obtains R dates where "new_RRule E (ruleOptions E item (parsedRule_of E r)) = Inr R"
    and "occs = map (allday_event E z url item) dates"
    and "set dates \<subseteq> set (rr_between E R (sr - 86400000) (er + 86400000))"
    and "\<forall>d\<in>set dates. allday_keep E z sr er item d"
proof -
  from assms have rt: "recurring_allday E z sr er url item r = Inr occs"
    by (simp add: materialize_def)
  then obtain R where R: "new_RRule E (ruleOptions E item (parsedRule_of E r)) = Inr R"
    by (auto simp: recurring_allday_def split: sum.splits)
  show thesis
  proof (cases "rr_after E R sr")
    case None
    with rt R have "occs = map (allday_event E z url item) []"
      by (simp add: recurring_allday_def)
    with R show thesis by (intro that[of R "[]"]) auto
  next
    case (Some n)
    show thesis
    proof (cases "n > er")
      case True
      with rt R Some have "occs = map (allday_event E z url item) []"
        by (simp add: recurring_allday_def)
      with R show thesis by (intro that[of R "[]"]) auto
    next
      case False
      with rt R Some have "occs = map (allday_event E z url item)
          (filter (allday_keep E z sr er item) (rr_between E R (sr - 86400000) (er + 86400000)))"
        by (simp add: recurring_allday_def)
      with R show thesis
        by (intro that[of R "filter (allday_keep E z sr er item) (rr_between E R (sr - 86400000) (er + 86400000))"]) auto
    qed
  qed
qed

lemma materialize_timed_eval:
  assumes "item_type item = ''VEVENT''" "item_rrule item = Some r" "item_datetype item = DateAndTime"
    and "utc_rule E item r = Inr R" "rr_after E R sr = Some n" "n \<le> er"
    and "rr_between E R sr er = ds"
    and "recurrence_events sr er url item = ovs"
    and "filter (timed_keep z item) ds = kept"
    and "map (timed_event z url item) kept = evs"
  shows "materialize E z sr er url item = Some (Inr (ovs @ evs))"
  using assms by (simp add: materialize_def recurring_timed_def)


lemma for_items_parts:
  "for_items body items acc = Some (Inr evs) \<Longrightarrow>
     \<exists>parts. list_all2 (\<lambda>item part. body item = Some (Inr part)) items parts \<and> evs = acc @ concat parts"
proof (induction items arbitrary: acc)
  case Nil
  then show ?case by simp
next
  case (Cons item items)
  from Cons.prems obtain part where part: "body item = Some (Inr part)"
    and rest: "for_items body items (acc @ part) = Some (Inr evs)"
    by (auto split: option.splits sum.splits)
  from Cons.IH[OF rest] obtain parts
    where "list_all2 (\<lambda>item part. body item = Some (Inr part)) items parts"
      and "evs = (acc @ part) @ concat parts" by blast
  with part show ?case
    by (intro exI[of _ "part # parts"]) simp
qed

lemma parseIcsData_parts:
  assumes "parseIcsData E icsData z sr er url = Some (Inr evs)"
  shows "\<exists>parsedData parts. parseICS E icsData = Inr parsedData
     \<and> list_all2 (\<lambda>item p. materialize E z sr er url item = Some (Inr p)) parsedData parts
     \<and> evs = concat parts"
proof -
  from assms obtain parsedData where pd: "parseICS E icsData = Inr parsedData"
    and fi: "for_items (materialize E z sr er url) parsedData [] = Some (Inr evs)"
    by (auto simp: parseIcsData_def split: sum.splits)
  from for_items_parts[OF fi] pd show ?thesis by auto
qed

lemma for_urls_parts:
  "for_urls E z sr er urls acc = Some (Inr evs) \<Longrightarrow>
     \<exists>parts. list_all2 (feed_events E z sr er) urls parts \<and> evs = acc @ concat parts"
proof (induction urls arbitrary: acc)
  case Nil
  then show ?case by simp
next
  case (Cons url urls)
  from Cons.prems obtain icsData part where get: "getCachedData E url = Inr icsData"
    and parse: "parseIcsData E icsData z sr er url = Some (Inr part)"
    and rest: "for_urls E z sr er urls (acc @ part) = Some (Inr evs)"
    by (auto split: option.splits sum.splits)
  from parseIcsData_parts[OF parse] get have fe: "feed_events E z sr er url part"
    unfolding feed_events_def by blast
  from Cons.IH[OF rest] obtain parts
    where "list_all2 (feed_events E z sr er) urls parts" and "evs = (acc @ part) @ concat parts"
    by blast
  with fe show ?case
    by (intro exI[of _ "part # parts"]) simp
qed

lemma for_urls_first_failure:
  assumes "\<forall>u\<in>set pre. \<exists>icsData evs. getCachedData E u = Inr icsData
              \<and> parseIcsData E icsData z sr er u = Some (Inr evs)"
    and "getCachedData E url = Inl e
         \<or> (\<exists>icsData. getCachedData E url = Inr icsData \<and> parseIcsData E icsData z sr er url = Some (Inl e))"
  shows "for_urls E z sr er (pre @ url # post) acc = Some (Inl e)"
  using assms(1)
proof (induction pre arbitrary: acc)
  case Nil
  from assms(2) show ?case by auto
next
  case (Cons u us)
  then obtain icsData evs where "getCachedData E u = Inr icsData"
    "parseIcsData E icsData z sr er u = Some (Inr evs)" by auto
  with Cons show ?case by simp
qed

subsection \<open>Hours, minutes and seconds of a wall-clock time\<close>

lemma hour_bounds: "0 \<le> ((a::int) mod 86400000) div 3600000 \<and> (a mod 86400000) div 3600000 < 24"
proof -
  have "0 \<le> a mod 86400000" "a mod 86400000 < 86400000" by simp_all
  then show ?thesis by (simp add: div_less_iff_less_mult pos_imp_zdiv_nonneg_iff) 
qed

lemma minute_bounds: "0 \<le> ((a::int) mod 3600000) div 60000 \<and> (a mod 3600000) div 60000 < 60"
proof -
  have "0 \<le> a mod 3600000" "a mod 3600000 < 3600000" by simp_all
  then show ?thesis by (simp add: div_less_iff_less_mult pos_imp_zdiv_nonneg_iff) 
qed

lemma second_bounds: "0 \<le> ((a::int) mod 60000) div 1000 \<and> (a mod 60000) div 1000 < 60"
proof -
  have "0 \<le> a mod 60000" "a mod 60000 < 60000" by simp_all
  then show ?thesis by (simp add: div_less_iff_less_mult pos_imp_zdiv_nonneg_iff) 
qed

lemma recompose:
  fixes d h m s ms :: int
  assumes "0 \<le> h" "h < 24" "0 \<le> m" "m < 60" "0 \<le> s" "s < 60" "0 \<le> ms" "ms < 1000"
  defines "t \<equiv> d * 86400000 + h * 3600000 + m * 60000 + s * 1000 + ms"
  shows "(t mod 86400000) div 3600000 = h" "(t mod 3600000) div 60000 = m"
    "(t mod 60000) div 1000 = s" "t div 86400000 = d" "t mod 1000 = ms"
proof -
  let ?r = "h * 3600000 + m * 60000 + s * 1000 + ms"
  let ?r2 = "m * 60000 + s * 1000 + ms"
  let ?r3 = "s * 1000 + ms"
  have r: "0 \<le> ?r" "?r < 86400000" using assms by auto
  have r2: "0 \<le> ?r2" "?r2 < 3600000" using assms by auto
  have r3: "0 \<le> ?r3" "?r3 < 60000" using assms by auto
  have t1: "t = 86400000 * d + ?r" by (simp add: t_def)
  show "t div 86400000 = d" by (rule int_div_pos_eq[OF t1 r])
  have m1: "t mod 86400000 = ?r" by (rule int_mod_pos_eq[OF t1 r])
  have "?r = 3600000 * h + ?r2" by simp
  from int_div_pos_eq[OF this r2] m1 show "(t mod 86400000) div 3600000 = h" by simp
  have t2: "t = 3600000 * (d * 24 + h) + ?r2" by (simp add: t_def)
  have m2: "t mod 3600000 = ?r2" by (rule int_mod_pos_eq[OF t2 r2])
  have "?r2 = 60000 * m + ?r3" by simp
  from int_div_pos_eq[OF this r3] m2 show "(t mod 3600000) div 60000 = m" by simp
  have t3: "t = 60000 * ((d * 24 + h) * 60 + m) + ?r3" by (simp add: t_def)
  have m3: "t mod 60000 = ?r3" by (rule int_mod_pos_eq[OF t3 r3])
  have "?r3 = 1000 * s + ms" by simp
  from int_div_pos_eq[OF this assms(7,8)] m3 show "(t mod 60000) div 1000 = s" by simp
  have t4: "t = 1000 * (((d * 24 + h) * 60 + m) * 60 + s) + ms" by (simp add: t_def)
  show "t mod 1000 = ms" by (rule int_mod_pos_eq[OF t4 assms(7,8)])
qed

lemma correctedStart_fixOffset:
  "correctedStart z item date = fst (fixOffset (wall_time z item date) (z date) z)"
  by (simp add: correctedStart_def set_hms_def wall_time_def)

lemma no_hole_local:
  assumes "\<not> hole_time z o1 localTS"
  shows "local_ms z (fst (fixOffset localTS o1 z)) = localTS"
proof -
  let ?o2 = "z (localTS - o1 * 60000)"
  let ?o3 = "z (localTS - ?o2 * 60000)"
  have g: "localTS - o1 * 60000 - (?o2 - o1) * 60000 = localTS - ?o2 * 60000"
    by (simp add: algebra_simps)
  from assms have "o1 = ?o2 \<or> ?o2 = ?o3" by (simp add: hole_time_def Let_def)
  then show ?thesis
  proof
    assume "o1 = ?o2"
    then show ?thesis by (simp add: fixOffset_def Let_def local_ms_def)
  next
    assume e: "?o2 = ?o3"
    show ?thesis
    proof (cases "o1 = ?o2")
      case True
      then show ?thesis by (simp add: fixOffset_def Let_def local_ms_def)
    next
      case False
      with e show ?thesis by (simp add: fixOffset_def Let_def local_ms_def g)
    qed
  qed
qed

lemma wall_time_fields:
  "(wall_time z item date mod 86400000) div 3600000 = dt_hour z (item_start item)"
  "(wall_time z item date mod 3600000) div 60000 = dt_minute z (item_start item)"
  "(wall_time z item date mod 60000) div 1000 = dt_second z (item_start item)"
  "wall_time z item date div 86400000 = local_day z date"
proof -
  have ms: "0 \<le> dt_millisecond z date" "dt_millisecond z date < 1000"
    by (simp_all add: dt_millisecond_def)
  note b = hour_bounds[of "local_ms z (item_start item)"] minute_bounds[of "local_ms z (item_start item)"]
    second_bounds[of "local_ms z (item_start item)"]
  have h: "0 \<le> dt_hour z (item_start item)" "dt_hour z (item_start item) < 24"
    using b by (simp_all add: dt_hour_def)
  have m: "0 \<le> dt_minute z (item_start item)" "dt_minute z (item_start item) < 60"
    using b by (simp_all add: dt_minute_def)
  have s: "0 \<le> dt_second z (item_start item)" "dt_second z (item_start item) < 60"
    using b by (simp_all add: dt_second_def)
  note r = recompose[OF h m s ms, of "local_day z date"]
  show "(wall_time z item date mod 86400000) div 3600000 = dt_hour z (item_start item)"
    using r(1) by (simp add: wall_time_def)
  show "(wall_time z item date mod 3600000) div 60000 = dt_minute z (item_start item)"
    using r(2) by (simp add: wall_time_def)
  show "(wall_time z item date mod 60000) div 1000 = dt_second z (item_start item)"
    using r(3) by (simp add: wall_time_def)
  show "wall_time z item date div 86400000 = local_day z date"
    using r(4) by (simp add: wall_time_def)
qed

lemma correctedStart_wall_clock:
  assumes "\<not> hole_time z (z date) (wall_time z item date)"
  shows "dt_hour z (correctedStart z item date) = dt_hour z (item_start item)"
    and "dt_minute z (correctedStart z item date) = dt_minute z (item_start item)"
    and "dt_second z (correctedStart z item date) = dt_second z (item_start item)"
    and "local_day z (correctedStart z item date) = local_day z date"
proof -
  have L: "local_ms z (correctedStart z item date) = wall_time z item date"
    unfolding correctedStart_fixOffset by (rule no_hole_local[OF assms])
  show "dt_hour z (correctedStart z item date) = dt_hour z (item_start item)"
    unfolding dt_hour_def[of z "correctedStart z item date"] L by (rule wall_time_fields(1))
  show "dt_minute z (correctedStart z item date) = dt_minute z (item_start item)"
    unfolding dt_minute_def[of z "correctedStart z item date"] L by (rule wall_time_fields(2))
  show "dt_second z (correctedStart z item date) = dt_second z (item_start item)"
    unfolding dt_second_def[of z "correctedStart z item date"] L by (rule wall_time_fields(3))
  show "local_day z (correctedStart z item date) = local_day z date"
    unfolding local_day_def[of z "correctedStart z item date"] L by (rule wall_time_fields(4))
qed

lemma hole_start:
  assumes "hole_time z o1 localTS" and "hole_offsets z o1 localTS = (o2, o3)"
  shows "fst (fixOffset localTS o1 z) = localTS - min o2 o3 * 60000"
    and "o2 < o3 \<or> o3 = o1 \<Longrightarrow>
           local_ms z (fst (fixOffset localTS o1 z)) = localTS + (max o2 o3 - min o2 o3) * 60000"
proof -
  from assms(2) have o2: "o2 = z (localTS - o1 * 60000)" and o3: "o3 = z (localTS - o2 * 60000)"
    by (auto simp: hole_offsets_def Let_def)
  from assms(1) o2 o3 have ne: "o1 \<noteq> o2" "o2 \<noteq> o3" by (simp_all add: hole_time_def Let_def)
  have g: "localTS - o1 * 60000 - (o2 - o1) * 60000 = localTS - o2 * 60000"
    by (simp add: algebra_simps)
  show s: "fst (fixOffset localTS o1 z) = localTS - min o2 o3 * 60000"
    using ne o2 o3 by (simp add: fixOffset_def Let_def g)
  assume c: "o2 < o3 \<or> o3 = o1"
  show "local_ms z (fst (fixOffset localTS o1 z)) = localTS + (max o2 o3 - min o2 o3) * 60000"
  proof (cases "o2 < o3")
    case True
    then have "z (localTS - min o2 o3 * 60000) = o3" using o3 by (simp add: min_def)
    with True show ?thesis unfolding s local_ms_def by (simp add: min_def max_def algebra_simps)
  next
    case False
    with c ne have e: "o3 = o1" "o3 < o2" by auto
    then have "z (localTS - min o2 o3 * 60000) = o2" using o2 by (simp add: min_def)
    with e show ?thesis unfolding s local_ms_def by (simp add: min_def max_def algebra_simps)
  qed
qed

lemma materialize_timed_exact:
  assumes "item_type item = ''VEVENT''" "item_rrule item = Some r" "item_datetype item \<noteq> DateOnly"
    and "materialize E z sr er url item = Some (Inr occs)"
  obtains R where "utc_rule E item r = Inr R"
    and "occs = recurrence_events sr er url item
           @ (if (case rr_after E R sr of None \<Rightarrow> True | Some n \<Rightarrow> n > er) then []
              else map (timed_event z url item)
                     (filter (timed_keep z item) (rr_between E R sr er)))"
proof -
  from assms have rt: "recurring_timed E z sr er url item r = Inr occs"
    by (simp add: materialize_def)
  then obtain R where R: "utc_rule E item r = Inr R"
    by (auto simp: recurring_timed_def split: sum.splits)
  from rt R have "occs = recurrence_events sr er url item
           @ (if (case rr_after E R sr of None \<Rightarrow> True | Some n \<Rightarrow> n > er) then []
              else map (timed_event z url item)
                     (filter (timed_keep z item) (rr_between E R sr er)))"
    by (auto simp: recurring_timed_def Let_def split: option.splits if_splits)
  with R show thesis by (rule that)
qed

lemma rule_events_of_result:
  "filter (\<lambda>occ. allDay occ \<noteq> None)
     (recurrence_events sr er url item @ map (timed_event z url item) ds)
     = map (timed_event z url item) ds"
proof -
  have a: "filter (\<lambda>occ. allDay occ \<noteq> None) (recurrence_events sr er url item) = []"
    by (simp add: recurrence_events_def recurrence_event_def del: not_None_eq)
  have b: "filter (\<lambda>occ. allDay occ \<noteq> None) (map (timed_event z url item) ds)
             = map (timed_event z url item) ds"
    by (rule filter_True) (auto simp: timed_event_def)
  show ?thesis by (simp only: filter_append a b append_Nil)
qed

subsection \<open>Exception dates only filter the generated events\<close>

lemma exdate_irrelevant:
  "utc_rule E (item\<lparr>item_exdate := xs\<rparr>) r = utc_rule E item r"
  "recurrence_events sr er url (item\<lparr>item_exdate := xs\<rparr>) = recurrence_events sr er url item"
  "timed_event z url (item\<lparr>item_exdate := xs\<rparr>) = timed_event z url item"
  "correctedStart z (item\<lparr>item_exdate := xs\<rparr>) = correctedStart z item"
  "modifiedRecurrenceIds (item\<lparr>item_exdate := xs\<rparr>) = modifiedRecurrenceIds item"
  "ruleOptions E (item\<lparr>item_exdate := xs\<rparr>) = ruleOptions E item"
  "allday_event E z url (item\<lparr>item_exdate := xs\<rparr>) = allday_event E z url item"
  by (simp_all add: utc_rule_def newRuleText_def recurrence_events_def recurrence_event_def
      timed_event_def correctedStart_def modifiedRecurrenceIds_def ruleOptions_def
      allday_event_def adjustEndForAllDayEvents_def fun_eq_iff Let_def split: option.splits)

lemma timed_keep_split:
  "timed_keep z item d \<longleftrightarrow>
     timed_keep z (item\<lparr>item_exdate := []\<rparr>) d
     \<and> toISODate z (start (timed_event z url item d)) \<notin> toISODate z ` set (item_exdate item)"
  by (simp add: timed_keep_def exdateDatesSet_def timed_event_def exdate_irrelevant)

lemma allday_keep_split:
  "allday_keep E z sr er item d \<longleftrightarrow>
     allday_keep E z sr er (item\<lparr>item_exdate := []\<rparr>) d
     \<and> toISODate z (start (allday_event E z url item d)) \<notin> toISODate z ` set (item_exdate item)"
  by (auto simp add: allday_keep_def exdateDatesSet_def allday_event_def)

lemma filter_generated:
  assumes "\<And>d. keep d \<longleftrightarrow> keep0 d \<and> \<not> ex (ev d)" and "\<And>d. allDay (ev d) \<noteq> None"
  shows "map ev (filter keep ds) = filter (\<lambda>occ. allDay occ = None \<or> \<not> ex occ) (map ev (filter keep0 ds))"
  using assms by (induction ds) (auto simp del: not_None_eq)

lemma filter_pushed:
  "filter (\<lambda>occ. allDay occ = None \<or> P occ) (recurrence_events sr er url item)
     = recurrence_events sr er url item"
  by (simp add: recurrence_events_def recurrence_event_def)

lemma recurring_timed_without_exdate:
  assumes "recurring_timed E z sr er url item r = Inr occs"
  shows "\<exists>occs0. recurring_timed E z sr er url (item\<lparr>item_exdate := []\<rparr>) r = Inr occs0
     \<and> occs = filter (\<lambda>occ. allDay occ = None
                        \<or> toISODate z (start occ) \<notin> toISODate z ` set (item_exdate item)) occs0"
proof -
  let ?P = "\<lambda>occ. toISODate z (start occ) \<in> toISODate z ` set (item_exdate item)"
  have g: "map (timed_event z url item) (filter (timed_keep z item) ds)
      = filter (\<lambda>occ. allDay occ = None \<or> \<not> ?P occ)
          (map (timed_event z url item) (filter (timed_keep z (item\<lparr>item_exdate := []\<rparr>)) ds))" for ds
    by (rule filter_generated) (simp_all add: timed_keep_split[of z item _ url] timed_event_def)
  from assms show ?thesis
    by (auto simp: recurring_timed_def exdate_irrelevant filter_pushed g Let_def
        split: sum.splits option.splits if_splits)
qed

lemma recurring_allday_without_exdate:
  assumes "recurring_allday E z sr er url item r = Inr occs"
  shows "\<exists>occs0. recurring_allday E z sr er url (item\<lparr>item_exdate := []\<rparr>) r = Inr occs0
     \<and> occs = filter (\<lambda>occ. allDay occ = None
                        \<or> toISODate z (start occ) \<notin> toISODate z ` set (item_exdate item)) occs0"
proof -
  let ?P = "\<lambda>occ. toISODate z (start occ) \<in> toISODate z ` set (item_exdate item)"
  have g: "map (allday_event E z url item) (filter (allday_keep E z sr er item) ds)
      = filter (\<lambda>occ. allDay occ = None \<or> \<not> ?P occ)
          (map (allday_event E z url item)
             (filter (allday_keep E z sr er (item\<lparr>item_exdate := []\<rparr>)) ds))" for ds
    by (rule filter_generated) (simp_all add: allday_keep_split[of E z sr er item _ url] allday_event_def)
  from assms show ?thesis
    by (auto simp: recurring_allday_def exdate_irrelevant g
        split: sum.splits option.splits if_splits)
qed

lemma materialize_allday_eval:
  assumes "item_type item = ''VEVENT''" "item_rrule item = Some r" "item_datetype item = DateOnly"
    and "ruleOptions E item (parsedRule_of E r) = opts" "new_RRule E opts = Inr R"
    and "rr_after E R sr = Some n" "n \<le> er"
    and "rr_between E R (sr - 86400000) (er + 86400000) = ds"
    and "filter (allday_keep E z sr er item) ds = kept"
    and "map (allday_event E z url item) kept = evs"
  shows "materialize E z sr er url item = Some (Inr evs)"
  using assms by (simp add: materialize_def recurring_allday_def)

subsection \<open>The all-day rule options, the reference enumeration and failing entries\<close>

lemma recover_part_by_fields:
  "bymonth (recover_part E p part) = bymonth p"
  "bymonthday (recover_part E p part) = bymonthday p"
  "byweekday (recover_part E p part) = byweekday p"
  by (simp_all add: recover_part_def Let_def)

lemma foldl_recover_bymonth: "bymonth (foldl (recover_part E) p parts) = bymonth p"
  by (induction parts arbitrary: p) (simp_all add: recover_part_by_fields)

lemma parsedRule_of_bymonth: "bymonth (parsedRule_of E r) = bymonth (options r)"
  by (simp add: parsedRule_of_def foldl_recover_bymonth)

lemma ruleOptions_freq: "freq (ruleOptions E item p) = freq p"
  by (simp add: ruleOptions_def Let_def)

lemma ruleOptions_yearly_month:
  assumes "freq p = Some 0" "bymonth p = None"
  shows "bymonth (ruleOptions E item p) = Some [month_of (toISODate (systemZone E) (item_start item))]"
  using assms by (simp add: ruleOptions_def Let_def getMonth_def toISODate_def)

lemma rr_scan_occurs:
  "t \<in> set (rr_scan opts fuel k n b) \<Longrightarrow> \<exists>j. t = step_instant opts j \<and> occurs_at opts j"
proof (induction fuel arbitrary: k n)
  case 0
  then show ?case by simp
next
  case (Suc fuel)
  then show ?case by (auto split: if_splits)
qed

lemma occurs_at_month:
  assumes "occurs_at opts j" "bymonth opts = Some [m]"
  shows "month_of (civil_from_days (step_instant opts j div 86400000)) = m"
  using assms by (auto simp: occurs_at_def Let_def in_filter_def split: if_splits)

lemma between_model_month:
  assumes "bymonth (options R) = Some [m]" "t \<in> set (between_model R a b)"
  shows "month_of (civil_from_days (t div 86400000)) = m"
proof -
  from assms(2) obtain j where "t = step_instant (options R) j" "occurs_at (options R) j"
    unfolding between_model_def using rr_scan_occurs by fastforce
  with occurs_at_month[OF _ assms(1)] show ?thesis by simp
qed

lemma for_items_first_failure:
  assumes "\<forall>p\<in>set pre. \<exists>evs. body p = Some (Inr evs)" and "body item = Some (Inl e)"
  shows "for_items body (pre @ item # post) acc = Some (Inl e)"
  using assms(1)
proof (induction pre arbitrary: acc)
  case Nil
  from assms(2) show ?case by simp
next
  case (Cons p ps)
  then obtain evs where "body p = Some (Inr evs)" by auto
  with Cons show ?case by simp
qed

lemma materialize_allday_returns:
  assumes "item_type item = ''VEVENT''" "item_rrule item = Some r" "item_datetype item = DateOnly"
    and "new_RRule E (ruleOptions E item (parsedRule_of E r)) = Inr R"
  shows "\<exists>dates. set dates \<subseteq> set (rr_between E R (sr - 86400000) (er + 86400000))
           \<and> materialize E z sr er url item = Some (Inr (map (allday_event E z url item) dates))"
proof (cases "case rr_after E R sr of None \<Rightarrow> True | Some n \<Rightarrow> n > er")
  case True
  with assms have "materialize E z sr er url item = Some (Inr (map (allday_event E z url item) []))"
    by (auto simp: materialize_def recurring_allday_def split: option.splits)
  then show ?thesis by (intro exI[of _ "[]"]) simp
next
  case False
  with assms have "materialize E z sr er url item
      = Some (Inr (map (allday_event E z url item)
                     (filter (allday_keep E z sr er item)
                        (rr_between E R (sr - 86400000) (er + 86400000)))))"
    by (auto simp: materialize_def recurring_allday_def split: option.splits)
  then show ?thesis
    by (intro exI[of _ "filter (allday_keep E z sr er item)
                          (rr_between E R (sr - 86400000) (er + 86400000))"]) simp
qed

lemma materialize_allday_error:
  assumes "item_type item = ''VEVENT''" "item_rrule item = Some r" "item_datetype item = DateOnly"
    and "new_RRule E (ruleOptions E item (parsedRule_of E r)) = Inl e"
  shows "materialize E z sr er url item = Some (Inl e)"
  using assms by (simp add: materialize_def recurring_allday_def)

lemma materialize_timed_error:
  assumes "item_type item = ''VEVENT''" "item_rrule item = Some r" "item_datetype item \<noteq> DateOnly"
    and "utc_rule E item r = Inl e"
  shows "materialize E z sr er url item = Some (Inl e)"
  using assms by (simp add: materialize_def recurring_timed_def)

lemma materialize_allday_events:
  assumes "item_type item = ''VEVENT''" "item_rrule item = Some r" "item_datetype item = DateOnly"
    and "materialize E z sr er url item = Some (Inr occs)"
  shows "\<exists>R. new_RRule E (ruleOptions E item (parsedRule_of E r)) = Inr R
     \<and> (\<forall>occ\<in>set occs. \<exists>date\<in>set (rr_between E R (sr - 86400000) (er + 86400000)).
            occ = allday_event E z url item date)"
proof -
  from assms obtain R dates where "new_RRule E (ruleOptions E item (parsedRule_of E r)) = Inr R"
    "occs = map (allday_event E z url item) dates"
    "set dates \<subseteq> set (rr_between E R (sr - 86400000) (er + 86400000))"
    by (rule materialize_allday_cases)
  then show ?thesis by auto
qed

subsection \<open>The loop over the days of an all-day entry\<close>

lemma clean_midnightD:
  assumes "clean_midnight z n"
  shows "fst (fixOffset (n * 86400000) (z u) z) = midnight z n"
    and "local_ms z (midnight z n) = n * 86400000"
  using assms unfolding clean_midnight_def midnight_def by metis+

lemma local_day_midnight:
  assumes "clean_midnight z n"
  shows "local_day z (midnight z n) = n"
  by (simp add: local_day_def clean_midnightD(2)[OF assms])

lemma startOf_day_clean:
  assumes "clean_midnight z (local_day z t)"
  shows "startOf_day z t = midnight z (local_day z t)"
  unfolding startOf_day_def by (rule clean_midnightD(1)[OF assms])

lemma plus_days_midnight:
  assumes "clean_midnight z n" "clean_midnight z (n + 1)"
  shows "plus_days z (midnight z n) 1 = midnight z (n + 1)"
proof -
  have "local_ms z (midnight z n) + 1 * 86400000 = (n + 1) * 86400000"
    by (simp add: clean_midnightD(2)[OF assms(1)] algebra_simps)
  then show ?thesis
    unfolding plus_days_def using clean_midnightD(1)[OF assms(2)] by simp
qed

lemma endOf_day_midnight:
  assumes "clean_midnight z n" "clean_midnight z (n + 1)"
  shows "endOf_day z (midnight z n) = midnight z (n + 1) - 1"
proof -
  have "startOf_day z (midnight z (n + 1)) = midnight z (n + 1)"
    using startOf_day_clean[of z "midnight z (n + 1)"] assms(2)
    by (simp add: local_day_midnight)
  then show ?thesis
    by (simp add: endOf_day_def plus_days_midnight[OF assms] plus_millis_eq)
qed

lemma midnight_step:
  assumes "steady z" "clean_midnight z n" "clean_midnight z (n + 1)"
  shows "midnight z n + 60000 \<le> midnight z (n + 1)"
proof -
  let ?a = "midnight z n" and ?b = "midnight z (n + 1)"
  have a: "?a + z ?a * 60000 = n * 86400000"
    using clean_midnightD(2)[OF assms(2)] by (simp add: local_ms_def)
  have b: "?b + z ?b * 60000 = (n + 1) * 86400000"
    using clean_midnightD(2)[OF assms(3)] by (simp add: local_ms_def)
  have "z ?b - z ?a < 1440" using assms(1) by (simp add: steady_def)
  with a b show ?thesis by (simp add: algebra_simps)
qed

lemma midnight_mono:
  assumes "steady z" "\<forall>k\<in>{n..m}. clean_midnight z k" "n \<le> m"
  shows "midnight z n \<le> midnight z m"
  using assms(3,2)
proof (induction "nat (m - n)" arbitrary: m)
  case 0
  then have "m = n" by simp
  then show ?case by simp
next
  case (Suc d)
  then have lt: "n \<le> m - 1" and d: "d = nat (m - 1 - n)" by auto
  have cl: "\<forall>k\<in>{n..m - 1}. clean_midnight z k" using Suc.prems(2) by auto
  have "midnight z n \<le> midnight z (m - 1)" by (rule Suc.hyps(1)[OF d lt cl])
  moreover have "midnight z (m - 1) + 60000 \<le> midnight z (m - 1 + 1)"
    using Suc.prems(2) lt by (intro midnight_step[OF assms(1)]) auto
  ultimately show ?case by simp
qed

lemma split_days_clean:
  assumes "steady z" "clean_midnight z l" "\<forall>k\<in>{n..l + 1}. clean_midnight z k" "n \<le> l + 1"
  shows "split_days z sr er url item (midnight z l) (midnight z n) acc =
     Some (acc @ map (day_event z url item)
                   (filter (\<lambda>t. t \<ge> sr \<and> t \<le> er) (map (midnight z) [n..l])))"
  using assms(4,3)
proof (induction "nat (l + 1 - n)" arbitrary: n acc)
  case 0
  then have n: "n = l + 1" by simp
  have "midnight z l + 60000 \<le> midnight z (l + 1)"
    using "0.prems"(2) n assms(2) by (intro midnight_step[OF assms(1)]) auto
  then have "\<not> midnight z n \<le> midnight z l" using n by simp
  then show ?case using n by (subst split_days.simps) simp
next
  case (Suc d)
  then have le: "n \<le> l" and d: "d = nat (l + 1 - (n + 1))" and le': "n + 1 \<le> l + 1" by auto
  have cl: "\<forall>k\<in>{n + 1..l + 1}. clean_midnight z k" using Suc.prems(2) by auto
  have cn: "clean_midnight z n" "clean_midnight z (n + 1)" using Suc.prems(2) le by auto
  have "midnight z n \<le> midnight z l"
    using Suc.prems(2) le by (intro midnight_mono[OF assms(1)]) auto
  moreover have up: "[n..l] = n # [n + 1..l]" using le by (simp add: upto_rec1)
  ultimately show ?case
    by (subst split_days.simps)
       (simp add: plus_days_midnight[OF cn] Suc.hyps(1)[OF d le' cl])
qed

lemma non_recurring_all_day_clean:
  assumes "item_datetype item = DateOnly"
    and "item_start item < adjustEndForAllDayEvents item"
    and "steady z"
    and "local_day z (item_start item) \<le> local_day z (adjustEndForAllDayEvents item)"
    and "\<forall>k\<in>{local_day z (item_start item) .. local_day z (adjustEndForAllDayEvents item) + 1}.
           clean_midnight z k"
  shows "non_recurring z sr er url item =
     Some (map (day_event z url item)
             (filter (\<lambda>t. t \<ge> sr \<and> t \<le> er)
                (map (midnight z)
                   [local_day z (item_start item) .. local_day z (adjustEndForAllDayEvents item)])))"
proof -
  let ?n = "local_day z (item_start item)" and ?l = "local_day z (adjustEndForAllDayEvents item)"
  have cn: "clean_midnight z ?n" and cl: "clean_midnight z ?l" using assms(4,5) by auto
  have "non_recurring z sr er url item
      = split_days z sr er url item (midnight z ?l) (midnight z ?n) []"
    using assms(1,2) by (simp add: non_recurring_def startOf_day_clean[OF cn] startOf_day_clean[OF cl])
  also have "\<dots> = Some ([] @ map (day_event z url item)
             (filter (\<lambda>t. t \<ge> sr \<and> t \<le> er) (map (midnight z) [?n .. ?l])))"
    using assms(4) by (intro split_days_clean[OF assms(3) cl assms(5)]) simp
  finally show ?thesis by simp
qed

lemma day_event_clean:
  assumes "steady z" "clean_midnight z n" "clean_midnight z (n + 1)"
  shows "start (day_event z url item (midnight z n)) = midnight z n"
    and "end' (day_event z url item (midnight z n)) = midnight z (n + 1) - 1"
    and "allDay (day_event z url item (midnight z n)) = Some True"
    and "start (day_event z url item (midnight z n)) < end' (day_event z url item (midnight z n))"
  using midnight_step[OF assms] endOf_day_midnight[OF assms(2,3)]
  by (simp_all add: day_event_def)

lemma new_york_offsets: "america_new_york u = - 300 \<or> america_new_york u = - 240"
  by (simp add: america_new_york_def)

lemma steady_new_york: "steady america_new_york"
  unfolding steady_def
proof (intro allI)
  fix t u
  from new_york_offsets[of t] new_york_offsets[of u]
  show "america_new_york t - america_new_york u < 1440" by auto
qed

lemma clean_midnight_two_offsets:
  assumes "\<And>u. z u = a \<or> z u = b"
    and "local_ms z t = n * 86400000"
    and "fst (fixOffset (n * 86400000) a z) = t"
    and "fst (fixOffset (n * 86400000) b z) = t"
  shows "clean_midnight z n"
  unfolding clean_midnight_def
proof (intro exI[of _ t] conjI allI)
  fix u
  from assms(1)[of u] assms(3,4)
  show "fst (fixOffset (n * 86400000) (z u) z) = t" by auto
qed (rule assms(2))

lemma clean_new_york_november:
  "clean_midnight america_new_york 20031" "clean_midnight america_new_york 20032"
  "clean_midnight america_new_york 20033" "clean_midnight america_new_york 20034"
proof -
  show "clean_midnight america_new_york 20031"
    by (rule clean_midnight_two_offsets[of _ "- 300" "- 240" 1730696400000, OF new_york_offsets])
      code_simp+
  show "clean_midnight america_new_york 20032"
    by (rule clean_midnight_two_offsets[of _ "- 300" "- 240" 1730782800000, OF new_york_offsets])
      code_simp+
  show "clean_midnight america_new_york 20033"
    by (rule clean_midnight_two_offsets[of _ "- 300" "- 240" 1730869200000, OF new_york_offsets])
      code_simp+
  show "clean_midnight america_new_york 20034"
    by (rule clean_midnight_two_offsets[of _ "- 300" "- 240" 1730955600000, OF new_york_offsets])
      code_simp+
qed

lemma new_york_hole:
  assumes "hole_time america_new_york (america_new_york date) localTS"
  shows "local_ms america_new_york (fst (fixOffset localTS (america_new_york date) america_new_york))
           = localTS + 3600000"
proof -
  let ?z = america_new_york
  obtain o2 o3 where h: "hole_offsets ?z (?z date) localTS = (o2, o3)" by (cases "hole_offsets ?z (?z date) localTS")
  then have o2: "o2 = ?z (localTS - ?z date * 60000)" and o3: "o3 = ?z (localTS - o2 * 60000)"
    by (auto simp: hole_offsets_def Let_def)
  from assms o2 o3 have ne: "?z date \<noteq> o2" "o2 \<noteq> o3" by (simp_all add: hole_time_def Let_def)
  have v: "o2 = - 300 \<or> o2 = - 240" "o3 = - 300 \<or> o3 = - 240" "?z date = - 300 \<or> ?z date = - 240"
    using new_york_offsets o2 o3 by blast+
  with ne have c: "o3 = ?z date" and w: "max o2 o3 - min o2 o3 = 60" by auto
  from hole_start(2)[OF assms h] c w show ?thesis by simp
qed

lemma santiago_offsets: "america_santiago u = - 240 \<or> america_santiago u = - 180"
  by (simp add: america_santiago_def)


subsection \<open>Days in a sparse zone\<close>













section \<open>The scenarios, evaluated\<close>

lemma modified_event_materialized:
  "materialize lib_env america_new_york 1731128400000 1731474000000 ''u'' modified_event =
     Some (Inr modified_event_events)"
proof -
  have 1: "item_type modified_event = ''VEVENT''" by code_simp
  have 2: "item_rrule modified_event = Some daily_rule" by code_simp
  have 3: "item_datetype modified_event = DateAndTime" by code_simp
  have 4: "utc_rule lib_env modified_event daily_rule = Inr daily_utc_rule" by code_simp
  have 5: "rr_after lib_env daily_utc_rule 1731128400000 = Some 1731250800000" by code_simp
  have 6: "rr_between lib_env daily_utc_rule 1731128400000 1731474000000
             = [1731250800000, 1731337200000, 1731423600000]" by code_simp
  have 7: "recurrence_events 1731128400000 1731474000000 ''u'' modified_event
             = [hd modified_event_events]" by code_simp
  have 8: "filter (timed_keep america_new_york modified_event)
             [1731250800000, 1731337200000, 1731423600000] = [1731250800000, 1731423600000]"
    by code_simp
  have 9: "map (timed_event america_new_york ''u'' modified_event) [1731250800000, 1731423600000]
             = tl modified_event_events" by code_simp
  have 10: "hd modified_event_events # tl modified_event_events = modified_event_events"
    by (simp add: modified_event_events_def)
  show ?thesis
    using materialize_timed_eval[OF 1 2 3 4 5 _ 6 7 8 9] by (simp add: 10)
qed


lemma feed_a_fetched:
  "getCalendarEventsFromUrls feed_env [''http://feeds/a.ics''] america_new_york
     1727755200000 1730433600000 =
     Some (Inr [single_event_event ''http://feeds/a.ics'', earlier_event_event ''http://feeds/a.ics''])"
  by code_simp

lemma feed_b_fetched:
  "getCalendarEventsFromUrls feed_env [''http://feeds/b.ics''] america_new_york
     1727755200000 1730433600000 = Some (Inr [single_event_event ''http://feeds/b.ics''])"
  by code_simp

lemma feed_c_not_fetched:
  "getCachedData feed_env ''http://feeds/c.ics'' = Inl (FetchError ''http://feeds/c.ics'')"
  by code_simp

lemma scenario_instants:
  "utc_instant 2024 10 28 4 0 0 = 1730088000000" "utc_instant 2024 11 6 5 0 0 = 1730869200000"
  "utc_instant 2024 10 30 0 30 0 = 1730248200000" "utc_instant 2024 11 6 1 30 0 = 1730856600000"
  by code_simp+

lemma dst_event_materialized:
  "materialize lib_env america_new_york 1730088000000 1730869200000 ''u'' dst_event =
     Some (Inr dst_event_events)"
proof -
  have 1: "item_type dst_event = ''VEVENT''" by code_simp
  have 2: "item_rrule dst_event = Some (the (item_rrule dst_event))" by code_simp
  have 3: "item_datetype dst_event = DateAndTime" by code_simp
  have 4: "utc_rule lib_env dst_event (the (item_rrule dst_event)) = Inr dst_utc_rule" by code_simp
  have 5: "rr_after lib_env dst_utc_rule 1730088000000 = Some 1730248200000" by code_simp
  have 6: "rr_between lib_env dst_utc_rule 1730088000000 1730869200000
             = [1730248200000, 1730853000000]" by code_simp
  have 7: "recurrence_events 1730088000000 1730869200000 ''u'' dst_event = []" by code_simp
  have 8: "filter (timed_keep america_new_york dst_event) [1730248200000, 1730853000000]
             = [1730248200000, 1730853000000]" by code_simp
  have 9: "map (timed_event america_new_york ''u'' dst_event) [1730248200000, 1730853000000]
             = dst_event_events" by code_simp
  show ?thesis
    using materialize_timed_eval[OF 1 2 3 4 5 _ 6 7 8 9] by simp
qed

lemma spring_event_materialized:
  "materialize lib_env america_new_york 1741323600000 1741665600000 ''u'' spring_event =
     Some (Inr spring_event_events)"
proof -
  have 1: "item_type spring_event = ''VEVENT''" by code_simp
  have 2: "item_rrule spring_event = Some (the (item_rrule spring_event))" by code_simp
  have 3: "item_datetype spring_event = DateAndTime" by code_simp
  have 4: "utc_rule lib_env spring_event (the (item_rrule spring_event)) = Inr spring_utc_rule"
    by code_simp
  have 5: "rr_after lib_env spring_utc_rule 1741323600000 = Some 1741419000000" by code_simp
  have 6: "rr_between lib_env spring_utc_rule 1741323600000 1741665600000
             = [1741419000000, 1741505400000, 1741591800000]" by code_simp
  have 7: "recurrence_events 1741323600000 1741665600000 ''u'' spring_event = []" by code_simp
  have 8: "filter (timed_keep america_new_york spring_event)
             [1741419000000, 1741505400000, 1741591800000]
             = [1741419000000, 1741505400000, 1741591800000]" by code_simp
  have 9: "map (timed_event america_new_york ''u'' spring_event)
             [1741419000000, 1741505400000, 1741591800000] = spring_event_events" by code_simp
  show ?thesis
    using materialize_timed_eval[OF 1 2 3 4 5 _ 6 7 8 9] by simp
qed

lemma dst_event_anchor:
  "item_start dst_event = utc_instant 2024 10 30 0 30 0"
  "toISODate america_new_york (item_start dst_event) = (2024, 10, 29)"
  "dt_hour america_new_york (item_start dst_event) = 20"
  "dt_minute america_new_york (item_start dst_event) = 30"
  "dt_second america_new_york (item_start dst_event) = 0"
  by code_simp+

lemma exdate_event_materialized:
  "materialize lib_env america_new_york 1730260800000 1730782800000 ''u'' exdate_event =
     Some (Inr exdate_event_events)"
proof -
  have 1: "item_type exdate_event = ''VEVENT''" by code_simp
  have 2: "item_rrule exdate_event = Some (the (item_rrule exdate_event))" by code_simp
  have 3: "item_datetype exdate_event = DateAndTime" by code_simp
  have 4: "utc_rule lib_env exdate_event (the (item_rrule exdate_event)) = Inr exdate_utc_rule"
    by code_simp
  have 5: "rr_after lib_env exdate_utc_rule 1730260800000 = Some 1730466000000" by code_simp
  have 6: "rr_between lib_env exdate_utc_rule 1730260800000 1730782800000
             = [1730466000000, 1730552400000, 1730638800000]" by code_simp
  have 7: "recurrence_events 1730260800000 1730782800000 ''u'' exdate_event = []" by code_simp
  have 8: "filter (timed_keep america_new_york exdate_event)
             [1730466000000, 1730552400000, 1730638800000] = [1730466000000, 1730638800000]"
    by code_simp
  have 9: "map (timed_event america_new_york ''u'' exdate_event) [1730466000000, 1730638800000]
             = exdate_event_events" by code_simp
  show ?thesis
    using materialize_timed_eval[OF 1 2 3 4 5 _ 6 7 8 9] by simp
qed

lemma daily_rule_enumerated:
  "rr_after lib_env daily_utc_rule 1731128400000 = Some 1731250800000"
  "rr_between lib_env daily_utc_rule 1731128400000 1731560400000
     = [1731250800000, 1731337200000, 1731423600000]"
  by code_simp+

lemma moved_event_materialized:
  "materialize lib_env america_new_york 1731128400000 1731560400000 ''u'' moved_event =
     Some (Inr moved_event_events)"
proof -
  have 1: "item_type moved_event = ''VEVENT''" by code_simp
  have 2: "item_rrule moved_event = Some daily_rule" by code_simp
  have 3: "item_datetype moved_event = DateAndTime" by code_simp
  have 4: "utc_rule lib_env moved_event daily_rule = Inr daily_utc_rule" by code_simp
  have 7: "recurrence_events 1731128400000 1731560400000 ''u'' moved_event
             = [hd moved_event_events]" by code_simp
  have 8: "filter (timed_keep america_new_york moved_event)
             [1731250800000, 1731337200000, 1731423600000] = [1731250800000, 1731423600000]"
    by code_simp
  have 9: "map (timed_event america_new_york ''u'' moved_event) [1731250800000, 1731423600000]
             = tl moved_event_events" by code_simp
  have 10: "hd moved_event_events # tl moved_event_events = moved_event_events"
    by (simp add: moved_event_events_def)
  show ?thesis
    using materialize_timed_eval[OF 1 2 3 4 daily_rule_enumerated(1) _ daily_rule_enumerated(2) 7 8 9]
    by (simp add: 10)
qed

lemma cancelled_and_moved_event_materialized:
  "materialize lib_env america_new_york 1731128400000 1731560400000 ''u'' cancelled_and_moved_event =
     Some (Inr cancelled_and_moved_event_events)"
proof -
  have 1: "item_type cancelled_and_moved_event = ''VEVENT''" by code_simp
  have 2: "item_rrule cancelled_and_moved_event = Some daily_rule" by code_simp
  have 3: "item_datetype cancelled_and_moved_event = DateAndTime" by code_simp
  have 4: "utc_rule lib_env cancelled_and_moved_event daily_rule = Inr daily_utc_rule" by code_simp
  have 7: "recurrence_events 1731128400000 1731560400000 ''u'' cancelled_and_moved_event
             = [hd cancelled_and_moved_event_events]" by code_simp
  have 8: "filter (timed_keep america_new_york cancelled_and_moved_event)
             [1731250800000, 1731337200000, 1731423600000] = [1731250800000]"
    by code_simp
  have 9: "map (timed_event america_new_york ''u'' cancelled_and_moved_event) [1731250800000]
             = tl cancelled_and_moved_event_events" by code_simp
  have 10: "hd cancelled_and_moved_event_events # tl cancelled_and_moved_event_events
             = cancelled_and_moved_event_events"
    by (simp add: cancelled_and_moved_event_events_def)
  show ?thesis
    using materialize_timed_eval[OF 1 2 3 4 daily_rule_enumerated(1) _ daily_rule_enumerated(2) 7 8 9]
    by (simp add: 10)
qed

lemma annual_instants:
  "utc_instant 2024 11 1 4 0 0 = 1730433600000" "utc_instant 2025 2 1 5 0 0 = 1738386000000"
  "utc_instant 2024 12 8 5 0 0 = 1733634000000"
  by code_simp+

lemma annual_event_materialized:
  "materialize lib_env america_new_york 1730433600000 1738386000000 ''u'' annual_event =
     Some (Inr annual_event_events)"
proof -
  have 1: "item_type annual_event = ''VEVENT''" by code_simp
  have 2: "item_rrule annual_event = Some (the (item_rrule annual_event))" by code_simp
  have 3: "item_datetype annual_event = DateOnly" by code_simp
  have 4: "ruleOptions lib_env annual_event (parsedRule_of lib_env (the (item_rrule annual_event)))
             = annual_options" by code_simp
  have 5: "new_RRule lib_env annual_options = Inr \<lparr>options = annual_options, toString = []\<rparr>"
    by code_simp
  have 6: "rr_after lib_env \<lparr>options = annual_options, toString = []\<rparr> 1730433600000
             = Some 1733634000000" by code_simp
  have 7: "rr_between lib_env \<lparr>options = annual_options, toString = []\<rparr>
             (1730433600000 - 86400000) (1738386000000 + 86400000) = [1733634000000]" by code_simp
  have 8: "filter (allday_keep lib_env america_new_york 1730433600000 1738386000000 annual_event)
             [1733634000000] = [1733634000000]" by code_simp
  have 9: "map (allday_event lib_env america_new_york ''u'' annual_event) [1733634000000]
             = annual_event_events" by code_simp
  show ?thesis
    using materialize_allday_eval[OF 1 2 3 4 5 6 _ 7 8 9] by simp
qed

lemma annual_timed_event_materialized:
  "materialize lib_env america_new_york 1730433600000 1738386000000 ''u'' annual_timed_event =
     Some (Inr annual_timed_event_events)"
proof -
  have 1: "item_type annual_timed_event = ''VEVENT''" by code_simp
  have 2: "item_rrule annual_timed_event = Some (the (item_rrule annual_timed_event))" by code_simp
  have 3: "item_datetype annual_timed_event = DateAndTime" by code_simp
  have 4: "utc_rule lib_env annual_timed_event (the (item_rrule annual_timed_event))
             = Inr annual_timed_utc_rule" by code_simp
  have 5: "rr_after lib_env annual_timed_utc_rule 1730433600000 = Some 1733670000000" by code_simp
  have 6: "rr_between lib_env annual_timed_utc_rule 1730433600000 1738386000000
             = [1733670000000, 1736348400000]" by code_simp
  have 7: "recurrence_events 1730433600000 1738386000000 ''u'' annual_timed_event = []" by code_simp
  have 8: "filter (timed_keep america_new_york annual_timed_event) [1733670000000, 1736348400000]
             = [1733670000000, 1736348400000]" by code_simp
  have 9: "map (timed_event america_new_york ''u'' annual_timed_event) [1733670000000, 1736348400000]
             = annual_timed_event_events" by code_simp
  show ?thesis
    using materialize_timed_eval[OF 1 2 3 4 5 _ 6 7 8 9] by simp
qed

lemma nofreq_event_options:
  "item_type nofreq_event = ''VEVENT''"
  "item_rrule nofreq_event = Some (the (item_rrule nofreq_event))"
  "item_datetype nofreq_event = DateOnly"
  "freq (parsedRule_of lib_env (the (item_rrule nofreq_event))) = None"
  "ruleOptions lib_env nofreq_event (parsedRule_of lib_env (the (item_rrule nofreq_event)))
     = nofreq_options"
  "new_RRule lib_env nofreq_options = Inl (LibraryError ''Invalid frequency'')"
  by code_simp+

lemma nofreq_event_lenient:
  "materialize lenient_env america_new_york 1730433600000 1738386000000 ''u'' nofreq_event =
     Some (Inr nofreq_event_events)"
proof -
  have 4: "ruleOptions lenient_env nofreq_event
             (parsedRule_of lenient_env (the (item_rrule nofreq_event))) = nofreq_options"
    by code_simp
  have 5: "new_RRule lenient_env nofreq_options = Inr \<lparr>options = nofreq_options, toString = []\<rparr>"
    by code_simp
  have 6: "rr_after lenient_env \<lparr>options = nofreq_options, toString = []\<rparr> 1730433600000
             = Some 1733634000000" by code_simp
  have 7: "rr_between lenient_env \<lparr>options = nofreq_options, toString = []\<rparr>
             (1730433600000 - 86400000) (1738386000000 + 86400000) = [1733634000000]" by code_simp
  have 8: "filter (allday_keep lenient_env america_new_york 1730433600000 1738386000000 nofreq_event)
             [1733634000000] = [1733634000000]" by code_simp
  have 9: "map (allday_event lenient_env america_new_york ''u'' nofreq_event) [1733634000000]
             = nofreq_event_events" by code_simp
  show ?thesis
    using materialize_allday_eval[OF nofreq_event_options(1,2,3) 4 5 6 _ 7 8 9] by simp
qed

lemma badfreq_event_rule:
  "item_type badfreq_event = ''VEVENT''"
  "item_rrule badfreq_event = Some (the (item_rrule badfreq_event))"
  "item_datetype badfreq_event \<noteq> DateOnly"
  "utc_rule lib_env badfreq_event (the (item_rrule badfreq_event))
     = Inl (LibraryError ''Invalid frequency'')"
  by code_simp+

lemma rule_feed_decoded:
  "parseICS rule_feed_env ''RRULE:COUNT=3'' = Inl (LibraryError ''Unknown RRULE property'')"
  "parseICS rule_feed_env ''RRULE:FREQ=FORTNIGHTLY;COUNT=3'' = Inl (LibraryError ''Invalid frequency'')"
  "parseIcsData rule_feed_env ''RRULE:FREQ=YEARLY;COUNT=3'' america_new_york
     1727755200000 1738386000000 ''u''
     = Some (Inr [single_event_event ''u'',
                  allday_occurrence ''Anniversary'' 1733634000000 1733720400000])"
  by code_simp+

lemma vacation_days:
  "item_type vacation = ''VEVENT''" "item_rrule vacation = None" "item_datetype vacation = DateOnly"
  "item_start vacation < adjustEndForAllDayEvents vacation"
  "local_day america_new_york (item_start vacation) = 20031"
  "local_day america_new_york (adjustEndForAllDayEvents vacation) = 20033"
  by code_simp+

lemma vacation_materialized:
  "materialize lib_env america_new_york 1730433600000 1731214800000 ''u'' vacation
     = Some (Inr vacation_events)"
  by code_simp

lemma fiestas_materialized:
  "materialize lib_env america_santiago 1725163200000 1727665200000 ''u'' fiestas
     = Some (Inr fiestas_events)"
  by code_simp

lemma new_york_november_midnights:
  "midnight america_new_york 20031 = 1730696400000" "midnight america_new_york 20032 = 1730782800000"
  "midnight america_new_york 20033 = 1730869200000"
  by code_simp+


lemma standup_event_materialized:
  "materialize lib_env america_new_york 1730696400000 1730782800000 ''u'' standup_event
     = Some (Inr standup_event_events)"
  by code_simp

section \<open>The claims\<close>

text \<open>
  C6, as amended. The list returned by \<open>getCalendarEventsFromUrls\<close> (and sent
  unchanged by the handler) is the concatenation, feed after feed in the order of the
  URLs and entry after entry in the order of the decoder, of the events of each entry.
  Nothing sorts it.
\<close>

theorem feeds_concatenated:
  assumes "getCalendarEventsFromUrls E urls z sd ed = Some (Inr evs)"
  shows "\<exists>parts. list_all2 (feed_events E z sd ed) urls parts \<and> evs = concat parts"
  using for_urls_parts[of E z sd ed urls "[]" evs] assms
  by (simp add: getCalendarEventsFromUrls_def)

theorem feeds_concatenated_witness:
  "getCalendarEventsFromUrls feed_env [''http://feeds/a.ics''] america_new_york
     1727755200000 1730433600000 =
     Some (Inr [single_event_event ''http://feeds/a.ics'', earlier_event_event ''http://feeds/a.ics''])
   \<and> (\<exists>parts. list_all2 (feed_events feed_env america_new_york 1727755200000 1730433600000)
                  [''http://feeds/a.ics''] parts
        \<and> [single_event_event ''http://feeds/a.ics'', earlier_event_event ''http://feeds/a.ics'']
            = concat parts)"
  using feeds_concatenated[OF feed_a_fetched] feed_a_fetched by simp

text \<open>
  C6 as stated fails: a feed that lists an entry of 26 October before an entry of
  20 October is returned in that order.
\<close>

theorem result_not_sorted:
  "getCalendarEventsFromUrls feed_env [''http://feeds/a.ics''] america_new_york
     1727755200000 1730433600000 =
     Some (Inr [single_event_event ''http://feeds/a.ics'', earlier_event_event ''http://feeds/a.ics''])
   \<and> \<not> sorted (map start [single_event_event ''http://feeds/a.ics'',
                            earlier_event_event ''http://feeds/a.ics''])"
  using feed_a_fetched by (simp add: single_event_event_def earlier_event_event_def)

text \<open>
  C7, as amended. No failure is caught per feed. When the fetch of one feed fails (no
  fresh cache file and a failing GET) or its decoding fails, and the feeds before it in
  the list were fetched and parsed, \<open>getCalendarEventsFromUrls\<close> throws that error:
  the events of the feeds before it are dropped and the feeds after it are not looked
  at. The handler, whose window is computed from the clock, then answers 500.
\<close>

theorem one_failing_feed_fails_all:
  assumes "getCachedData E url = Inl e
           \<or> (\<exists>icsData. getCachedData E url = Inr icsData \<and> parseICS E icsData = Inl e)"
    and "\<forall>u\<in>set pre. \<exists>icsData evs. getCachedData E u = Inr icsData
              \<and> parseIcsData E icsData z sd ed u = Some (Inr evs)"
  shows "getCalendarEventsFromUrls E (pre @ url # post) z sd ed = Some (Inl e)
     \<and> (sd = startOf_day z (plus_days z (now E) (- days_or daysPast 90))
        \<and> ed = endOf_day z (plus_days z (now E) (days_or daysFuture 180)) \<longrightarrow>
        api_calendars_events E (Some (pre @ url # post)) (Some z) daysPast daysFuture = Some Json500)"
proof -
  from assms(1) have f: "getCachedData E url = Inl e
         \<or> (\<exists>icsData. getCachedData E url = Inr icsData \<and> parseIcsData E icsData z sd ed url = Some (Inl e))"
    by (auto simp: parseIcsData_def)
  have g: "getCalendarEventsFromUrls E (pre @ url # post) z sd ed = Some (Inl e)"
    unfolding getCalendarEventsFromUrls_def by (rule for_urls_first_failure[OF assms(2) f])
  then show ?thesis by (auto simp: api_calendars_events_def Let_def)
qed

theorem one_failing_feed_fails_all_witness:
  "getCachedData feed_env ''http://feeds/c.ics'' = Inl (FetchError ''http://feeds/c.ics'')
   \<and> getCachedData feed_env ''http://feeds/b.ics'' = Inr ''feed B''
   \<and> parseIcsData feed_env ''feed B'' america_new_york 1719979200000 1743393599999
        ''http://feeds/b.ics'' = Some (Inr [single_event_event ''http://feeds/b.ics''])
   \<and> 1719979200000 = startOf_day america_new_york
                          (plus_days america_new_york (now feed_env) (- days_or None 90))
   \<and> 1743393599999 = endOf_day america_new_york
                          (plus_days america_new_york (now feed_env) (days_or None 180))
   \<and> getCalendarEventsFromUrls feed_env [''http://feeds/b.ics'', ''http://feeds/c.ics'', ''http://feeds/a.ics'']
        america_new_york 1719979200000 1743393599999 = Some (Inl (FetchError ''http://feeds/c.ics''))
   \<and> api_calendars_events feed_env
        (Some [''http://feeds/b.ics'', ''http://feeds/c.ics'', ''http://feeds/a.ics''])
        (Some america_new_york) None None = Some Json500"
proof -
  have c: "getCachedData feed_env ''http://feeds/c.ics'' = Inl (FetchError ''http://feeds/c.ics'')"
    by code_simp
  have b: "getCachedData feed_env ''http://feeds/b.ics'' = Inr ''feed B''" by code_simp
  have p: "parseIcsData feed_env ''feed B'' america_new_york 1719979200000 1743393599999
        ''http://feeds/b.ics'' = Some (Inr [single_event_event ''http://feeds/b.ics''])"
    by code_simp
  have w1: "1719979200000 = startOf_day america_new_york
                          (plus_days america_new_york (now feed_env) (- days_or None 90))"
    by code_simp
  have w2: "1743393599999 = endOf_day america_new_york
                          (plus_days america_new_york (now feed_env) (days_or None 180))"
    by code_simp
  have f: "getCachedData feed_env ''http://feeds/c.ics'' = Inl (FetchError ''http://feeds/c.ics'')
      \<or> (\<exists>icsData. getCachedData feed_env ''http://feeds/c.ics'' = Inr icsData
            \<and> parseICS feed_env icsData = Inl (FetchError ''http://feeds/c.ics''))"
    using c by simp
  have pre: "\<forall>u\<in>set [''http://feeds/b.ics'']. \<exists>icsData evs. getCachedData feed_env u = Inr icsData
              \<and> parseIcsData feed_env icsData america_new_york 1719979200000 1743393599999 u
                   = Some (Inr evs)"
    using b p by simp
  from one_failing_feed_fails_all[OF f pre, of "[''http://feeds/a.ics'']" None None] w1 w2
  have "getCalendarEventsFromUrls feed_env [''http://feeds/b.ics'', ''http://feeds/c.ics'', ''http://feeds/a.ics'']
        america_new_york 1719979200000 1743393599999 = Some (Inl (FetchError ''http://feeds/c.ics''))
   \<and> api_calendars_events feed_env
        (Some [''http://feeds/b.ics'', ''http://feeds/c.ics'', ''http://feeds/a.ics''])
        (Some america_new_york) None None = Some Json500"
    by simp
  with c b p w1 w2 show ?thesis by blast
qed

text \<open>
  C7 as stated fails: the second feed alone gives one event, but behind a feed that
  cannot be fetched the call ends in the fetch error.
\<close>

theorem failing_feed_hides_the_others:
  "getCalendarEventsFromUrls feed_env [''http://feeds/c.ics'', ''http://feeds/b.ics'']
     america_new_york 1727755200000 1730433600000 = Some (Inl (FetchError ''http://feeds/c.ics''))
   \<and> getCalendarEventsFromUrls feed_env [''http://feeds/b.ics''] america_new_york
        1727755200000 1730433600000 = Some (Inr [single_event_event ''http://feeds/b.ics''])"
proof -
  have "getCalendarEventsFromUrls feed_env [''http://feeds/c.ics'', ''http://feeds/b.ics'']
     america_new_york 1727755200000 1730433600000 = Some (Inl (FetchError ''http://feeds/c.ics''))"
    by (simp add: getCalendarEventsFromUrls_def feed_c_not_fetched)
  with feed_b_fetched show ?thesis by simp
qed



text \<open>
  C1, as amended. Every event generated from the rule of a recurring timed entry starts
  on the local date of a generated instant, and its local hour, minute and second are
  those of the entry's start whenever luxon finds that wall-clock time on that date,
  that is, whenever it is not a hole time skipped by a DST transition; across a
  transition the UTC instant shifts and the wall clock stays. Inside a hole the start
  is the wall-clock time read with the smaller of the two offsets luxon finds around
  it; where the first of them is the smaller one, or the second is the offset of the
  generated instant (as in every zone that has two offsets there), the local time of
  the start is the wall-clock time moved later by the difference of the two offsets.
  In America/New_York that is always one hour later. In particular
  \<open>FREQ=WEEKLY;BYDAY=TU\<close> from 2024-10-29 20:30 in America/New_York, asked for
  2024-10-28 to 2024-11-06 (local midnights), gives exactly the two starts
  2024-10-30 00:30 UTC and 2024-11-06 01:30 UTC.
\<close>

theorem wall_clock_preserved:
  "(item_type item = ''VEVENT'' \<and> item_rrule item = Some r \<and> item_datetype item \<noteq> DateOnly
      \<and> utc_rule E item r = Inr R \<and> materialize E z sr er url item = Some (Inr occs) \<longrightarrow>
      (\<forall>occ\<in>set occs. allDay occ = Some False \<longrightarrow>
         (\<exists>date\<in>set (rr_between E R sr er).
            start occ = correctedStart z item date
            \<and> (\<not> hole_time z (z date) (wall_time z item date) \<longrightarrow>
                 dt_hour z (start occ) = dt_hour z (item_start item)
                 \<and> dt_minute z (start occ) = dt_minute z (item_start item)
                 \<and> dt_second z (start occ) = dt_second z (item_start item))
            \<and> (hole_time z (z date) (wall_time z item date) \<longrightarrow>
                 (case hole_offsets z (z date) (wall_time z item date) of
                    (o2, o3) \<Rightarrow>
                      start occ = wall_time z item date - min o2 o3 * 60000
                      \<and> (o2 < o3 \<or> o3 = z date \<longrightarrow>
                           local_ms z (start occ)
                             = wall_time z item date + (max o2 o3 - min o2 o3) * 60000))))))
   \<and> (hole_time america_new_york (america_new_york date') (wall_time america_new_york item' date') \<longrightarrow>
        local_ms america_new_york (correctedStart america_new_york item' date')
          = wall_time america_new_york item' date' + 3600000)
   \<and> (item_start dst_event = utc_instant 2024 10 30 0 30 0
      \<and> toISODate america_new_york (item_start dst_event) = (2024, 10, 29)
      \<and> dt_hour america_new_york (item_start dst_event) = 20
      \<and> dt_minute america_new_york (item_start dst_event) = 30
      \<and> materialize lib_env america_new_york (utc_instant 2024 10 28 4 0 0)
           (utc_instant 2024 11 6 5 0 0) ''u'' dst_event = Some (Inr dst_event_events)
      \<and> map start dst_event_events = [utc_instant 2024 10 30 0 30 0, utc_instant 2024 11 6 1 30 0])"
proof (intro conjI impI ballI)
  fix occ
  assume a: "item_type item = ''VEVENT'' \<and> item_rrule item = Some r \<and> item_datetype item \<noteq> DateOnly
      \<and> utc_rule E item r = Inr R \<and> materialize E z sr er url item = Some (Inr occs)"
    and occ: "occ \<in> set occs" and ad: "allDay occ = Some False"
  from a obtain R' dates where R': "utc_rule E item r = Inr R'"
    and occs: "occs = recurrence_events sr er url item @ map (timed_event z url item) dates"
    and sub: "set dates \<subseteq> set (rr_between E R' sr er)"
    by (elim conjE materialize_timed_cases)
  from a R' have RR: "R' = R" by simp
  from occ ad obtain date where d: "date \<in> set dates" and o: "occ = timed_event z url item date"
    unfolding occs by (auto simp: recurrence_events_def recurrence_event_def)
  have s: "start occ = correctedStart z item date" by (simp add: o timed_event_def)
  from d sub RR have m: "date \<in> set (rr_between E R sr er)" by auto
  have nh: "\<not> hole_time z (z date) (wall_time z item date) \<longrightarrow>
                 dt_hour z (start occ) = dt_hour z (item_start item)
                 \<and> dt_minute z (start occ) = dt_minute z (item_start item)
                 \<and> dt_second z (start occ) = dt_second z (item_start item)"
    unfolding s using correctedStart_wall_clock[of z date item] by blast
  have h: "hole_time z (z date) (wall_time z item date) \<longrightarrow>
                 (case hole_offsets z (z date) (wall_time z item date) of
                    (o2, o3) \<Rightarrow>
                      start occ = wall_time z item date - min o2 o3 * 60000
                      \<and> (o2 < o3 \<or> o3 = z date \<longrightarrow>
                           local_ms z (start occ)
                             = wall_time z item date + (max o2 o3 - min o2 o3) * 60000))"
  proof
    assume ht: "hole_time z (z date) (wall_time z item date)"
    obtain o2 o3 where ho: "hole_offsets z (z date) (wall_time z item date) = (o2, o3)"
      by (cases "hole_offsets z (z date) (wall_time z item date)")
    note hs = hole_start[OF ht ho]
    show "case hole_offsets z (z date) (wall_time z item date) of
            (o2, o3) \<Rightarrow>
              start occ = wall_time z item date - min o2 o3 * 60000
              \<and> (o2 < o3 \<or> o3 = z date \<longrightarrow>
                   local_ms z (start occ)
                     = wall_time z item date + (max o2 o3 - min o2 o3) * 60000)"
      unfolding ho prod.case s correctedStart_fixOffset using hs by blast
  qed
  show "\<exists>date\<in>set (rr_between E R sr er).
            start occ = correctedStart z item date
            \<and> (\<not> hole_time z (z date) (wall_time z item date) \<longrightarrow>
                 dt_hour z (start occ) = dt_hour z (item_start item)
                 \<and> dt_minute z (start occ) = dt_minute z (item_start item)
                 \<and> dt_second z (start occ) = dt_second z (item_start item))
            \<and> (hole_time z (z date) (wall_time z item date) \<longrightarrow>
                 (case hole_offsets z (z date) (wall_time z item date) of
                    (o2, o3) \<Rightarrow>
                      start occ = wall_time z item date - min o2 o3 * 60000
                      \<and> (o2 < o3 \<or> o3 = z date \<longrightarrow>
                           local_ms z (start occ)
                             = wall_time z item date + (max o2 o3 - min o2 o3) * 60000)))"
  proof (rule bexI[OF _ m])
    from s nh h show "            start occ = correctedStart z item date
            \<and> (\<not> hole_time z (z date) (wall_time z item date) \<longrightarrow>
                 dt_hour z (start occ) = dt_hour z (item_start item)
                 \<and> dt_minute z (start occ) = dt_minute z (item_start item)
                 \<and> dt_second z (start occ) = dt_second z (item_start item))
            \<and> (hole_time z (z date) (wall_time z item date) \<longrightarrow>
                 (case hole_offsets z (z date) (wall_time z item date) of
                    (o2, o3) \<Rightarrow>
                      start occ = wall_time z item date - min o2 o3 * 60000
                      \<and> (o2 < o3 \<or> o3 = z date \<longrightarrow>
                           local_ms z (start occ)
                             = wall_time z item date + (max o2 o3 - min o2 o3) * 60000)))"
      by - (intro conjI; assumption)
  qed
next
  assume "hole_time america_new_york (america_new_york date') (wall_time america_new_york item' date')"
  then show "local_ms america_new_york (correctedStart america_new_york item' date')
          = wall_time america_new_york item' date' + 3600000"
    unfolding correctedStart_fixOffset by (rule new_york_hole)
next
  show "materialize lib_env america_new_york (utc_instant 2024 10 28 4 0 0)
           (utc_instant 2024 11 6 5 0 0) ''u'' dst_event = Some (Inr dst_event_events)"
    unfolding scenario_instants by (rule dst_event_materialized)
  show "map start dst_event_events = [utc_instant 2024 10 30 0 30 0, utc_instant 2024 11 6 1 30 0]"
    unfolding scenario_instants by (simp add: dst_event_events_def timed_occurrence_def)
qed (rule dst_event_anchor)+

theorem wall_clock_preserved_witness:
  "(item_type dst_event = ''VEVENT'' \<and> item_rrule dst_event = Some (the (item_rrule dst_event))
      \<and> item_datetype dst_event \<noteq> DateOnly
      \<and> utc_rule lib_env dst_event (the (item_rrule dst_event)) = Inr dst_utc_rule
      \<and> materialize lib_env america_new_york 1730088000000 1730869200000 ''u'' dst_event
          = Some (Inr dst_event_events))
   \<and> list_all (\<lambda>occ. allDay occ = Some False) dst_event_events
   \<and> list_all (\<lambda>date. \<not> hole_time america_new_york (america_new_york date)
                         (wall_time america_new_york dst_event date))
        (rr_between lib_env dst_utc_rule 1730088000000 1730869200000)
   \<and> list_all (\<lambda>occ. dt_hour america_new_york (start occ) = dt_hour america_new_york (item_start dst_event)
                 \<and> dt_minute america_new_york (start occ) = dt_minute america_new_york (item_start dst_event)
                 \<and> dt_second america_new_york (start occ) = dt_second america_new_york (item_start dst_event))
        dst_event_events
   \<and> (item_type spring_event = ''VEVENT''
      \<and> item_rrule spring_event = Some (the (item_rrule spring_event))
      \<and> item_datetype spring_event \<noteq> DateOnly
      \<and> utc_rule lib_env spring_event (the (item_rrule spring_event)) = Inr spring_utc_rule
      \<and> materialize lib_env america_new_york 1741323600000 1741665600000 ''u'' spring_event
          = Some (Inr spring_event_events))
   \<and> rr_between lib_env spring_utc_rule 1741323600000 1741665600000
        = [1741419000000, 1741505400000, 1741591800000]
   \<and> hole_time america_new_york (america_new_york 1741505400000)
        (wall_time america_new_york spring_event 1741505400000)
   \<and> hole_offsets america_new_york (america_new_york 1741505400000)
        (wall_time america_new_york spring_event 1741505400000) = (- 300, - 240)
   \<and> start (spring_event_events ! 1) = correctedStart america_new_york spring_event 1741505400000
   \<and> start (spring_event_events ! 1)
        = wall_time america_new_york spring_event 1741505400000 - (- 300) * 60000
   \<and> local_ms america_new_york (start (spring_event_events ! 1))
        = wall_time america_new_york spring_event 1741505400000 + 3600000
   \<and> dt_hour america_new_york (item_start spring_event) = 2
   \<and> dt_hour america_new_york (start (spring_event_events ! 1)) = 3
   \<and> dt_minute america_new_york (start (spring_event_events ! 1)) = 30"
proof -
  let ?z = america_new_york
  have h: "item_type dst_event = ''VEVENT'' \<and> item_rrule dst_event = Some (the (item_rrule dst_event))
      \<and> item_datetype dst_event \<noteq> DateOnly
      \<and> utc_rule lib_env dst_event (the (item_rrule dst_event)) = Inr dst_utc_rule
      \<and> materialize lib_env america_new_york 1730088000000 1730869200000 ''u'' dst_event
          = Some (Inr dst_event_events)"
  proof (intro conjI)
    show "item_type dst_event = ''VEVENT''" by code_simp
    show "item_rrule dst_event = Some (the (item_rrule dst_event))" by code_simp
    show "item_datetype dst_event \<noteq> DateOnly" by code_simp
    show "utc_rule lib_env dst_event (the (item_rrule dst_event)) = Inr dst_utc_rule" by code_simp
  qed (rule dst_event_materialized)
  have ad: "list_all (\<lambda>occ. allDay occ = Some False) dst_event_events" by code_simp
  have nh: "list_all (\<lambda>date. \<not> hole_time america_new_york (america_new_york date)
                         (wall_time america_new_york dst_event date))
        (rr_between lib_env dst_utc_rule 1730088000000 1730869200000)" by code_simp
  note t = wall_clock_preserved[of dst_event "the (item_rrule dst_event)" lib_env dst_utc_rule
      america_new_york 1730088000000 1730869200000 "''u''" dst_event_events
      1741505400000 spring_event]
  from t h
  have "\<forall>occ\<in>set dst_event_events. allDay occ = Some False \<longrightarrow>
         (\<exists>date\<in>set (rr_between lib_env dst_utc_rule 1730088000000 1730869200000).
            start occ = correctedStart america_new_york dst_event date
            \<and> (\<not> hole_time america_new_york (america_new_york date) (wall_time america_new_york dst_event date) \<longrightarrow>
                 dt_hour america_new_york (start occ) = dt_hour america_new_york (item_start dst_event)
                 \<and> dt_minute america_new_york (start occ) = dt_minute america_new_york (item_start dst_event)
                 \<and> dt_second america_new_york (start occ) = dt_second america_new_york (item_start dst_event)))"
    by blast
  with ad nh have c: "list_all (\<lambda>occ. dt_hour america_new_york (start occ) = dt_hour america_new_york (item_start dst_event)
                 \<and> dt_minute america_new_york (start occ) = dt_minute america_new_york (item_start dst_event)
                 \<and> dt_second america_new_york (start occ) = dt_second america_new_york (item_start dst_event))
        dst_event_events"
    unfolding list_all_iff by blast
  have hs: "item_type spring_event = ''VEVENT''
      \<and> item_rrule spring_event = Some (the (item_rrule spring_event))
      \<and> item_datetype spring_event \<noteq> DateOnly
      \<and> utc_rule lib_env spring_event (the (item_rrule spring_event)) = Inr spring_utc_rule
      \<and> materialize lib_env america_new_york 1741323600000 1741665600000 ''u'' spring_event
          = Some (Inr spring_event_events)"
  proof (intro conjI)
    show "item_type spring_event = ''VEVENT''" by code_simp
    show "item_rrule spring_event = Some (the (item_rrule spring_event))" by code_simp
    show "item_datetype spring_event \<noteq> DateOnly" by code_simp
    show "utc_rule lib_env spring_event (the (item_rrule spring_event)) = Inr spring_utc_rule"
      by code_simp
  qed (rule spring_event_materialized)
  have b: "rr_between lib_env spring_utc_rule 1741323600000 1741665600000
        = [1741419000000, 1741505400000, 1741591800000]" by code_simp
  have ht: "hole_time ?z (?z 1741505400000) (wall_time ?z spring_event 1741505400000)"
    by code_simp
  have ho: "hole_offsets ?z (?z 1741505400000) (wall_time ?z spring_event 1741505400000)
              = (- 300, - 240)" by code_simp
  have s: "start (spring_event_events ! 1) = correctedStart ?z spring_event 1741505400000"
    by code_simp
  have s2: "start (spring_event_events ! 1)
        = wall_time ?z spring_event 1741505400000 - (- 300) * 60000" by code_simp
  from t ht have "local_ms ?z (correctedStart ?z spring_event 1741505400000)
          = wall_time ?z spring_event 1741505400000 + 3600000" by blast
  then have l: "local_ms ?z (start (spring_event_events ! 1))
        = wall_time ?z spring_event 1741505400000 + 3600000" by (simp only: s)
  have f: "dt_hour ?z (item_start spring_event) = 2"
    "dt_hour ?z (start (spring_event_events ! 1)) = 3"
    "dt_minute ?z (start (spring_event_events ! 1)) = 30" by code_simp+
  from h ad nh c hs b ht ho s s2 l f show ?thesis
    by - (elim conjE, (intro conjI; assumption))
qed

text \<open>
  C1 as stated fails inside a hole: a daily entry at 02:30 in New York has its
  occurrence of 9 March 2025, the day daylight time begins, at 03:30.
\<close>

theorem wall_clock_lost_in_spring_gap:
  "materialize lib_env america_new_york 1741323600000 1741665600000 ''u'' spring_event
     = Some (Inr spring_event_events)
   \<and> allDay (spring_event_events ! 1) = Some False
   \<and> dt_hour america_new_york (item_start spring_event) = 2
   \<and> dt_hour america_new_york (start (spring_event_events ! 1)) = 3"
proof (intro conjI)
  show "allDay (spring_event_events ! 1) = Some False" by code_simp
  show "dt_hour america_new_york (item_start spring_event) = 2" by code_simp
  show "dt_hour america_new_york (start (spring_event_events ! 1)) = 3" by code_simp
qed (rule spring_event_materialized)

text \<open>
  C3, as amended. For a recurring entry, timed or all-day, no event generated from the
  rule has the local date, in the query zone, of an exception instant; the exceptions
  do nothing else: the result is the result for the same entry without exceptions,
  minus the generated events on those dates, so the neighbouring occurrences are
  untouched. Events pushed for overrides are not compared with the exceptions.
\<close>

theorem exceptions_remove_rule_events:
  assumes "item_type item = ''VEVENT''" and "item_rrule item = Some r"
    and "materialize E z sr er url item = Some (Inr occs)"
  shows "(\<forall>occ\<in>set occs. allDay occ \<noteq> None \<longrightarrow>
            toISODate z (start occ) \<notin> toISODate z ` set (item_exdate item))
     \<and> (\<exists>occs0. materialize E z sr er url (item\<lparr>item_exdate := []\<rparr>) = Some (Inr occs0)
          \<and> occs = filter (\<lambda>occ. allDay occ = None
                             \<or> toISODate z (start occ) \<notin> toISODate z ` set (item_exdate item)) occs0)"
proof -
  have "\<exists>occs0. materialize E z sr er url (item\<lparr>item_exdate := []\<rparr>) = Some (Inr occs0)
          \<and> occs = filter (\<lambda>occ. allDay occ = None
                             \<or> toISODate z (start occ) \<notin> toISODate z ` set (item_exdate item)) occs0"
  proof (cases "item_datetype item = DateOnly")
    case True
    with assms have "recurring_allday E z sr er url item r = Inr occs"
      by (simp add: materialize_def)
    from recurring_allday_without_exdate[OF this] assms(1,2) True show ?thesis
      by (simp add: materialize_def)
  next
    case False
    with assms have "recurring_timed E z sr er url item r = Inr occs"
      by (simp add: materialize_def)
    from recurring_timed_without_exdate[OF this] assms(1,2) False show ?thesis
      by (simp add: materialize_def)
  qed
  then show ?thesis by auto
qed

theorem exceptions_remove_rule_events_witness:
  "item_type exdate_event = ''VEVENT''
   \<and> item_rrule exdate_event = Some (the (item_rrule exdate_event))
   \<and> materialize lib_env america_new_york 1730260800000 1730782800000 ''u'' exdate_event
        = Some (Inr exdate_event_events)
   \<and> list_all (\<lambda>occ. allDay occ \<noteq> None) exdate_event_events
   \<and> list_all (\<lambda>occ. toISODate america_new_york (start occ)
                        \<notin> toISODate america_new_york ` set (item_exdate exdate_event))
        exdate_event_events
   \<and> (\<exists>occs0. materialize lib_env america_new_york 1730260800000 1730782800000 ''u''
                  (exdate_event\<lparr>item_exdate := []\<rparr>) = Some (Inr occs0)
          \<and> exdate_event_events
              = filter (\<lambda>occ. allDay occ = None
                          \<or> toISODate america_new_york (start occ)
                              \<notin> toISODate america_new_york ` set (item_exdate exdate_event)) occs0)"
proof -
  have 1: "item_type exdate_event = ''VEVENT''" by code_simp
  have 2: "item_rrule exdate_event = Some (the (item_rrule exdate_event))" by code_simp
  have ad: "list_all (\<lambda>occ. allDay occ \<noteq> None) exdate_event_events" by code_simp
  note t = exceptions_remove_rule_events[OF 1 2 exdate_event_materialized]
  from t ad have "list_all (\<lambda>occ. toISODate america_new_york (start occ)
                        \<notin> toISODate america_new_york ` set (item_exdate exdate_event))
        exdate_event_events"
    unfolding list_all_iff by blast
  with t 1 2 ad exdate_event_materialized show ?thesis by blast
qed

text \<open>
  C3 as stated fails for an override: when the instance of 12 November is cancelled and
  the instance of 11 November is moved to 12 November, the returned override event is
  on the date of the exception.
\<close>

theorem override_lands_on_exception_date:
  "materialize lib_env america_new_york 1731128400000 1731560400000 ''u'' cancelled_and_moved_event
     = Some (Inr cancelled_and_moved_event_events)
   \<and> item_rrule cancelled_and_moved_event = Some daily_rule
   \<and> toISODate america_new_york (item_exdate cancelled_and_moved_event ! 0) = (2024, 11, 12)
   \<and> toISODate america_new_york (start (cancelled_and_moved_event_events ! 0)) = (2024, 11, 12)"
proof (intro conjI)
  show "item_rrule cancelled_and_moved_event = Some daily_rule" by code_simp
  show "toISODate america_new_york (item_exdate cancelled_and_moved_event ! 0) = (2024, 11, 12)"
    by code_simp
  show "toISODate america_new_york (start (cancelled_and_moved_event_events ! 0)) = (2024, 11, 12)"
    by code_simp
qed (rule cancelled_and_moved_event_materialized)

text \<open>
  C2, as amended. For a recurring timed entry, the events without \<open>allDay\<close> in the
  result are exactly the overrides whose own start lies in the range, each with the
  override's start and end and with its summary, description and location (the
  entry's where the override has none); an override is returned on the date of its own
  start, wherever its \<open>RECURRENCE-ID\<close> lies. Where comparing a generated instant with a
  \<open>RECURRENCE-ID\<close> instant gives the same answer before and after the wall-time
  correction (as it does when the generated instants have the wall-clock time of the
  entry's start), the events generated from the rule are exactly those of the generated
  instants whose start is not the \<open>RECURRENCE-ID\<close> instant of an override (and whose
  date is not an exception date), in order: no event generated from the rule starts at
  the \<open>RECURRENCE-ID\<close> instant of an override.
\<close>

theorem overrides_pushed_and_instants_suppressed:
  assumes "item_type item = ''VEVENT''" and "item_rrule item = Some r"
    and "item_datetype item \<noteq> DateOnly"
    and "materialize E z sr er url item = Some (Inr occs)"
  shows "filter (\<lambda>occ. allDay occ = None) occs
           = map (\<lambda>rc. \<lparr>title = js_or (rec_summary rc) (item_summary item),
                        description = js_or (rec_description rc) (item_description item),
                        location = js_or (rec_location rc) (item_location item),
                        start = rec_start rc, end' = rec_end rc, allDay = None, calendarUrl = url\<rparr>)
               (filter (\<lambda>rc. rec_start rc \<ge> sr \<and> rec_start rc \<le> er) (item_recurrences item))
     \<and> (\<exists>R. utc_rule E item r = Inr R
          \<and> ((\<forall>d\<in>set (rr_between E R sr er). \<forall>rc\<in>set (item_recurrences item).
                 (correctedStart z item d = recurrenceid rc) = (d = recurrenceid rc)) \<longrightarrow>
               filter (\<lambda>occ. allDay occ \<noteq> None) occs
                 = (if (case rr_after E R sr of None \<Rightarrow> True | Some n \<Rightarrow> n > er) then []
                    else map (timed_event z url item)
                           (filter (\<lambda>d. correctedStart z item d
                                           \<notin> recurrenceid ` set (item_recurrences item)
                                         \<and> toISODate z (correctedStart z item d)
                                             \<notin> toISODate z ` set (item_exdate item))
                              (rr_between E R sr er)))
               \<and> (\<forall>occ\<in>set occs. allDay occ \<noteq> None \<longrightarrow>
                     start occ \<notin> recurrenceid ` set (item_recurrences item))))"
proof -
  from assms obtain R where R: "utc_rule E item r = Inr R"
    and occs: "occs = recurrence_events sr er url item
           @ (if (case rr_after E R sr of None \<Rightarrow> True | Some n \<Rightarrow> n > er) then []
              else map (timed_event z url item)
                     (filter (timed_keep z item) (rr_between E R sr er)))"
    by (rule materialize_timed_exact)
  let ?skip = "case rr_after E R sr of None \<Rightarrow> True | Some n \<Rightarrow> n > er"
  let ?ds = "if ?skip then [] else filter (timed_keep z item) (rr_between E R sr er)"
  have occs': "occs = recurrence_events sr er url item @ map (timed_event z url item) ?ds"
    unfolding occs by simp
  have a: "filter (\<lambda>occ. allDay occ = None) (recurrence_events sr er url item)
             = recurrence_events sr er url item"
    by (simp add: recurrence_events_def recurrence_event_def)
  have b: "filter (\<lambda>occ. allDay occ = None) (map (timed_event z url item) ds) = []" for ds
    by (induction ds) (simp_all add: timed_event_def)
  have "filter (\<lambda>occ. allDay occ = None) occs = recurrence_events sr er url item"
    unfolding occs' by (simp only: filter_append a b append_Nil2)
  then have first: "filter (\<lambda>occ. allDay occ = None) occs
           = map (\<lambda>rc. \<lparr>title = js_or (rec_summary rc) (item_summary item),
                        description = js_or (rec_description rc) (item_description item),
                        location = js_or (rec_location rc) (item_location item),
                        start = rec_start rc, end' = rec_end rc, allDay = None, calendarUrl = url\<rparr>)
               (filter (\<lambda>rc. rec_start rc \<ge> sr \<and> rec_start rc \<le> er) (item_recurrences item))"
    by (simp add: recurrence_events_def recurrence_event_def fun_eq_iff)
  have rule_part: "filter (\<lambda>occ. allDay occ \<noteq> None) occs = map (timed_event z url item) ?ds"
    unfolding occs' by (rule rule_events_of_result)
  have second: "filter (\<lambda>occ. allDay occ \<noteq> None) occs
                 = (if ?skip then []
                    else map (timed_event z url item)
                           (filter (\<lambda>d. correctedStart z item d
                                           \<notin> recurrenceid ` set (item_recurrences item)
                                         \<and> toISODate z (correctedStart z item d)
                                             \<notin> toISODate z ` set (item_exdate item))
                              (rr_between E R sr er)))
               \<and> (\<forall>occ\<in>set occs. allDay occ \<noteq> None \<longrightarrow>
                     start occ \<notin> recurrenceid ` set (item_recurrences item))"
    if H: "\<forall>d\<in>set (rr_between E R sr er). \<forall>rc\<in>set (item_recurrences item).
                 (correctedStart z item d = recurrenceid rc) = (d = recurrenceid rc)"
  proof -
    have k: "timed_keep z item d \<longleftrightarrow>
               correctedStart z item d \<notin> recurrenceid ` set (item_recurrences item)
               \<and> toISODate z (correctedStart z item d) \<notin> toISODate z ` set (item_exdate item)"
      if "d \<in> set (rr_between E R sr er)" for d
      using H that by (auto simp: timed_keep_def modifiedRecurrenceIds_def exdateDatesSet_def)
    have f: "filter (timed_keep z item) (rr_between E R sr er)
          = filter (\<lambda>d. correctedStart z item d \<notin> recurrenceid ` set (item_recurrences item)
                        \<and> toISODate z (correctedStart z item d)
                            \<notin> toISODate z ` set (item_exdate item))
              (rr_between E R sr er)"
      by (rule filter_cong[OF refl]) (rule k)
    have e: "filter (\<lambda>occ. allDay occ \<noteq> None) occs
                 = (if ?skip then []
                    else map (timed_event z url item)
                           (filter (\<lambda>d. correctedStart z item d
                                           \<notin> recurrenceid ` set (item_recurrences item)
                                         \<and> toISODate z (correctedStart z item d)
                                             \<notin> toISODate z ` set (item_exdate item))
                              (rr_between E R sr er)))"
      unfolding rule_part f[symmetric] by simp
    have s: "start occ \<notin> recurrenceid ` set (item_recurrences item)"
      if "occ \<in> set occs" "allDay occ \<noteq> None" for occ
    proof -
      from that have "occ \<in> set (filter (\<lambda>occ. allDay occ \<noteq> None) occs)" by simp
      then obtain d where d: "d \<in> set ?ds" and o: "occ = timed_event z url item d"
        unfolding rule_part by auto
      from d have dm: "d \<in> set (rr_between E R sr er)" and dk: "timed_keep z item d"
        by (auto split: if_splits)
      from k[OF dm] dk show ?thesis by (simp add: o timed_event_def)
    qed
    from e s show ?thesis by blast
  qed
  from R second have "\<exists>R. utc_rule E item r = Inr R
          \<and> ((\<forall>d\<in>set (rr_between E R sr er). \<forall>rc\<in>set (item_recurrences item).
                 (correctedStart z item d = recurrenceid rc) = (d = recurrenceid rc)) \<longrightarrow>
               filter (\<lambda>occ. allDay occ \<noteq> None) occs
                 = (if (case rr_after E R sr of None \<Rightarrow> True | Some n \<Rightarrow> n > er) then []
                    else map (timed_event z url item)
                           (filter (\<lambda>d. correctedStart z item d
                                           \<notin> recurrenceid ` set (item_recurrences item)
                                         \<and> toISODate z (correctedStart z item d)
                                             \<notin> toISODate z ` set (item_exdate item))
                              (rr_between E R sr er)))
               \<and> (\<forall>occ\<in>set occs. allDay occ \<noteq> None \<longrightarrow>
                     start occ \<notin> recurrenceid ` set (item_recurrences item)))"
    by (intro exI[of _ R] conjI impI) auto
  with first show ?thesis by (rule conjI)
qed

theorem overrides_pushed_and_instants_suppressed_witness:
  "item_type modified_event = ''VEVENT'' \<and> item_rrule modified_event = Some daily_rule
   \<and> item_datetype modified_event \<noteq> DateOnly
   \<and> materialize lib_env america_new_york 1731128400000 1731474000000 ''u'' modified_event
        = Some (Inr modified_event_events)
   \<and> filter (\<lambda>occ. allDay occ = None) modified_event_events
        = map (\<lambda>rc. \<lparr>title = js_or (rec_summary rc) (item_summary modified_event),
                     description = js_or (rec_description rc) (item_description modified_event),
                     location = js_or (rec_location rc) (item_location modified_event),
                     start = rec_start rc, end' = rec_end rc, allDay = None, calendarUrl = ''u''\<rparr>)
            (filter (\<lambda>rc. rec_start rc \<ge> 1731128400000 \<and> rec_start rc \<le> 1731474000000)
               (item_recurrences modified_event))
   \<and> utc_rule lib_env modified_event daily_rule = Inr daily_utc_rule
   \<and> rr_after lib_env daily_utc_rule 1731128400000 = Some 1731250800000
   \<and> rr_between lib_env daily_utc_rule 1731128400000 1731474000000
        = [1731250800000, 1731337200000, 1731423600000]
   \<and> map recurrenceid (item_recurrences modified_event) = [1731337200000]
   \<and> list_all (\<lambda>d. list_all (\<lambda>rc. (correctedStart america_new_york modified_event d = recurrenceid rc)
                                      = (d = recurrenceid rc))
                       (item_recurrences modified_event))
        [1731250800000, 1731337200000, 1731423600000]
   \<and> filter (\<lambda>occ. allDay occ \<noteq> None) modified_event_events
        = map (timed_event america_new_york ''u'' modified_event) [1731250800000, 1731423600000]
   \<and> map start (filter (\<lambda>occ. allDay occ \<noteq> None) modified_event_events)
        = [1731250800000, 1731423600000]
   \<and> list_all (\<lambda>occ. allDay occ = None
                  \<or> start occ \<notin> recurrenceid ` set (item_recurrences modified_event))
        modified_event_events"
proof -
  let ?z = america_new_york
  let ?ds = "[1731250800000, 1731337200000, 1731423600000] :: int list"
  have 1: "item_type modified_event = ''VEVENT''" by code_simp
  have 2: "item_rrule modified_event = Some daily_rule" by code_simp
  have 3: "item_datetype modified_event \<noteq> DateOnly" by code_simp
  have u: "utc_rule lib_env modified_event daily_rule = Inr daily_utc_rule" by code_simp
  have af: "rr_after lib_env daily_utc_rule 1731128400000 = Some 1731250800000" by code_simp
  have bt: "rr_between lib_env daily_utc_rule 1731128400000 1731474000000 = ?ds" by code_simp
  have ids: "map recurrenceid (item_recurrences modified_event) = [1731337200000]" by code_simp
  have H: "list_all (\<lambda>d. list_all (\<lambda>rc. (correctedStart ?z modified_event d = recurrenceid rc)
                                      = (d = recurrenceid rc))
                       (item_recurrences modified_event)) ?ds"
    by code_simp
  have kept: "filter (\<lambda>d. correctedStart ?z modified_event d
                             \<notin> recurrenceid ` set (item_recurrences modified_event)
                           \<and> toISODate ?z (correctedStart ?z modified_event d)
                               \<notin> toISODate ?z ` set (item_exdate modified_event)) ?ds
                = [1731250800000, 1731423600000]"
    by code_simp
  have st: "map start (map (timed_event ?z ''u'' modified_event) [1731250800000, 1731423600000])
              = [1731250800000, 1731423600000]" by code_simp
  note t = overrides_pushed_and_instants_suppressed[OF 1 2 3 modified_event_materialized]
  from t have a: "filter (\<lambda>occ. allDay occ = None) modified_event_events
        = map (\<lambda>rc. \<lparr>title = js_or (rec_summary rc) (item_summary modified_event),
                     description = js_or (rec_description rc) (item_description modified_event),
                     location = js_or (rec_location rc) (item_location modified_event),
                     start = rec_start rc, end' = rec_end rc, allDay = None, calendarUrl = ''u''\<rparr>)
            (filter (\<lambda>rc. rec_start rc \<ge> 1731128400000 \<and> rec_start rc \<le> 1731474000000)
               (item_recurrences modified_event))"
    by (rule conjunct1)
  from t u bt H
  have b: "filter (\<lambda>occ. allDay occ \<noteq> None) modified_event_events
                 = (if (case rr_after lib_env daily_utc_rule 1731128400000 of
                           None \<Rightarrow> True | Some n \<Rightarrow> n > 1731474000000) then []
                    else map (timed_event ?z ''u'' modified_event)
                           (filter (\<lambda>d. correctedStart ?z modified_event d
                                           \<notin> recurrenceid ` set (item_recurrences modified_event)
                                         \<and> toISODate ?z (correctedStart ?z modified_event d)
                                             \<notin> toISODate ?z ` set (item_exdate modified_event))
                              ?ds))"
    and c: "\<forall>occ\<in>set modified_event_events. allDay occ \<noteq> None \<longrightarrow>
                     start occ \<notin> recurrenceid ` set (item_recurrences modified_event)"
    unfolding list_all_iff by auto
  from b have b': "filter (\<lambda>occ. allDay occ \<noteq> None) modified_event_events
        = map (timed_event ?z ''u'' modified_event) [1731250800000, 1731423600000]"
    unfolding kept af by simp
  from c have c': "list_all (\<lambda>occ. allDay occ = None
                  \<or> start occ \<notin> recurrenceid ` set (item_recurrences modified_event))
        modified_event_events"
    unfolding list_all_iff by blast
  have st': "map start (filter (\<lambda>occ. allDay occ \<noteq> None) modified_event_events)
        = [1731250800000, 1731423600000]"
    unfolding b' by (rule st)
  from 1 2 3 modified_event_materialized a u af bt ids H b' st' c' show ?thesis
    by - (intro conjI; assumption)
qed

text \<open>
  C2 as stated fails when the override moves the instance to another day: the anchor
  date, 11 November, lies in the window and the result has no event on it.
\<close>

theorem moved_override_leaves_its_date_empty:
  "materialize lib_env america_new_york 1731128400000 1731560400000 ''u'' moved_event
     = Some (Inr moved_event_events)
   \<and> item_rrule moved_event = Some daily_rule
   \<and> toISODate america_new_york (recurrenceid (item_recurrences moved_event ! 0)) = (2024, 11, 11)
   \<and> 1731128400000 \<le> recurrenceid (item_recurrences moved_event ! 0)
   \<and> recurrenceid (item_recurrences moved_event ! 0) \<le> 1731560400000
   \<and> filter (\<lambda>occ. toISODate america_new_york (start occ) = (2024, 11, 11)) moved_event_events = []"
proof (intro conjI)
  show "item_rrule moved_event = Some daily_rule" by code_simp
  show "toISODate america_new_york (recurrenceid (item_recurrences moved_event ! 0)) = (2024, 11, 11)"
    by code_simp
  show "1731128400000 \<le> recurrenceid (item_recurrences moved_event ! 0)" by code_simp
  show "recurrenceid (item_recurrences moved_event ! 0) \<le> 1731560400000" by code_simp
  show "filter (\<lambda>occ. toISODate america_new_york (start occ) = (2024, 11, 11)) moved_event_events = []"
    by code_simp
qed (rule moved_event_materialized)

text \<open>
  The comparison with the \<open>RECURRENCE-ID\<close> instants is made on the generated
  instant, before the wall-time correction. For a daily entry at 10:00 anchored in
  daylight time whose instance of 4 November (standard time) is moved to 12:30, the
  generated instant is 14:00 UTC and the \<open>RECURRENCE-ID\<close> instant 15:00 UTC: the
  candidate is kept and corrected to 15:00 UTC, and 4 November holds both the
  override and the candidate.
\<close>

lemma override_in_another_offset_keeps_the_candidate:
  "materialize lib_env america_new_york 1730696400000 1730782800000 ''u'' standup_event
     = Some (Inr standup_event_events)
   \<and> map recurrenceid (item_recurrences standup_event) = [1730732400000]
   \<and> map_sum id (\<lambda>R. rr_between lib_env R 1730696400000 1730782800000)
        (utc_rule lib_env standup_event (the (item_rrule standup_event))) = Inr [1730728800000]
   \<and> correctedStart america_new_york standup_event 1730728800000 = 1730732400000
   \<and> map start (filter (\<lambda>occ. allDay occ \<noteq> None) standup_event_events) = [1730732400000]
   \<and> map (\<lambda>occ. toISODate america_new_york (start occ)) standup_event_events
        = [(2024, 11, 4), (2024, 11, 4)]"
proof (intro conjI)
  show "map recurrenceid (item_recurrences standup_event) = [1730732400000]" by code_simp
  show "map_sum id (\<lambda>R. rr_between lib_env R 1730696400000 1730782800000)
        (utc_rule lib_env standup_event (the (item_rrule standup_event))) = Inr [1730728800000]"
    by code_simp
  show "correctedStart america_new_york standup_event 1730728800000 = 1730732400000" by code_simp
  show "map start (filter (\<lambda>occ. allDay occ \<noteq> None) standup_event_events) = [1730732400000]"
    by code_simp
  show "map (\<lambda>occ. toISODate america_new_york (start occ)) standup_event_events
        = [(2024, 11, 4), (2024, 11, 4)]" by code_simp
qed (rule standup_event_materialized)

text \<open>
  C4. The month is injected on the all-day path only. A timed entry with the rule
  \<open>FREQ=YEARLY;BYMONTHDAY=8\<close>, starting 2024-12-08 10:00 in America/New_York and
  asked for 2024-11-01 to 2025-02-01, has its rule rebuilt without a month and is
  returned on 8 December and again on 8 January, while the all-day entry with the
  same rule and the same window is returned on 8 December only.
\<close>

theorem yearly_timed_rule_fires_every_month:
  "materialize lib_env america_new_york 1730433600000 1738386000000 ''u'' annual_timed_event
     = Some (Inr annual_timed_event_events)
   \<and> item_datetype annual_timed_event = DateAndTime
   \<and> freq (options (the (item_rrule annual_timed_event))) = Some YEARLY
   \<and> bymonth (options (the (item_rrule annual_timed_event))) = None
   \<and> month_of (toISODate america_new_york (item_start annual_timed_event)) = 12
   \<and> utc_rule lib_env annual_timed_event (the (item_rrule annual_timed_event))
        = Inr annual_timed_utc_rule
   \<and> bymonth (options annual_timed_utc_rule) = None
   \<and> map (\<lambda>occ. toISODate america_new_york (start occ)) annual_timed_event_events
        = [(2024, 12, 8), (2025, 1, 8)]
   \<and> materialize lib_env america_new_york 1730433600000 1738386000000 ''u'' annual_event
        = Some (Inr annual_event_events)
   \<and> toString (the (item_rrule annual_event)) = ''DTSTART;VALUE=DATE:20241208'' @ [CHR 0x0A]
                                                  @ ''RRULE:FREQ=YEARLY;BYMONTHDAY=8''
   \<and> map (\<lambda>occ. toISODate america_new_york (start occ)) annual_event_events = [(2024, 12, 8)]"
proof (intro conjI)
  show "materialize lib_env america_new_york 1730433600000 1738386000000 ''u'' annual_timed_event
     = Some (Inr annual_timed_event_events)" by (rule annual_timed_event_materialized)
  show "materialize lib_env america_new_york 1730433600000 1738386000000 ''u'' annual_event
        = Some (Inr annual_event_events)" by (rule annual_event_materialized)
  show "item_datetype annual_timed_event = DateAndTime" by code_simp
  show "freq (options (the (item_rrule annual_timed_event))) = Some YEARLY" by code_simp
  show "bymonth (options (the (item_rrule annual_timed_event))) = None" by code_simp
  show "month_of (toISODate america_new_york (item_start annual_timed_event)) = 12" by code_simp
  show "utc_rule lib_env annual_timed_event (the (item_rrule annual_timed_event))
        = Inr annual_timed_utc_rule" by code_simp
  show "bymonth (options annual_timed_utc_rule) = None" by code_simp
  show "map (\<lambda>occ. toISODate america_new_york (start occ)) annual_timed_event_events
        = [(2024, 12, 8), (2025, 1, 8)]" by code_simp
  show "toString (the (item_rrule annual_event)) = ''DTSTART;VALUE=DATE:20241208'' @ [CHR 0x0A]
                                                  @ ''RRULE:FREQ=YEARLY;BYMONTHDAY=8''"
    by code_simp
  show "map (\<lambda>occ. toISODate america_new_york (start occ)) annual_event_events = [(2024, 12, 8)]"
    by code_simp
qed

text \<open>
  The all-day path in general: for an all-day entry whose rule has frequency \<open>YEARLY\<close>
  and no \<open>bymonth\<close>, the options handed to \<open>new RRule\<close> have \<open>bymonth\<close> set to the
  month of the entry's start (as \<open>Date.getMonth\<close> reads it, in the zone of the
  process), every returned event comes from an instant that rule generates, and a rule
  with that \<open>bymonth\<close> generates instants in that month only.
\<close>

lemma yearly_all_day_rule_gets_the_month:
  "(item_type item = ''VEVENT'' \<and> item_rrule item = Some r \<and> item_datetype item = DateOnly
      \<and> freq (parsedRule_of E r) = Some YEARLY \<and> bymonth (options r) = None \<longrightarrow>
      bymonth (ruleOptions E item (parsedRule_of E r))
        = Some [month_of (toISODate (systemZone E) (item_start item))]
      \<and> (\<forall>occs. materialize E z sr er url item = Some (Inr occs) \<longrightarrow>
            (\<exists>R. new_RRule E (ruleOptions E item (parsedRule_of E r)) = Inr R
               \<and> (\<forall>occ\<in>set occs. \<exists>date\<in>set (rr_between E R (sr - 86400000) (er + 86400000)).
                      occ = allday_event E z url item date))))
   \<and> (bymonth (options R') = Some [m] \<longrightarrow>
        (\<forall>t\<in>set (between_model R' a b). month_of (civil_from_days (t div 86400000)) = m))
   \<and> (item_start annual_event = utc_instant 2024 12 8 5 0 0
      \<and> toISODate america_new_york (item_start annual_event) = (2024, 12, 8)
      \<and> materialize lib_env america_new_york (utc_instant 2024 11 1 4 0 0)
           (utc_instant 2025 2 1 5 0 0) ''u'' annual_event = Some (Inr annual_event_events)
      \<and> map (\<lambda>occ. toISODate america_new_york (start occ)) annual_event_events = [(2024, 12, 8)])"
proof (intro conjI impI allI)
  assume a: "item_type item = ''VEVENT'' \<and> item_rrule item = Some r \<and> item_datetype item = DateOnly
      \<and> freq (parsedRule_of E r) = Some YEARLY \<and> bymonth (options r) = None"
  then show "bymonth (ruleOptions E item (parsedRule_of E r))
        = Some [month_of (toISODate (systemZone E) (item_start item))]"
    by (intro ruleOptions_yearly_month) (simp_all add: parsedRule_of_bymonth)
  fix occs assume "materialize E z sr er url item = Some (Inr occs)"
  with a show "\<exists>R. new_RRule E (ruleOptions E item (parsedRule_of E r)) = Inr R
               \<and> (\<forall>occ\<in>set occs. \<exists>date\<in>set (rr_between E R (sr - 86400000) (er + 86400000)).
                      occ = allday_event E z url item date)"
    by (intro materialize_allday_events) simp_all
next
  assume "bymonth (options R') = Some [m]"
  then show "\<forall>t\<in>set (between_model R' a b). month_of (civil_from_days (t div 86400000)) = m"
    using between_model_month by blast
next
  show "item_start annual_event = utc_instant 2024 12 8 5 0 0" by code_simp
  show "toISODate america_new_york (item_start annual_event) = (2024, 12, 8)" by code_simp
  show "materialize lib_env america_new_york (utc_instant 2024 11 1 4 0 0)
           (utc_instant 2025 2 1 5 0 0) ''u'' annual_event = Some (Inr annual_event_events)"
    unfolding annual_instants by (rule annual_event_materialized)
  show "map (\<lambda>occ. toISODate america_new_york (start occ)) annual_event_events = [(2024, 12, 8)]"
    by code_simp
qed

lemma yearly_all_day_rule_gets_the_month_example:
  "(item_type annual_event = ''VEVENT''
      \<and> item_rrule annual_event = Some (the (item_rrule annual_event))
      \<and> item_datetype annual_event = DateOnly
      \<and> freq (parsedRule_of lib_env (the (item_rrule annual_event))) = Some YEARLY
      \<and> bymonth (options (the (item_rrule annual_event))) = None)
   \<and> bymonth (ruleOptions lib_env annual_event (parsedRule_of lib_env (the (item_rrule annual_event))))
        = Some [month_of (toISODate (systemZone lib_env) (item_start annual_event))]
   \<and> month_of (toISODate (systemZone lib_env) (item_start annual_event)) = 12
   \<and> materialize lib_env america_new_york 1730433600000 1738386000000 ''u'' annual_event
        = Some (Inr annual_event_events)
   \<and> (\<exists>R. new_RRule lib_env
              (ruleOptions lib_env annual_event (parsedRule_of lib_env (the (item_rrule annual_event))))
            = Inr R
         \<and> list_all (\<lambda>occ. \<exists>date\<in>set (rr_between lib_env R (1730433600000 - 86400000)
                                          (1738386000000 + 86400000)).
                        occ = allday_event lib_env america_new_york ''u'' annual_event date)
             annual_event_events)
   \<and> bymonth (options \<lparr>options = annual_options, toString = []\<rparr>) = Some [12]
   \<and> list_all (\<lambda>t. month_of (civil_from_days (t div 86400000)) = 12)
        (between_model \<lparr>options = annual_options, toString = []\<rparr> 1730347200000 1738472400000)"
proof -
  have h: "item_type annual_event = ''VEVENT''
      \<and> item_rrule annual_event = Some (the (item_rrule annual_event))
      \<and> item_datetype annual_event = DateOnly
      \<and> freq (parsedRule_of lib_env (the (item_rrule annual_event))) = Some YEARLY
      \<and> bymonth (options (the (item_rrule annual_event))) = None"
    by (intro conjI; code_simp)
  have m: "month_of (toISODate (systemZone lib_env) (item_start annual_event)) = 12" by code_simp
  have b: "bymonth (options \<lparr>options = annual_options, toString = []\<rparr>) = Some [12]" by code_simp
  note t = yearly_all_day_rule_gets_the_month[of annual_event "the (item_rrule annual_event)"
      lib_env america_new_york 1730433600000 1738386000000 "''u''"
      "\<lparr>options = annual_options, toString = []\<rparr>" 12 1730347200000 1738472400000]
  from t h have 1: "bymonth (ruleOptions lib_env annual_event
        (parsedRule_of lib_env (the (item_rrule annual_event))))
        = Some [month_of (toISODate (systemZone lib_env) (item_start annual_event))]"
    by blast
  from t h annual_event_materialized
  have 2: "\<exists>R. new_RRule lib_env
              (ruleOptions lib_env annual_event (parsedRule_of lib_env (the (item_rrule annual_event))))
            = Inr R
         \<and> list_all (\<lambda>occ. \<exists>date\<in>set (rr_between lib_env R (1730433600000 - 86400000)
                                          (1738386000000 + 86400000)).
                        occ = allday_event lib_env america_new_york ''u'' annual_event date)
             annual_event_events"
    unfolding list_all_iff by blast
  from t b have 3: "list_all (\<lambda>t. month_of (civil_from_days (t div 86400000)) = 12)
        (between_model \<lparr>options = annual_options, toString = []\<rparr> 1730347200000 1738472400000)"
    unfolding list_all_iff by blast
  from h 1 m annual_event_materialized 2 b 3 show ?thesis by blast
qed

text \<open>
  C8, as amended. A rule with a missing or unrecognised frequency is never treated as a
  non-recurring entry, and no error it causes is caught. When the decoder throws on the
  feed, as node-ical does for such a rule, \<open>parseIcsData\<close> throws that error. Should
  an all-day entry arrive whose options have no frequency, also after the attempt to
  recover it from the rule text, the options go to \<open>new RRule\<close> with the frequency
  still missing (the condition is only logged): when the constructor throws, the entry
  throws; when it does not, the events are those of instants the rule generates. For a
  timed entry the service never looks at the frequency, and an error of \<open>rrulestr\<close>
  on the rebuilt text is thrown the same way. An entry that throws behind entries that
  were materialized makes the loop over the entries throw.
\<close>

theorem missing_frequency_goes_to_the_library:
  "(parseICS E icsData = Inl e \<longrightarrow> parseIcsData E icsData z sr er url = Some (Inl e))
   \<and> (item_type item = ''VEVENT'' \<and> item_rrule item = Some r \<and> item_datetype item = DateOnly
      \<and> freq (parsedRule_of E r) = None \<longrightarrow>
      freq (ruleOptions E item (parsedRule_of E r)) = None
      \<and> (\<forall>e'. new_RRule E (ruleOptions E item (parsedRule_of E r)) = Inl e' \<longrightarrow>
            materialize E z sr er url item = Some (Inl e'))
      \<and> (\<forall>R. new_RRule E (ruleOptions E item (parsedRule_of E r)) = Inr R \<longrightarrow>
            (\<exists>dates. set dates \<subseteq> set (rr_between E R (sr - 86400000) (er + 86400000))
               \<and> materialize E z sr er url item
                   = Some (Inr (map (allday_event E z url item) dates)))))
   \<and> (item_type item = ''VEVENT'' \<and> item_rrule item = Some r \<and> item_datetype item \<noteq> DateOnly \<longrightarrow>
        (\<forall>e'. utc_rule E item r = Inl e' \<longrightarrow> materialize E z sr er url item = Some (Inl e')))
   \<and> ((\<forall>p\<in>set pre. \<exists>evs. materialize E z sr er url p = Some (Inr evs))
      \<and> materialize E z sr er url item' = Some (Inl e'') \<longrightarrow>
        for_items (materialize E z sr er url) (pre @ item' # post) [] = Some (Inl e''))"
proof (intro conjI impI allI)
  assume "parseICS E icsData = Inl e"
  then show "parseIcsData E icsData z sr er url = Some (Inl e)" by (simp add: parseIcsData_def)
next
  assume a: "item_type item = ''VEVENT'' \<and> item_rrule item = Some r \<and> item_datetype item = DateOnly
      \<and> freq (parsedRule_of E r) = None"
  then show "freq (ruleOptions E item (parsedRule_of E r)) = None"
    by (simp add: ruleOptions_freq)
  {
    fix e' assume "new_RRule E (ruleOptions E item (parsedRule_of E r)) = Inl e'"
    with a show "materialize E z sr er url item = Some (Inl e')"
      by (intro materialize_allday_error) simp_all
  }
  fix R assume "new_RRule E (ruleOptions E item (parsedRule_of E r)) = Inr R"
  with a show "\<exists>dates. set dates \<subseteq> set (rr_between E R (sr - 86400000) (er + 86400000))
               \<and> materialize E z sr er url item
                   = Some (Inr (map (allday_event E z url item) dates))"
    by (intro materialize_allday_returns) simp_all
next
  fix e'
  assume "item_type item = ''VEVENT'' \<and> item_rrule item = Some r \<and> item_datetype item \<noteq> DateOnly"
    and "utc_rule E item r = Inl e'"
  then show "materialize E z sr er url item = Some (Inl e')"
    by (intro materialize_timed_error) simp_all
next
  assume "(\<forall>p\<in>set pre. \<exists>evs. materialize E z sr er url p = Some (Inr evs))
      \<and> materialize E z sr er url item' = Some (Inl e'')"
  then show "for_items (materialize E z sr er url) (pre @ item' # post) [] = Some (Inl e'')"
    by (intro for_items_first_failure) simp_all
qed

theorem missing_frequency_goes_to_the_library_witness:
  "parseICS rule_feed_env ''RRULE:COUNT=3'' = Inl (LibraryError ''Unknown RRULE property'')
   \<and> parseIcsData rule_feed_env ''RRULE:COUNT=3'' america_new_york 1727755200000 1738386000000 ''u''
        = Some (Inl (LibraryError ''Unknown RRULE property''))
   \<and> (item_type nofreq_event = ''VEVENT''
      \<and> item_rrule nofreq_event = Some (the (item_rrule nofreq_event))
      \<and> item_datetype nofreq_event = DateOnly
      \<and> freq (parsedRule_of lib_env (the (item_rrule nofreq_event))) = None)
   \<and> new_RRule lib_env
        (ruleOptions lib_env nofreq_event (parsedRule_of lib_env (the (item_rrule nofreq_event))))
        = Inl (LibraryError ''Invalid frequency'')
   \<and> materialize lib_env america_new_york 1730433600000 1738386000000 ''u'' nofreq_event
        = Some (Inl (LibraryError ''Invalid frequency''))
   \<and> freq (parsedRule_of lenient_env (the (item_rrule nofreq_event))) = None
   \<and> new_RRule lenient_env
        (ruleOptions lenient_env nofreq_event
           (parsedRule_of lenient_env (the (item_rrule nofreq_event))))
        = Inr \<lparr>options = nofreq_options, toString = []\<rparr>
   \<and> materialize lenient_env america_new_york 1730433600000 1738386000000 ''u'' nofreq_event
        = Some (Inr nofreq_event_events)
   \<and> (\<exists>dates. set dates \<subseteq> set (rr_between lenient_env \<lparr>options = nofreq_options, toString = []\<rparr>
                                     (1730433600000 - 86400000) (1738386000000 + 86400000))
         \<and> materialize lenient_env america_new_york 1730433600000 1738386000000 ''u'' nofreq_event
             = Some (Inr (map (allday_event lenient_env america_new_york ''u'' nofreq_event) dates)))
   \<and> (item_type badfreq_event = ''VEVENT''
      \<and> item_rrule badfreq_event = Some (the (item_rrule badfreq_event))
      \<and> item_datetype badfreq_event \<noteq> DateOnly
      \<and> utc_rule lib_env badfreq_event (the (item_rrule badfreq_event))
          = Inl (LibraryError ''Invalid frequency''))
   \<and> materialize lib_env america_new_york 1730433600000 1738386000000 ''u'' badfreq_event
        = Some (Inl (LibraryError ''Invalid frequency''))
   \<and> list_all (\<lambda>p. \<exists>evs. materialize lib_env america_new_york 1730433600000 1738386000000 ''u'' p
                          = Some (Inr evs)) [single_event]
   \<and> for_items (materialize lib_env america_new_york 1730433600000 1738386000000 ''u'')
        [single_event, nofreq_event] [] = Some (Inl (LibraryError ''Invalid frequency''))"
proof -
  let ?z = america_new_york
  have d: "parseICS rule_feed_env ''RRULE:COUNT=3'' = Inl (LibraryError ''Unknown RRULE property'')"
    by (rule rule_feed_decoded(1))
  have fl: "freq (parsedRule_of lenient_env (the (item_rrule nofreq_event))) = None" by code_simp
  have h: "item_type nofreq_event = ''VEVENT''
      \<and> item_rrule nofreq_event = Some (the (item_rrule nofreq_event))
      \<and> item_datetype nofreq_event = DateOnly
      \<and> freq (parsedRule_of lib_env (the (item_rrule nofreq_event))) = None"
    using nofreq_event_options(1,2,3,4) by simp
  have hl: "item_type nofreq_event = ''VEVENT''
      \<and> item_rrule nofreq_event = Some (the (item_rrule nofreq_event))
      \<and> item_datetype nofreq_event = DateOnly
      \<and> freq (parsedRule_of lenient_env (the (item_rrule nofreq_event))) = None"
    using nofreq_event_options(1,2,3) fl by simp
  have e: "new_RRule lib_env
        (ruleOptions lib_env nofreq_event (parsedRule_of lib_env (the (item_rrule nofreq_event))))
        = Inl (LibraryError ''Invalid frequency'')"
    by (simp only: nofreq_event_options(5,6))
  have el: "new_RRule lenient_env
        (ruleOptions lenient_env nofreq_event
           (parsedRule_of lenient_env (the (item_rrule nofreq_event))))
        = Inr \<lparr>options = nofreq_options, toString = []\<rparr>" by code_simp
  have s: "materialize lib_env ?z 1730433600000 1738386000000 ''u'' single_event = Some (Inr [])"
    by code_simp
  note t0 = missing_frequency_goes_to_the_library[of rule_feed_env "''RRULE:COUNT=3''"
      "LibraryError ''Unknown RRULE property''" ?z 1727755200000 1738386000000 "''u''"]
  from t0 d
  have 0: "parseIcsData rule_feed_env ''RRULE:COUNT=3'' ?z 1727755200000 1738386000000 ''u''
        = Some (Inl (LibraryError ''Unknown RRULE property''))" by blast
  note t1 = missing_frequency_goes_to_the_library[of lib_env _ _ ?z 1730433600000 1738386000000
      "''u''" nofreq_event "the (item_rrule nofreq_event)" "[single_event]" nofreq_event
      "LibraryError ''Invalid frequency''" "[]"]
  from t1 h e
  have 1: "materialize lib_env ?z 1730433600000 1738386000000 ''u'' nofreq_event
        = Some (Inl (LibraryError ''Invalid frequency''))" by blast
  have pre: "\<forall>p\<in>set [single_event]. \<exists>evs. materialize lib_env ?z 1730433600000 1738386000000 ''u'' p
                          = Some (Inr evs)"
    using s by simp
  from t1 pre 1
  have 4: "for_items (materialize lib_env ?z 1730433600000 1738386000000 ''u'')
        ([single_event] @ nofreq_event # []) [] = Some (Inl (LibraryError ''Invalid frequency''))"
    by blast
  then have loop: "for_items (materialize lib_env ?z 1730433600000 1738386000000 ''u'')
        [single_event, nofreq_event] [] = Some (Inl (LibraryError ''Invalid frequency''))"
    by simp
  from pre have pre': "list_all (\<lambda>p. \<exists>evs. materialize lib_env ?z 1730433600000 1738386000000 ''u'' p
                          = Some (Inr evs)) [single_event]"
    unfolding list_all_iff .
  note t2 = missing_frequency_goes_to_the_library[of lenient_env _ _ ?z 1730433600000 1738386000000
      "''u''" nofreq_event "the (item_rrule nofreq_event)"]
  from t2 hl el
  have 2: "\<exists>dates. set dates \<subseteq> set (rr_between lenient_env \<lparr>options = nofreq_options, toString = []\<rparr>
                                     (1730433600000 - 86400000) (1738386000000 + 86400000))
         \<and> materialize lenient_env ?z 1730433600000 1738386000000 ''u'' nofreq_event
             = Some (Inr (map (allday_event lenient_env ?z ''u'' nofreq_event) dates))"
    by blast
  have hb: "item_type badfreq_event = ''VEVENT''
      \<and> item_rrule badfreq_event = Some (the (item_rrule badfreq_event))
      \<and> item_datetype badfreq_event \<noteq> DateOnly
      \<and> utc_rule lib_env badfreq_event (the (item_rrule badfreq_event))
          = Inl (LibraryError ''Invalid frequency'')"
    using badfreq_event_rule by simp
  from missing_frequency_goes_to_the_library[of lib_env _ _ ?z 1730433600000 1738386000000
      "''u''" badfreq_event "the (item_rrule badfreq_event)"] hb
  have 3: "materialize lib_env ?z 1730433600000 1738386000000 ''u'' badfreq_event
        = Some (Inl (LibraryError ''Invalid frequency''))" by blast
  from d 0 h e 1 fl el nofreq_event_lenient 2 hb 3 pre' loop show ?thesis
    by - (elim conjE, (intro conjI; assumption))
qed

text \<open>
  C8 as stated fails: a feed whose second entry has the rule \<open>RRULE:COUNT=3\<close>, or a
  rule with the unknown frequency \<open>FORTNIGHTLY\<close>, makes \<open>parseIcsData\<close> throw the
  error of the decoder, although the feed holds a well-formed entry too; with
  \<open>RRULE:FREQ=YEARLY;COUNT=3\<close> the same feed gives its two events.
\<close>

theorem missing_frequency_throws:
  "parseICS rule_feed_env ''RRULE:COUNT=3'' = Inl (LibraryError ''Unknown RRULE property'')
   \<and> parseIcsData rule_feed_env ''RRULE:COUNT=3'' america_new_york 1727755200000 1738386000000 ''u''
        = Some (Inl (LibraryError ''Unknown RRULE property''))
   \<and> parseICS rule_feed_env ''RRULE:FREQ=FORTNIGHTLY;COUNT=3''
        = Inl (LibraryError ''Invalid frequency'')
   \<and> parseIcsData rule_feed_env ''RRULE:FREQ=FORTNIGHTLY;COUNT=3'' america_new_york
        1727755200000 1738386000000 ''u'' = Some (Inl (LibraryError ''Invalid frequency''))
   \<and> parseIcsData rule_feed_env ''RRULE:FREQ=YEARLY;COUNT=3'' america_new_york
        1727755200000 1738386000000 ''u''
        = Some (Inr [single_event_event ''u'',
                     allday_occurrence ''Anniversary'' 1733634000000 1733720400000])"
proof (intro conjI)
  show "parseIcsData rule_feed_env ''RRULE:COUNT=3'' america_new_york 1727755200000 1738386000000 ''u''
        = Some (Inl (LibraryError ''Unknown RRULE property''))"
    by (simp add: parseIcsData_def rule_feed_decoded(1))
  show "parseIcsData rule_feed_env ''RRULE:FREQ=FORTNIGHTLY;COUNT=3'' america_new_york
        1727755200000 1738386000000 ''u'' = Some (Inl (LibraryError ''Invalid frequency''))"
    by (simp add: parseIcsData_def rule_feed_decoded(2))
qed (rule rule_feed_decoded)+

subsection \<open>All-day entries without a rule\<close>

text \<open>
  C5. The loop over the days misses a day behind a missing midnight. In
  America/Santiago the clocks go from 2024-09-08 00:00 to 01:00. An all-day entry over
  2024-09-07 .. 2024-09-09, in a window that holds the whole span, yields two
  occurrences and not three: \<open>plus({ days: 1 })\<close> lands on 01:00 of 2024-09-08 and
  stays on 01:00, so the value for 2024-09-09 is later than \<open>lastDay\<close> (00:00 of that
  day) and the loop ends before it, although the local midnight of 2024-09-09 exists,
  is unambiguous and lies in the window.
\<close>

theorem midnight_transition_drops_the_last_day:
  "materialize lib_env america_santiago 1725163200000 1727665200000 ''u'' fiestas
     = Some (Inr fiestas_events)
   \<and> item_rrule fiestas = None \<and> item_datetype fiestas = DateOnly
   \<and> item_start fiestas < adjustEndForAllDayEvents fiestas
   \<and> toISODate america_santiago (item_start fiestas) = (2024, 9, 7)
   \<and> toISODate america_santiago (adjustEndForAllDayEvents fiestas) = (2024, 9, 9)
   \<and> local_day america_santiago (item_start fiestas) = 19973
   \<and> local_day america_santiago (adjustEndForAllDayEvents fiestas) = 19975
   \<and> 1725163200000 \<le> item_start fiestas \<and> item_end fiestas \<le> 1727665200000
   \<and> length fiestas_events = 2
   \<and> map (\<lambda>occ. local_day america_santiago (start occ)) fiestas_events = [19973, 19974]
   \<and> dt_hour america_santiago (start (fiestas_events ! 1)) = 1
   \<and> clean_midnight america_santiago 19975
   \<and> midnight america_santiago 19975 = 1725850800000
   \<and> startOf_day america_santiago (adjustEndForAllDayEvents fiestas) = 1725850800000
   \<and> 1725163200000 \<le> midnight america_santiago 19975
   \<and> midnight america_santiago 19975 \<le> 1727665200000
   \<and> plus_days america_santiago (start (fiestas_events ! 1)) 1 = 1725854400000
   \<and> filter (\<lambda>occ. local_day america_santiago (start occ) = 19975) fiestas_events = []"
proof (intro conjI)
  show "materialize lib_env america_santiago 1725163200000 1727665200000 ''u'' fiestas
     = Some (Inr fiestas_events)" by (rule fiestas_materialized)
  show "clean_midnight america_santiago 19975"
    by (rule clean_midnight_two_offsets[of _ "- 240" "- 180" 1725850800000, OF santiago_offsets])
      code_simp+
  show "item_rrule fiestas = None" by code_simp
  show "item_datetype fiestas = DateOnly" by code_simp
  show "item_start fiestas < adjustEndForAllDayEvents fiestas" by code_simp
  show "toISODate america_santiago (item_start fiestas) = (2024, 9, 7)" by code_simp
  show "toISODate america_santiago (adjustEndForAllDayEvents fiestas) = (2024, 9, 9)" by code_simp
  show "local_day america_santiago (item_start fiestas) = 19973" by code_simp
  show "local_day america_santiago (adjustEndForAllDayEvents fiestas) = 19975" by code_simp
  show "1725163200000 \<le> item_start fiestas" by code_simp
  show "item_end fiestas \<le> 1727665200000" by code_simp
  show "length fiestas_events = 2" by code_simp
  show "map (\<lambda>occ. local_day america_santiago (start occ)) fiestas_events = [19973, 19974]"
    by code_simp
  show "dt_hour america_santiago (start (fiestas_events ! 1)) = 1" by code_simp
  show "midnight america_santiago 19975 = 1725850800000" by code_simp
  show "startOf_day america_santiago (adjustEndForAllDayEvents fiestas) = 1725850800000"
    by code_simp
  show "1725163200000 \<le> midnight america_santiago 19975" by code_simp
  show "midnight america_santiago 19975 \<le> 1727665200000" by code_simp
  show "plus_days america_santiago (start (fiestas_events ! 1)) 1 = 1725854400000" by code_simp
  show "filter (\<lambda>occ. local_day america_santiago (start occ) = 19975) fiestas_events = []"
    by code_simp
qed

text \<open>
  Away from such a day the loop emits every day. Take a non-recurring all-day entry
  whose start is before its adjusted end, in a zone whose offset steps are below a day
  (\<open>steady\<close>), such that every local midnight from the entry's first local day to the
  day after its last one exists and is unambiguous (\<open>clean_midnight\<close>). Then
  materialization returns one all-day occurrence for each of these local days whose
  midnight lies within \<open>[rangeStart, rangeEnd]\<close>, in order, and no other: the
  occurrence of day \<open>n\<close> starts at the local midnight of \<open>n\<close> and ends one millisecond
  before the local midnight of \<open>n + 1\<close>. When the window holds every one of these
  midnights, there are exactly \<open>N\<close> occurrences, on the \<open>N\<close> consecutive local days of
  the span.
\<close>

lemma all_day_entry_split_into_days:
  assumes "item_type item = ''VEVENT''" and "item_rrule item = None"
    and "item_datetype item = DateOnly"
    and "item_start item < adjustEndForAllDayEvents item"
    and "steady z"
    and "local_day z (item_start item) \<le> local_day z (adjustEndForAllDayEvents item)"
    and "\<forall>k\<in>{local_day z (item_start item) .. local_day z (adjustEndForAllDayEvents item) + 1}.
           clean_midnight z k"
  shows "\<exists>occs. materialize E z sr er url item = Some (Inr occs)
     \<and> map start occs
         = filter (\<lambda>t. t \<ge> sr \<and> t \<le> er)
             (map (midnight z)
                [local_day z (item_start item) .. local_day z (adjustEndForAllDayEvents item)])
     \<and> (\<forall>occ\<in>set occs. allDay occ = Some True \<and> title occ = item_summary item
           \<and> (\<exists>n\<in>{local_day z (item_start item) .. local_day z (adjustEndForAllDayEvents item)}.
                 start occ = midnight z n \<and> local_ms z (start occ) = n * 86400000
                 \<and> end' occ = midnight z (n + 1) - 1
                 \<and> local_ms z (end' occ + 1) = (n + 1) * 86400000))
     \<and> ((\<forall>n\<in>{local_day z (item_start item) .. local_day z (adjustEndForAllDayEvents item)}.
            midnight z n \<ge> sr \<and> midnight z n \<le> er) \<longrightarrow>
          length occs
            = nat (local_day z (adjustEndForAllDayEvents item) - local_day z (item_start item) + 1)
          \<and> map (\<lambda>occ. local_day z (start occ)) occs
              = [local_day z (item_start item) .. local_day z (adjustEndForAllDayEvents item)])"
proof -
  let ?n = "local_day z (item_start item)" and ?l = "local_day z (adjustEndForAllDayEvents item)"
  let ?ts = "filter (\<lambda>t. t \<ge> sr \<and> t \<le> er) (map (midnight z) [?n .. ?l])"
  let ?occs = "map (day_event z url item) ?ts"
  have m: "materialize E z sr er url item = Some (Inr ?occs)"
    using assms(1,2) non_recurring_all_day_clean[OF assms(3-7)] by (simp add: materialize_def)
  have s: "map start ?occs = ?ts" by (simp add: day_event_def comp_def)
  have each: "allDay occ = Some True \<and> title occ = item_summary item
           \<and> (\<exists>n\<in>{?n .. ?l}.
                 start occ = midnight z n \<and> local_ms z (start occ) = n * 86400000
                 \<and> end' occ = midnight z (n + 1) - 1
                 \<and> local_ms z (end' occ + 1) = (n + 1) * 86400000)"
    if "occ \<in> set ?occs" for occ
  proof -
    from that obtain n where n: "n \<in> {?n .. ?l}" and o: "occ = day_event z url item (midnight z n)"
      by auto
    from n assms(7) have c: "clean_midnight z n" "clean_midnight z (n + 1)" by auto
    note d = day_event_clean[OF assms(5) c, of url item]
    have "local_ms z (start occ) = n * 86400000"
      unfolding o d(1) by (rule clean_midnightD(2)[OF c(1)])
    moreover have "local_ms z (end' occ + 1) = (n + 1) * 86400000"
      unfolding o d(2) using clean_midnightD(2)[OF c(2)] by simp
    ultimately show ?thesis using n d(1,2,3) by (auto simp: o day_event_def)
  qed
  have full: "length ?occs = nat (?l - ?n + 1)
          \<and> map (\<lambda>occ. local_day z (start occ)) ?occs = [?n .. ?l]"
    if w: "\<forall>n\<in>{?n .. ?l}. midnight z n \<ge> sr \<and> midnight z n \<le> er"
  proof -
    from w have ts: "?ts = map (midnight z) [?n .. ?l]" by (auto intro: filter_True)
    have "map (\<lambda>occ. local_day z (start occ)) ?occs = map (\<lambda>n. local_day z (midnight z n)) [?n .. ?l]"
      unfolding ts by (simp add: day_event_def comp_def)
    also have "\<dots> = map (\<lambda>n. n) [?n .. ?l]"
      using assms(7) by (intro map_cong refl local_day_midnight) auto
    finally have "map (\<lambda>occ. local_day z (start occ)) ?occs = [?n .. ?l]" by simp
    moreover have "length ?occs = nat (?l - ?n + 1)" unfolding ts by simp
    ultimately show ?thesis by simp
  qed
  from m s each full show ?thesis by blast
qed

lemma all_day_entry_split_into_days_example:
  "item_type vacation = ''VEVENT'' \<and> item_rrule vacation = None \<and> item_datetype vacation = DateOnly
   \<and> item_start vacation < adjustEndForAllDayEvents vacation
   \<and> steady america_new_york
   \<and> local_day america_new_york (item_start vacation) = 20031
   \<and> local_day america_new_york (adjustEndForAllDayEvents vacation) = 20033
   \<and> list_all (clean_midnight america_new_york) [20031, 20032, 20033, 20034]
   \<and> materialize lib_env america_new_york 1730433600000 1731214800000 ''u'' vacation
        = Some (Inr vacation_events)
   \<and> length vacation_events = 3
   \<and> map (\<lambda>occ. local_day america_new_york (start occ)) vacation_events = [20031, 20032, 20033]
   \<and> list_all (\<lambda>occ. allDay occ = Some True) vacation_events"
proof -
  let ?z = america_new_york
  have d: "local_day ?z (item_start vacation) \<le> local_day ?z (adjustEndForAllDayEvents vacation)"
    by (simp add: vacation_days(5,6))
  have c: "\<forall>k\<in>{local_day ?z (item_start vacation) .. local_day ?z (adjustEndForAllDayEvents vacation) + 1}.
             clean_midnight ?z k"
  proof
    fix k
    assume "k \<in> {local_day ?z (item_start vacation) .. local_day ?z (adjustEndForAllDayEvents vacation) + 1}"
    then have "k = 20031 \<or> k = 20032 \<or> k = 20033 \<or> k = 20034"
      unfolding vacation_days(5,6) by auto
    then show "clean_midnight ?z k" using clean_new_york_november by auto
  qed
  have w: "\<forall>n\<in>{local_day ?z (item_start vacation) .. local_day ?z (adjustEndForAllDayEvents vacation)}.
             midnight ?z n \<ge> 1730433600000 \<and> midnight ?z n \<le> 1731214800000"
  proof
    fix n
    assume "n \<in> {local_day ?z (item_start vacation) .. local_day ?z (adjustEndForAllDayEvents vacation)}"
    then have "n = 20031 \<or> n = 20032 \<or> n = 20033"
      unfolding vacation_days(5,6) by auto
    then show "midnight ?z n \<ge> 1730433600000 \<and> midnight ?z n \<le> 1731214800000"
      using new_york_november_midnights by auto
  qed
  have u: "[20031 .. 20033] = [20031, 20032, 20033 :: int]" by code_simp
  from all_day_entry_split_into_days[OF vacation_days(1,2,3,4) steady_new_york d c,
      of lib_env 1730433600000 1731214800000 "''u''"]
  obtain occs where m: "materialize lib_env ?z 1730433600000 1731214800000 ''u'' vacation = Some (Inr occs)"
    and a: "\<forall>occ\<in>set occs. allDay occ = Some True"
    and f: "(\<forall>n\<in>{local_day ?z (item_start vacation) .. local_day ?z (adjustEndForAllDayEvents vacation)}.
            midnight ?z n \<ge> 1730433600000 \<and> midnight ?z n \<le> 1731214800000) \<longrightarrow>
          length occs
            = nat (local_day ?z (adjustEndForAllDayEvents vacation) - local_day ?z (item_start vacation) + 1)
          \<and> map (\<lambda>occ. local_day ?z (start occ)) occs
              = [local_day ?z (item_start vacation) .. local_day ?z (adjustEndForAllDayEvents vacation)]"
    by blast
  from m vacation_materialized have o: "occs = vacation_events" by simp
  from f w have "length occs = 3 \<and> map (\<lambda>occ. local_day ?z (start occ)) occs = [20031, 20032, 20033]"
    unfolding vacation_days(5,6) u by simp
  moreover from a have "list_all (\<lambda>occ. allDay occ = Some True) occs" by (simp add: list_all_iff)
  ultimately show ?thesis
    using vacation_days steady_new_york clean_new_york_november vacation_materialized
    unfolding o by simp
qed

subsection \<open>Start and end of an occurrence\<close>




end
